theory Spec2Isabelle
  imports Complex_Main "HOL-Library.AList" "HOL-Library.Sublist" "HOL-Library.Multiset"
begin

section \<open>JavaScript values\<close>

text \<open>
  Request bodies, query parameters and stored documents are JavaScript values. Numbers are
  modelled as exact rationals together with NaN and the two infinities; rounding to 64-bit
  floating point is not modelled. Strings are byte strings, so the white space and the
  letters known to the string functions are the ASCII ones. A Date object carries its time
  value in milliseconds, \<open>None\<close> for an Invalid Date.
\<close>

datatype jsval =
    JUndefined
  | JNull
  | JBool bool
  | JNum rat
  | JNaN
  | JInf bool
  | JStr string
  | JDate "int option"
  | JArr "jsval list"
  | JObj "(string \<times> jsval) list"

type_synonym obj = "(string \<times> jsval) list"

text \<open>Property read \<open>o.k\<close>: a missing key reads as \<open>undefined\<close>.\<close>

definition get :: "obj \<Rightarrow> string \<Rightarrow> jsval" where
  "get ob k = (case map_of ob k of None \<Rightarrow> JUndefined | Some v \<Rightarrow> v)"

text \<open>Property write \<open>o.k = v\<close>: an existing key keeps its place, a new key is appended.\<close>

definition put :: "string \<Rightarrow> jsval \<Rightarrow> obj \<Rightarrow> obj" where
  "put k v ob = AList.update k v ob"

text \<open>\<open>{...a, ...b}\<close>: the keys of \<open>b\<close> are written over \<open>a\<close> in order.\<close>

definition spread :: "obj \<Rightarrow> obj \<Rightarrow> obj" where
  "spread a b = foldl (\<lambda>acc (k, v). put k v acc) a b"

text \<open>\<open>typeof v\<close>\<close>

fun js_typeof :: "jsval \<Rightarrow> string" where
  "js_typeof JUndefined = ''undefined''"
| "js_typeof (JBool b) = ''boolean''"
| "js_typeof (JNum r) = ''number''"
| "js_typeof JNaN = ''number''"
| "js_typeof (JInf b) = ''number''"
| "js_typeof (JStr s) = ''string''"
| "js_typeof v = ''object''"

text \<open>ToBoolean.\<close>

fun truthy :: "jsval \<Rightarrow> bool" where
  "truthy JUndefined = False"
| "truthy JNull = False"
| "truthy (JBool b) = b"
| "truthy (JNum r) = (r \<noteq> 0)"
| "truthy JNaN = False"
| "truthy (JInf _) = True"
| "truthy (JStr s) = (s \<noteq> [])"
| "truthy (JDate _) = True"
| "truthy (JArr _) = True"
| "truthy (JObj _) = True"

text \<open>
  What a handler can catch: a TypeError from calling a string method on a value that has
  none or from reading a property of \<open>null\<close> (it carries its message), the ValidationError of a document
  refused by its schema (it carries the model's name and, for each refused path, the
  message), the duplicate-key error of a unique index (code 11000; it carries the indexed
  field), the CastError of a value that a filter cannot cast to the type of its path (it
  carries its message), and any other error reported by the database server.
\<close>

datatype js_error =
    TypeError string
  | ValidationError string "(string \<times> string) list"
  | DuplicateKey string
  | CastError string
  | MongoServerError string

subsection \<open>Strings\<close>

definition is_ws :: "char \<Rightarrow> bool" where
  "is_ws c = (c \<in> set [CHR 0x09, CHR 0x0A, CHR 0x0B, CHR 0x0C, CHR 0x0D, CHR 0x20])"

definition is_digit :: "char \<Rightarrow> bool" where
  "is_digit c = (c \<in> set ''0123456789'')"

text \<open>\<open>String.prototype.trim\<close>.\<close>

definition trim :: "string \<Rightarrow> string" where
  "trim s = rev (dropWhile is_ws (rev (dropWhile is_ws s)))"

text \<open>\<open>s.replace(/\s+/g, ' ')\<close>: every maximal run of white space becomes one blank.\<close>

text \<open>The flag says whether the previous character belonged to a run already replaced.\<close>

fun collapse_from :: "bool \<Rightarrow> string \<Rightarrow> string" where
  "collapse_from prev [] = []"
| "collapse_from prev (c # cs) =
     (if is_ws c then (if prev then collapse_from True cs else CHR 0x20 # collapse_from True cs)
      else c # collapse_from False cs)"

definition collapse_ws :: "string \<Rightarrow> string" where
  "collapse_ws s = collapse_from False s"

text \<open>\<open>s.replace(/\D/g, '')\<close>.\<close>

definition strip_non_digits :: "string \<Rightarrow> string" where
  "strip_non_digits s = filter is_digit s"

definition upper_char :: "char \<Rightarrow> char" where
  "upper_char c =
     (case map_of (zip ''abcdefghijklmnopqrstuvwxyz'' ''ABCDEFGHIJKLMNOPQRSTUVWXYZ'') c of
        None \<Rightarrow> c | Some u \<Rightarrow> u)"

definition toUpperCase :: "string \<Rightarrow> string" where
  "toUpperCase s = map upper_char s"

text \<open>\<open>Array.prototype.join\<close> on an array of strings.\<close>

fun join :: "string \<Rightarrow> string list \<Rightarrow> string" where
  "join sep [] = []"
| "join sep [x] = x"
| "join sep (x # y # ys) = x @ sep @ join sep (y # ys)"

text \<open>\<open>error.message\<close>\<close>

fun error_message :: "js_error \<Rightarrow> string" where
  "error_message (TypeError msg) = msg"
| "error_message (ValidationError model errs) =
     model @ '' validation failed: '' @ join '', '' (map (\<lambda>(path, msg). path @ '': '' @ msg) errs)"
| "error_message (DuplicateKey field) = ''E11000 duplicate key error, index: '' @ field"
| "error_message (CastError msg) = msg"
| "error_message (MongoServerError msg) = msg"

text \<open>
  A method call \<open>v.trim()\<close> on a value the guard in front of it found truthy: a string is
  trimmed, every other truthy value has no such method and the call throws a TypeError,
  with the message V8 gives it. The first argument is the source text of \<open>v\<close>.
\<close>

fun call_trim :: "string \<Rightarrow> jsval \<Rightarrow> js_error + string" where
  "call_trim what (JStr s) = Inr (trim s)"
| "call_trim what _ = Inl (TypeError (what @ ''.trim is not a function''))"

fun call_toUpperCase :: "string \<Rightarrow> jsval \<Rightarrow> js_error + string" where
  "call_toUpperCase what (JStr s) = Inr (toUpperCase s)"
| "call_toUpperCase what _ = Inl (TypeError (what @ ''.toUpperCase is not a function''))"

subsection \<open>Numbers\<close>

definition digit_val :: "char \<Rightarrow> nat" where
  "digit_val c =
     (case map_of (zip ''0123456789abcdefABCDEF''
                       [0, 1, 2, 3, 4, 5, 6, 7, 8, 9, 10, 11, 12, 13, 14, 15, 10, 11, 12, 13, 14, 15]) c of
        None \<Rightarrow> 16 | Some n \<Rightarrow> n)"

definition radix_val :: "nat \<Rightarrow> string \<Rightarrow> nat" where
  "radix_val b s = foldl (\<lambda>a c. b * a + digit_val c) 0 s"

definition digits_val :: "string \<Rightarrow> nat" where
  "digits_val s = radix_val 10 s"

text \<open>An optional sign in front of a numeric literal: whether it is a minus, and the rest.\<close>

fun strip_sign :: "string \<Rightarrow> bool \<times> string" where
  "strip_sign [] = (False, [])"
| "strip_sign (c # cs) =
     (if c = CHR ''-'' then (True, cs) else if c = CHR ''+'' then (False, cs) else (False, c # cs))"

definition signed :: "bool \<Rightarrow> rat \<Rightarrow> rat" where
  "signed neg r = (if neg then - r else r)"

text \<open>\<open>parseInt(s, 10)\<close> on a string: leading white space, a sign, then decimal digits.\<close>

definition parseInt_str :: "string \<Rightarrow> jsval" where
  "parseInt_str s =
     (let (neg, u) = strip_sign (dropWhile is_ws s);
          ds = takeWhile is_digit u
      in if ds = [] then JNaN else JNum (signed neg (of_nat (digits_val ds))))"

fun lead_digit :: "nat \<Rightarrow> nat" where
  "lead_digit n = (if n < 10 then n else lead_digit (n div 10))"

declare lead_digit.simps [simp del]

fun ndigits :: "nat \<Rightarrow> nat" where
  "ndigits n = (if n < 10 then 1 else Suc (ndigits (n div 10)))"

declare ndigits.simps [simp del]

text \<open>
  \<open>parseInt(x, 10)\<close> on a number reads the integer in front of the number's string form.
  That form is plain decimal for magnitudes from \<open>1e-6\<close> up to, not including, \<open>1e21\<close>, which
  gives the truncation; outside it is exponential, \<open>d.ddde+k\<close>, which gives the leading digit.
\<close>

definition parseInt_num :: "rat \<Rightarrow> jsval" where
  "parseInt_num r =
     (let a = \<bar>r\<bar> in
      if 10 ^ 21 \<le> a then JNum (signed (r < 0) (of_nat (lead_digit (nat \<lfloor>a\<rfloor>))))
      else if 0 < a \<and> a < 1 / 10 ^ 6
        then JNum (signed (r < 0)
               (of_nat (lead_digit (nat \<lfloor>a * 10 ^ ndigits (nat (snd (quotient_of a)))\<rfloor>))))
      else JNum (signed (r < 0) (of_int \<lfloor>a\<rfloor>)))"

text \<open>
  The longest prefix that is an unsigned decimal literal (digits, an optional fraction, an
  optional exponent), with its value and the text after it.
\<close>

definition parse_exponent :: "rat \<Rightarrow> string \<Rightarrow> rat \<times> string" where
  "parse_exponent m s =
     (case s of
        [] \<Rightarrow> (m, s)
      | c # cs \<Rightarrow>
          if c = CHR ''e'' \<or> c = CHR ''E'' then
            (let (neg, u) = strip_sign cs; ds = takeWhile is_digit u
             in if ds = [] then (m, s)
                else ((if neg then m / 10 ^ digits_val ds else m * 10 ^ digits_val ds),
                      dropWhile is_digit u))
          else (m, s))"

definition parse_udec :: "string \<Rightarrow> (rat \<times> string) option" where
  "parse_udec s =
     (let ip = takeWhile is_digit s; r1 = dropWhile is_digit s;
          (fp, r2) = (case r1 of
                        [] \<Rightarrow> ([], r1)
                      | c # cs \<Rightarrow> if c = CHR ''.'' then (takeWhile is_digit cs, dropWhile is_digit cs)
                                  else ([], r1))
      in if ip = [] \<and> fp = [] then None
         else Some (parse_exponent
                      (of_nat (digits_val ip) + of_nat (digits_val fp) / 10 ^ length fp) r2))"

definition parse_sdec :: "string \<Rightarrow> (jsval \<times> string) option" where
  "parse_sdec s =
     (let (neg, u) = strip_sign s in
      if take 8 u = ''Infinity'' then Some (JInf neg, drop 8 u)
      else (case parse_udec u of
              None \<Rightarrow> None
            | Some (v, rest) \<Rightarrow> Some (JNum (signed neg v), rest)))"

text \<open>ToNumber on a string: the whole trimmed string has to be a numeric literal.\<close>

definition radix_literal :: "nat \<Rightarrow> string \<Rightarrow> jsval" where
  "radix_literal b ds =
     (if ds \<noteq> [] \<and> (\<forall>c \<in> set ds. digit_val c < b) then JNum (of_nat (radix_val b ds)) else JNaN)"

definition str_to_number :: "string \<Rightarrow> jsval" where
  "str_to_number s =
     (let t = trim s in
      if t = [] then JNum 0
      else if take 2 t = ''0x'' \<or> take 2 t = ''0X'' then radix_literal 16 (drop 2 t)
      else if take 2 t = ''0o'' \<or> take 2 t = ''0O'' then radix_literal 8 (drop 2 t)
      else if take 2 t = ''0b'' \<or> take 2 t = ''0B'' then radix_literal 2 (drop 2 t)
      else (case parse_sdec t of
              None \<Rightarrow> JNaN
            | Some (v, rest) \<Rightarrow> if rest = [] then v else JNaN))"

subsection \<open>Number to string\<close>

definition digit_char :: "nat \<Rightarrow> char" where
  "digit_char n = ''0123456789'' ! (n mod 10)"

fun string_of_nat :: "nat \<Rightarrow> string" where
  "string_of_nat n =
     (if n < 10 then [digit_char n] else string_of_nat (n div 10) @ [digit_char (n mod 10)])"

declare string_of_nat.simps [simp del]

text \<open>The exponential form \<open>d.ddde+k\<close> of an integer from \<open>1e21\<close> on.\<close>

definition exp_form :: "nat \<Rightarrow> string" where
  "exp_form n =
     (let ds = string_of_nat n;
          sig = rev (dropWhile (\<lambda>c. c = CHR ''0'') (rev ds))
      in (case sig of
            [] \<Rightarrow> ds
          | d # rest \<Rightarrow> (d # (if rest = [] then [] else CHR ''.'' # rest))
                        @ ''e+'' @ string_of_nat (length ds - 1)))"

text \<open>
  The digits after the point of \<open>x\<close>, \<open>0 \<le> x < 1\<close>; at most as many as the first argument
  says (a 64-bit float prints no more than 17 significant digits).
\<close>

fun frac_digits :: "nat \<Rightarrow> rat \<Rightarrow> string" where
  "frac_digits 0 x = []"
| "frac_digits (Suc n) x =
     (if x = 0 then []
      else digit_char (nat \<lfloor>10 * x\<rfloor>) # frac_digits n (10 * x - of_int \<lfloor>10 * x\<rfloor>))"

text \<open>The least \<open>k\<close> with \<open>1 \<le> a * 10 ^ k\<close>, searched up to the bound in the first argument.\<close>

fun small_exp :: "nat \<Rightarrow> rat \<Rightarrow> nat" where
  "small_exp 0 a = 0"
| "small_exp (Suc n) a = (if 1 \<le> a then 0 else Suc (small_exp n (10 * a)))"

text \<open>
  Number to string, for a magnitude \<open>a\<close>: plain decimal from \<open>1e-6\<close> up to, not including,
  \<open>1e21\<close>, exponential outside.
\<close>

definition magnitude_to_string :: "rat \<Rightarrow> string" where
  "magnitude_to_string a =
     (if of_int \<lfloor>a\<rfloor> = a then
        (if a < 10 ^ 21 then string_of_nat (nat \<lfloor>a\<rfloor>) else exp_form (nat \<lfloor>a\<rfloor>))
      else if 10 ^ 21 \<le> a then exp_form (nat \<lfloor>a\<rfloor>)
      else if 1 / 10 ^ 6 \<le> a then
        string_of_nat (nat \<lfloor>a\<rfloor>) @ ''.'' @ frac_digits 17 (a - of_int \<lfloor>a\<rfloor>)
      else
        (let k = small_exp 400 a; m = a * 10 ^ k; fd = frac_digits 17 (m - of_int \<lfloor>m\<rfloor>)
         in string_of_nat (nat \<lfloor>m\<rfloor>) @ (if fd = [] then [] else ''.'' @ fd)
            @ ''e-'' @ string_of_nat k))"

definition num_to_string :: "rat \<Rightarrow> string" where
  "num_to_string r =
     (if r < 0 then CHR ''-'' # magnitude_to_string \<bar>r\<bar> else magnitude_to_string \<bar>r\<bar>)"

text \<open>
  ToString, as a template literal \<open>${v}\<close> and the conversions of non-primitive values
  apply it. An array prints its elements separated by commas, \<open>null\<close> and \<open>undefined\<close>
  as nothing. The text of a Date object depends on the time zone and is not modelled: no
  handler below converts a Date object to a string.
\<close>

fun js_to_string :: "jsval \<Rightarrow> string" where
  "js_to_string JUndefined = ''undefined''"
| "js_to_string JNull = ''null''"
| "js_to_string (JBool b) = (if b then ''true'' else ''false'')"
| "js_to_string (JNum r) = num_to_string r"
| "js_to_string JNaN = ''NaN''"
| "js_to_string (JInf neg) = (if neg then ''-Infinity'' else ''Infinity'')"
| "js_to_string (JStr s) = s"
| "js_to_string (JDate t) = []"
| "js_to_string (JArr xs) =
     join '','' (map (\<lambda>x. if x = JUndefined \<or> x = JNull then [] else js_to_string x) xs)"
| "js_to_string (JObj ob) = ''[object Object]''"

subsection \<open>Conversions to numbers\<close>

text \<open>
  \<open>parseInt(v, 10)\<close>, \<open>parseFloat(v)\<close> and ToNumber. The first two work on the string form
  of their argument: for a number that is the cases of \<open>parseInt_num\<close>, and for
  \<open>parseFloat\<close> the number itself.
\<close>

fun parseInt :: "jsval \<Rightarrow> jsval" where
  "parseInt (JNum r) = parseInt_num r"
| "parseInt (JStr s) = parseInt_str s"
| "parseInt (JArr xs) = parseInt_str (js_to_string (JArr xs))"
| "parseInt _ = JNaN"

definition parseFloat_str :: "string \<Rightarrow> jsval" where
  "parseFloat_str s =
     (case parse_sdec (dropWhile is_ws s) of None \<Rightarrow> JNaN | Some (v, _) \<Rightarrow> v)"

fun parseFloat :: "jsval \<Rightarrow> jsval" where
  "parseFloat (JNum r) = JNum r"
| "parseFloat (JInf neg) = JInf neg"
| "parseFloat (JStr s) = parseFloat_str s"
| "parseFloat (JArr xs) = parseFloat_str (js_to_string (JArr xs))"
| "parseFloat _ = JNaN"

fun to_number :: "jsval \<Rightarrow> jsval" where
  "to_number JUndefined = JNaN"
| "to_number JNull = JNum 0"
| "to_number (JBool b) = JNum (if b then 1 else 0)"
| "to_number (JNum r) = JNum r"
| "to_number JNaN = JNaN"
| "to_number (JInf neg) = JInf neg"
| "to_number (JStr s) = str_to_number s"
| "to_number (JDate t) = (case t of None \<Rightarrow> JNaN | Some n \<Rightarrow> JNum (of_int n))"
| "to_number (JArr xs) = str_to_number (js_to_string (JArr xs))"
| "to_number (JObj ob) = str_to_number ''[object Object]''"

text \<open>The global \<open>isNaN\<close>.\<close>

definition isNaN :: "jsval \<Rightarrow> bool" where
  "isNaN v = (to_number v = JNaN)"

text \<open>The comparison \<open>v < 0\<close>.\<close>

definition lt_zero :: "jsval \<Rightarrow> bool" where
  "lt_zero v = (case to_number v of JNum r \<Rightarrow> r < 0 | JInf neg \<Rightarrow> neg | _ \<Rightarrow> False)"

subsection \<open>Dates and the environment of a request\<close>

text \<open>
  \<open>Date.parse\<close> is implementation-defined outside the ISO format, so it is a parameter,
  as are the clock read by \<open>new Date()\<close> (one reading for a request) and \<open>toISOString\<close>.
  Two more parameters belong to the object mapper: \<open>castObjectId\<close> gives the storage
  identifier a string denotes, as it is stored, or nothing when the string denotes none
  (24 hexadecimal digits always do; what else does depends on the driver);
  \<open>castErrorMessage\<close> gives the message of the CastError for a type, a value, a path and a
  model.
\<close>

record env =
  date_parse :: "string \<Rightarrow> int option"
  now :: int
  toISOString :: "int \<Rightarrow> string"
  castObjectId :: "string \<Rightarrow> string option"
  castErrorMessage :: "string \<Rightarrow> jsval \<Rightarrow> string \<Rightarrow> string \<Rightarrow> string"

definition time_clip :: "jsval \<Rightarrow> int option" where
  "time_clip v =
     (case v of
        JNum r \<Rightarrow> if \<bar>r\<bar> \<le> 8640000000000000
                  then Some (if r < 0 then - \<lfloor>- r\<rfloor> else \<lfloor>r\<rfloor>) else None
      | _ \<Rightarrow> None)"

text \<open>The time value of \<open>new Date(v)\<close>; \<open>None\<close> is the Invalid Date, whose \<open>getTime()\<close> is NaN.\<close>

fun new_date :: "env \<Rightarrow> jsval \<Rightarrow> int option" where
  "new_date e (JStr s) = date_parse e s"
| "new_date e (JDate t) = t"
| "new_date e (JArr xs) = date_parse e (js_to_string (JArr xs))"
| "new_date e (JObj ob) = date_parse e ''[object Object]''"
| "new_date e v = time_clip (to_number v)"

text \<open>\<open>end <= start\<close> on two Date objects: false as soon as one of them is invalid.\<close>

fun date_le :: "int option \<Rightarrow> int option \<Rightarrow> bool" where
  "date_le (Some a) (Some b) = (a \<le> b)"
| "date_le _ _ = False"

section \<open>Validation rules\<close>

text \<open>
  A validator pushes messages onto \<open>errors\<close> rule after rule. A rule is a function from
  the messages so far to the messages after it, or to the exception it throws.
\<close>

type_synonym rule = "string list \<Rightarrow> js_error + string list"

text \<open>\<open>if (b) errors.push(msg)\<close>\<close>

definition rule_if :: "bool \<Rightarrow> string \<Rightarrow> rule" where
  "rule_if b msg errors = Inr (if b then errors @ [msg] else errors)"

text \<open>\<open>if (v && p(v.trim())) errors.push(msg)\<close>\<close>

definition rule_trim :: "string \<Rightarrow> jsval \<Rightarrow> (string \<Rightarrow> bool) \<Rightarrow> string \<Rightarrow> rule" where
  "rule_trim what v p msg errors =
     (if truthy v then
        (case call_trim what v of
           Inl ex \<Rightarrow> Inl ex
         | Inr t \<Rightarrow> Inr (if p t then errors @ [msg] else errors))
      else Inr errors)"

fun run_rules :: "rule list \<Rightarrow> string list \<Rightarrow> js_error + string list" where
  "run_rules [] errors = Inr errors"
| "run_rules (r # rs) errors =
     (case r errors of Inl ex \<Rightarrow> Inl ex | Inr errors' \<Rightarrow> run_rules rs errors')"

text \<open>\<open>list.includes(v)\<close> on a list of string constants.\<close>

definition js_includes :: "string list \<Rightarrow> jsval \<Rightarrow> bool" where
  "js_includes xs v = (v \<in> set (map JStr xs))"

subsection \<open>Employees\<close>

definition employeeStatuses :: "string list" where
  "employeeStatuses = [''ACTIVE'', ''INACTIVE'', ''SUSPENDED'']"

definition validateEmployeeInput :: "obj \<Rightarrow> js_error + string list" where
  "validateEmployeeInput data =
     (let id = get data ''id''; companyId = get data ''companyId'';
          userId = get data ''userId''; fullName = get data ''fullName'';
          employeeCode = get data ''employeeCode''; status = get data ''status''
      in run_rules
          [rule_if (\<not> truthy id) ''Employee ID is required'',
           rule_if (\<not> truthy companyId) ''Company ID is required'',
           rule_if (\<not> truthy fullName) ''Full name is required'',
           rule_if (\<not> truthy employeeCode) ''Employee code is required'',
           rule_if (truthy id \<and> isNaN id) ''Employee ID must be a number'',
           rule_if (truthy companyId \<and> isNaN companyId) ''Company ID must be a number'',
           rule_if (truthy userId \<and> isNaN userId) ''User ID must be a number'',
           rule_trim ''fullName'' fullName (\<lambda>t. length t = 0) ''Full name cannot be empty'',
           rule_trim ''fullName'' fullName (\<lambda>t. length t > 100)
             ''Full name must be less than 100 characters'',
           rule_trim ''employeeCode'' employeeCode (\<lambda>t. length t > 20)
             ''Employee code must be less than 20 characters'',
           rule_if (truthy status \<and> \<not> js_includes employeeStatuses status)
             (''Status must be one of: '' @ join '', '' employeeStatuses)]
          [])"

section \<open>Normalization\<close>

text \<open>
  A normalizer copies the payload and rewrites it statement after statement. Its
  statements have two shapes: \<open>if (n.k) n.k = f(n.k)\<close>, where \<open>f\<close> may throw, and
  \<open>if (!n.k) n.k = v\<close>.
\<close>

datatype stmt =
    Rewrite string "jsval \<Rightarrow> js_error + jsval"
  | Default string jsval

fun exec :: "stmt \<Rightarrow> obj \<Rightarrow> js_error + obj" where
  "exec (Rewrite k f) n =
     (if truthy (get n k) then
        (case f (get n k) of Inl ex \<Rightarrow> Inl ex | Inr v \<Rightarrow> Inr (put k v n))
      else Inr n)"
| "exec (Default k v) n = Inr (if \<not> truthy (get n k) then put k v n else n)"

fun run :: "stmt list \<Rightarrow> obj \<Rightarrow> js_error + obj" where
  "run [] n = Inr n"
| "run (st # sts) n = (case exec st n of Inl ex \<Rightarrow> Inl ex | Inr n' \<Rightarrow> run sts n')"

fun stmt_key :: "stmt \<Rightarrow> string" where
  "stmt_key (Rewrite k f) = k"
| "stmt_key (Default k v) = k"

text \<open>\<open>if (n.k) n.k = parseInt(n.k, 10)\<close>\<close>

definition step_parseInt :: "string \<Rightarrow> stmt" where
  "step_parseInt k = Rewrite k (\<lambda>x. Inr (parseInt x))"

text \<open>\<open>if (n.k) n.k = f(n.k.trim())\<close>, for the string function \<open>f\<close> applied after the trim.\<close>

definition trimmed :: "string \<Rightarrow> (string \<Rightarrow> string) \<Rightarrow> jsval \<Rightarrow> js_error + jsval" where
  "trimmed k f x =
     (case call_trim (''normalized.'' @ k) x of Inl ex \<Rightarrow> Inl ex | Inr t \<Rightarrow> Inr (JStr (f t)))"

definition step_trim :: "string \<Rightarrow> (string \<Rightarrow> string) \<Rightarrow> stmt" where
  "step_trim k f = Rewrite k (trimmed k f)"

text \<open>\<open>if (n.k) n.k = n.k.toUpperCase()\<close>\<close>

definition uppered :: "string \<Rightarrow> jsval \<Rightarrow> js_error + jsval" where
  "uppered k x =
     (case call_toUpperCase (''normalized.'' @ k) x of Inl ex \<Rightarrow> Inl ex | Inr t \<Rightarrow> Inr (JStr t))"

definition step_upper :: "string \<Rightarrow> stmt" where
  "step_upper k = Rewrite k (uppered k)"

subsection \<open>Employees\<close>

text \<open>A supplied \<open>createdAt\<close> is parsed; one that does not parse becomes the current time.\<close>

definition date_or_now :: "env \<Rightarrow> jsval \<Rightarrow> jsval" where
  "date_or_now e x =
     (case new_date e x of None \<Rightarrow> JDate (Some (now e)) | Some t \<Rightarrow> JDate (Some t))"

definition normalizeEmployeeData :: "env \<Rightarrow> obj \<Rightarrow> js_error + obj" where
  "normalizeEmployeeData e data =
     run
       [step_parseInt ''id'',
        step_parseInt ''companyId'',
        step_parseInt ''userId'',
        step_trim ''fullName'' collapse_ws,
        step_trim ''employeeCode'' (\<lambda>t. t),
        step_trim ''phone'' strip_non_digits,
        step_trim ''jobTitle'' (\<lambda>t. t),
        step_trim ''photoUrl'' (\<lambda>t. t),
        step_upper ''status'',
        Rewrite ''createdAt'' (\<lambda>x. Inr (date_or_now e x))]
       data"

section \<open>Storage\<close>

text \<open>
  The database is one list of documents for each collection. A query is a predicate on
  documents; \<open>findOne\<close> gives the first match. Storage operations are functions of the
  collections: a failing connection is not modelled.
\<close>

record db =
  companies :: "obj list"
  users :: "obj list"
  employees :: "obj list"
  projects :: "obj list"
  tasks :: "obj list"
  materials :: "obj list"

definition findOne :: "(obj \<Rightarrow> bool) \<Rightarrow> obj list \<Rightarrow> obj option" where
  "findOne q docs = List.find q docs"

text \<open>The filters \<open>{k: v}\<close> and \<open>{k: {$ne: v}}\<close>.\<close>

definition field_eq :: "string \<Rightarrow> jsval \<Rightarrow> obj \<Rightarrow> bool" where
  "field_eq k v d = (get d k = v)"

definition field_ne :: "string \<Rightarrow> jsval \<Rightarrow> obj \<Rightarrow> bool" where
  "field_ne k v d = (get d k \<noteq> v)"

text \<open>
  A value given for a path of type Number in a filter is cast before the query is sent:
  \<open>null\<close> and \<open>undefined\<close> stay, the empty string becomes \<open>null\<close>, strings and booleans
  are converted, and NaN (also as the result of a conversion) is refused with a CastError.
  The time value of a Date is its number. An array or an object in a filter is a query of
  its own and is not cast here: the controllers pass the results of \<open>parseInt\<close>.
\<close>

fun cast_number :: "jsval \<Rightarrow> jsval option" where
  "cast_number JUndefined = Some JUndefined"
| "cast_number JNull = Some JNull"
| "cast_number (JStr s) =
     (if s = [] then Some JNull
      else (case str_to_number s of JNaN \<Rightarrow> None | n \<Rightarrow> Some n))"
| "cast_number (JBool b) = Some (JNum (if b then 1 else 0))"
| "cast_number (JNum r) = Some (JNum r)"
| "cast_number JNaN = None"
| "cast_number (JInf b) = Some (JInf b)"
| "cast_number (JDate t) = (case t of None \<Rightarrow> None | Some ms \<Rightarrow> Some (JNum (of_int ms)))"
| "cast_number v = None"

text \<open>The filter \<open>{k: v}\<close> on a path that holds numbers: \<open>null\<close> also matches a missing field.\<close>

definition number_eq :: "string \<Rightarrow> jsval \<Rightarrow> obj \<Rightarrow> bool" where
  "number_eq k v d =
     (if v = JNull \<or> v = JUndefined then get d k = JNull \<or> get d k = JUndefined
      else get d k = v)"

record response =
  status :: nat
  body :: obj

record check_result =
  isValid :: bool
  errors :: "string list"

definition make_check :: "string list \<Rightarrow> check_result" where
  "make_check errs = \<lparr>isValid = (length errs = 0), errors = errs\<rparr>"

text \<open>\<open>a || b\<close>\<close>

definition js_or :: "jsval \<Rightarrow> jsval \<Rightarrow> jsval" where
  "js_or a b = (if truthy a then a else b)"

text \<open>A parameter declared \<open>p = null\<close>: the default stands in for \<open>undefined\<close> only.\<close>

definition default_null :: "jsval \<Rightarrow> jsval" where
  "default_null v = (if v = JUndefined then JNull else v)"

section \<open>The employee controller\<close>

definition validateReferentialIntegrity :: "db \<Rightarrow> jsval \<Rightarrow> jsval \<Rightarrow> check_result" where
  "validateReferentialIntegrity d companyId userId0 =
     (let userId = default_null userId0;
          companyExists = (findOne (field_eq ''id'' companyId) (companies d) \<noteq> None);
          userExists = (if truthy userId
                        then findOne (field_eq ''id'' userId) (users d) \<noteq> None else True)
      in make_check
           ((if \<not> companyExists
             then [''Company with ID '' @ js_to_string companyId @ '' does not exist''] else [])
            @ (if truthy userId \<and> \<not> userExists
               then [''User with ID '' @ js_to_string userId @ '' does not exist''] else [])))"

text \<open>
  With an id to exclude, the filter on the id is replaced by \<open>{$ne: excludeEmployeeId}\<close>,
  in the query for the id as in the query for the code.
\<close>

definition checkEmployeeUniqueness ::
  "db \<Rightarrow> jsval \<Rightarrow> jsval \<Rightarrow> jsval \<Rightarrow> js_error + check_result" where
  "checkEmployeeUniqueness d employeeId employeeCode0 excludeEmployeeId0 =
     (let employeeCode = default_null employeeCode0;
          excludeEmployeeId = default_null excludeEmployeeId0;
          idQuery = (if truthy excludeEmployeeId then field_ne ''id'' excludeEmployeeId
                     else field_eq ''id'' employeeId);
          existingById = findOne idQuery (employees d)
      in (case (if truthy employeeCode then
                  (case call_trim ''employeeCode'' employeeCode of
                     Inl ex \<Rightarrow> Inl ex
                   | Inr code \<Rightarrow>
                       Inr (findOne
                              (\<lambda>doc. field_eq ''employeeCode'' (JStr code) doc \<and>
                                 (truthy excludeEmployeeId \<longrightarrow> field_ne ''id'' excludeEmployeeId doc))
                              (employees d)))
                else Inr None) of
            Inl ex \<Rightarrow> Inl ex
          | Inr existingByCode \<Rightarrow>
              Inr (make_check
                     ((if existingById \<noteq> None
                       then [''Employee with ID '' @ js_to_string employeeId @ '' already exists'']
                       else [])
                      @ (if existingByCode \<noteq> None
                         then [''Employee with code '' @ [CHR 0x27] @ js_to_string employeeCode
                               @ [CHR 0x27] @ '' already exists'']
                         else [])))))"

definition getUserEmailById :: "db \<Rightarrow> jsval \<Rightarrow> jsval" where
  "getUserEmailById d userId =
     (if \<not> truthy userId then JNull
      else (case findOne (field_eq ''id'' userId) (users d) of
              None \<Rightarrow> JNull
            | Some user \<Rightarrow> get user ''email''))"

text \<open>Called with the default, empty \<open>emailMap\<close>, the looked-up email is always \<open>null\<close>.\<close>

definition transformEmployeeResponse :: "obj \<Rightarrow> obj" where
  "transformEmployeeResponse employee =
     [(''id'', get employee ''id''),
      (''companyId'', get employee ''companyId''),
      (''userId'', get employee ''userId''),
      (''employeeCode'', get employee ''employeeCode''),
      (''fullName'', get employee ''fullName''),
      (''phone'', get employee ''phone''),
      (''jobTitle'', get employee ''jobTitle''),
      (''status'', get employee ''status''),
      (''photoUrl'', get employee ''photoUrl''),
      (''email'', JNull),
      (''createdAt'', get employee ''createdAt''),
      (''updatedAt'', get employee ''updatedAt'')]"

definition timestamp :: "env \<Rightarrow> jsval" where
  "timestamp e = JStr (toISOString e (now e))"

text \<open>The failure envelope of the employee controller.\<close>

definition employee_failure :: "env \<Rightarrow> nat \<Rightarrow> string \<Rightarrow> response" where
  "employee_failure e code msg =
     \<lparr>status = code,
      body = [(''success'', JBool False), (''message'', JStr msg), (''timestamp'', timestamp e)]\<rparr>"

text \<open>The \<open>catch\<close> block of \<open>createEmployee\<close>.\<close>

fun createEmployee_catch :: "env \<Rightarrow> js_error \<Rightarrow> response" where
  "createEmployee_catch e (ValidationError model errs) =
     \<lparr>status = 400,
      body = [(''success'', JBool False), (''message'', JStr ''Data validation error''),
              (''errors'', JArr (map (\<lambda>(path, msg). JStr msg) errs)),
              (''timestamp'', timestamp e)]\<rparr>"
| "createEmployee_catch e (DuplicateKey field) =
     employee_failure e 409 (''Employee with this '' @ field @ '' already exists'')"
| "createEmployee_catch e ex =
     employee_failure e 500 (''Server error during employee creation: '' @ error_message ex)"

text \<open>
  Modelled from the spec: \<open>models/Employee.js\<close> is not among the sources, so its schema
  is unknown. \<open>save\<close> stores the document as it is given.
\<close>

definition save_employee :: "obj \<Rightarrow> db \<Rightarrow> db" where
  "save_employee doc d = d\<lparr>employees := employees d @ [doc]\<rparr>"

definition createEmployee :: "env \<Rightarrow> db \<Rightarrow> obj \<Rightarrow> response \<times> db" where
  "createEmployee e d req_body =
     (case validateEmployeeInput req_body of
        Inl ex \<Rightarrow> (createEmployee_catch e ex, d)
      | Inr validationErrors \<Rightarrow>
          if length validationErrors > 0
          then (employee_failure e 400 (join '', '' validationErrors), d)
          else
            (case normalizeEmployeeData e req_body of
               Inl ex \<Rightarrow> (createEmployee_catch e ex, d)
             | Inr normalizedData \<Rightarrow>
                 (let referentialCheck =
                        validateReferentialIntegrity d (get normalizedData ''companyId'')
                          (get normalizedData ''userId'')
                  in (case checkEmployeeUniqueness d (get normalizedData ''id'')
                             (get normalizedData ''employeeCode'') JUndefined of
                        Inl ex \<Rightarrow> (createEmployee_catch e ex, d)
                      | Inr uniquenessCheck \<Rightarrow>
                          if \<not> isValid referentialCheck
                          then (employee_failure e 400 (join '', '' (errors referentialCheck)), d)
                          else if \<not> isValid uniquenessCheck
                          then (employee_failure e 409 (join '', '' (errors uniquenessCheck)), d)
                          else
                            (let employeeData =
                                   [(''id'', get normalizedData ''id''),
                                    (''companyId'', get normalizedData ''companyId''),
                                    (''userId'', js_or (get normalizedData ''userId'') JNull),
                                    (''employeeCode'', get normalizedData ''employeeCode''),
                                    (''fullName'', get normalizedData ''fullName''),
                                    (''phone'', js_or (get normalizedData ''phone'') JNull),
                                    (''jobTitle'', js_or (get normalizedData ''jobTitle'') JNull),
                                    (''photoUrl'', js_or (get normalizedData ''photoUrl'') JNull),
                                    (''status'', js_or (get normalizedData ''status'') (JStr ''ACTIVE'')),
                                    (''createdAt'',
                                       js_or (get normalizedData ''createdAt'') (JDate (Some (now e))))];
                                 d' = save_employee employeeData d;
                                 userEmail = getUserEmailById d' (get employeeData ''userId'')
                             in (\<lparr>status = 201,
                                  body = [(''success'', JBool True),
                                          (''message'', JStr ''Employee created successfully''),
                                          (''data'',
                                             JObj (put ''email'' userEmail
                                                     (transformEmployeeResponse employeeData))),
                                          (''timestamp'', timestamp e)]\<rparr>,
                                 d'))))))"

text \<open>\<open>v <= 0\<close> and \<open>isNaN(id) || id <= 0\<close>, the test of a route parameter after \<open>parseInt\<close>.\<close>

definition le_zero :: "jsval \<Rightarrow> bool" where
  "le_zero v = (case to_number v of JNum r \<Rightarrow> r \<le> 0 | JInf neg \<Rightarrow> neg | _ \<Rightarrow> False)"

definition invalid_id :: "jsval \<Rightarrow> bool" where
  "invalid_id v = (isNaN v \<or> le_zero v)"

text \<open>
  Modelled from the spec: \<open>models/Employee.js\<close> and \<open>models/Task.js\<close>, the schemas
  behind \<open>findOneAndUpdate\<close> for employees and tasks, are not among the sources. The spec
  has a document updated "with server-managed timestamps (\<open>createdAt\<close> on insert,
  \<open>updatedAt\<close> on every write)": the update writes the fields of the update document on
  the first matching document, except \<open>createdAt\<close>, which stays as it was inserted; it
  writes \<open>updatedAt\<close>, the time of the write; and it leaves every other field as it is.
  The spec has the checks made before the write (validation, references, uniqueness) and
  gives the store none of its own, so none is modelled. With \<open>new: true\<close> the updated
  document is returned.
\<close>

definition written :: "int \<Rightarrow> obj \<Rightarrow> obj \<Rightarrow> obj" where
  "written t doc upd =
     put ''updatedAt'' (JDate (Some t)) (spread doc (AList.delete ''createdAt'' upd))"

fun update_first :: "int \<Rightarrow> (obj \<Rightarrow> bool) \<Rightarrow> obj \<Rightarrow> obj list \<Rightarrow> obj list" where
  "update_first t q upd [] = []"
| "update_first t q upd (doc # docs) =
     (if q doc then written t doc upd # docs else doc # update_first t q upd docs)"

definition findOneAndUpdate ::
  "int \<Rightarrow> (obj \<Rightarrow> bool) \<Rightarrow> obj \<Rightarrow> obj list \<Rightarrow> obj option \<times> obj list" where
  "findOneAndUpdate t q upd docs =
     (case findOne q docs of
        None \<Rightarrow> (None, docs)
      | Some doc \<Rightarrow> (Some (written t doc upd), update_first t q upd docs))"

text \<open>The \<open>catch\<close> block of \<open>updateEmployee\<close>.\<close>

fun updateEmployee_catch :: "env \<Rightarrow> js_error \<Rightarrow> response" where
  "updateEmployee_catch e (ValidationError model errs) =
     \<lparr>status = 400,
      body = [(''success'', JBool False),
              (''message'', JStr ''Data validation error during update''),
              (''errors'', JArr (map (\<lambda>(path, msg). JStr msg) errs)),
              (''timestamp'', timestamp e)]\<rparr>"
| "updateEmployee_catch e (DuplicateKey field) =
     employee_failure e 409 ''Employee with this employee code already exists''"
| "updateEmployee_catch e ex =
     employee_failure e 400 (''Update process failed: '' @ error_message ex)"

definition valid_check :: check_result where
  "valid_check = \<lparr>isValid = True, errors = []\<rparr>"

definition updateEmployee :: "env \<Rightarrow> db \<Rightarrow> string \<Rightarrow> obj \<Rightarrow> response \<times> db" where
  "updateEmployee e d params_id req_body =
     (let employeeId = parseInt (JStr params_id) in
      if invalid_id employeeId
      then (employee_failure e 400 ''Invalid employee ID. Must be a positive integer.'', d)
      else
        (case normalizeEmployeeData e req_body of
           Inl ex \<Rightarrow> (updateEmployee_catch e ex, d)
         | Inr updateData \<Rightarrow>
             (let existingEmployee = findOne (field_eq ''id'' employeeId) (employees d);
                  referentialCheck =
                    (if truthy (js_or (get updateData ''companyId'') (get updateData ''userId''))
                     then validateReferentialIntegrity d
                            (js_or (get updateData ''companyId'') employeeId)
                            (get updateData ''userId'')
                     else valid_check)
              in (case (if truthy (get updateData ''employeeCode'')
                        then checkEmployeeUniqueness d employeeId
                               (get updateData ''employeeCode'') employeeId
                        else Inr valid_check) of
                    Inl ex \<Rightarrow> (updateEmployee_catch e ex, d)
                  | Inr uniquenessCheck \<Rightarrow>
                      if existingEmployee = None
                      then (employee_failure e 404
                              (''Employee with ID '' @ js_to_string employeeId @ '' not found''), d)
                      else if \<not> isValid referentialCheck
                      then (employee_failure e 400 (join '', '' (errors referentialCheck)), d)
                      else if \<not> isValid uniquenessCheck
                      then (employee_failure e 409 (join '', '' (errors uniquenessCheck)), d)
                      else
                        (case findOneAndUpdate (now e) (field_eq ''id'' employeeId) updateData
                                (employees d) of
                           (None, docs) \<Rightarrow>
                             (updateEmployee_catch e
                                (TypeError (''Cannot read properties of null (reading ''
                                            @ [CHR 0x27] @ ''userId'' @ [CHR 0x27] @ '')'')), d)
                         | (Some employee, docs) \<Rightarrow>
                             (let d' = d\<lparr>employees := docs\<rparr>;
                                  userEmail = getUserEmailById d' (get employee ''userId'')
                              in (\<lparr>status = 200,
                                   body = [(''success'', JBool True),
                                           (''message'', JStr ''Employee updated successfully''),
                                           (''data'',
                                              JObj (put ''email'' userEmail
                                                      (transformEmployeeResponse employee))),
                                           (''timestamp'', timestamp e)]\<rparr>,
                                  d')))))))"

section \<open>The project controller\<close>

definition projectStatuses :: "string list" where
  "projectStatuses = [''PLANNING'', ''ACTIVE'', ''ON_HOLD'', ''COMPLETED'', ''CANCELLED'']"

text \<open>\<open>if (d) { const x = new Date(d); if (isNaN(x.getTime())) errors.push(msg) }\<close>\<close>

definition rule_valid_date :: "env \<Rightarrow> jsval \<Rightarrow> string \<Rightarrow> rule" where
  "rule_valid_date e v msg = rule_if (truthy v \<and> new_date e v = None) msg"

text \<open>The rule on the two dates together, the same in the project and the task validator.\<close>

definition rule_date_order :: "env \<Rightarrow> jsval \<Rightarrow> jsval \<Rightarrow> rule" where
  "rule_date_order e startDate endDate =
     rule_if (truthy startDate \<and> truthy endDate
              \<and> date_le (new_date e endDate) (new_date e startDate))
       ''End date must be after start date''"

definition validateProjectInput :: "env \<Rightarrow> obj \<Rightarrow> js_error + string list" where
  "validateProjectInput e data =
     (let name = get data ''name''; companyId = get data ''companyId'';
          code = get data ''code''; status = get data ''status'';
          budget = get data ''budget''; startDate = get data ''startDate'';
          endDate = get data ''endDate''
      in run_rules
          [rule_if (\<not> truthy name) ''Project name is required'',
           rule_if (\<not> truthy companyId) ''Company ID is required'',
           rule_if (truthy companyId \<and> isNaN companyId) ''Company ID must be a number'',
           rule_if (truthy budget \<and> isNaN budget) ''Budget must be a number'',
           rule_trim ''name'' name (\<lambda>t. length t = 0) ''Project name cannot be empty'',
           rule_trim ''name'' name (\<lambda>t. length t > 100)
             ''Project name must be less than 100 characters'',
           rule_trim ''code'' code (\<lambda>t. length t > 20)
             ''Project code must be less than 20 characters'',
           rule_valid_date e startDate ''Start date must be a valid date'',
           rule_valid_date e endDate ''End date must be a valid date'',
           rule_date_order e startDate endDate,
           rule_if (truthy budget \<and> lt_zero budget) ''Budget cannot be negative'',
           rule_if (truthy status \<and> \<not> js_includes projectStatuses status)
             (''Status must be one of: '' @ join '', '' projectStatuses)]
          [])"

text \<open>\<open>if (n.k) n.k = parseFloat(n.k)\<close>\<close>

definition step_parseFloat :: "string \<Rightarrow> stmt" where
  "step_parseFloat k = Rewrite k (\<lambda>x. Inr (parseFloat x))"

text \<open>A supplied date is parsed; one that does not parse becomes \<open>null\<close>.\<close>

definition date_or_null :: "env \<Rightarrow> jsval \<Rightarrow> jsval" where
  "date_or_null e x = (case new_date e x of None \<Rightarrow> JNull | Some t \<Rightarrow> JDate (Some t))"

definition step_date_or_null :: "env \<Rightarrow> string \<Rightarrow> stmt" where
  "step_date_or_null e k = Rewrite k (\<lambda>x. Inr (date_or_null e x))"

definition normalizeProjectData :: "env \<Rightarrow> obj \<Rightarrow> js_error + obj" where
  "normalizeProjectData e data =
     run
       [step_parseInt ''companyId'',
        step_parseFloat ''budget'',
        step_trim ''name'' collapse_ws,
        step_trim ''code'' toUpperCase,
        step_trim ''description'' (\<lambda>t. t),
        step_trim ''location'' (\<lambda>t. t),
        step_date_or_null e ''startDate'',
        step_date_or_null e ''endDate'',
        Default ''status'' (JStr ''PLANNING''),
        Default ''budget'' (JNum 0)]
       data"

definition validateCompanyExistence :: "db \<Rightarrow> jsval \<Rightarrow> bool" where
  "validateCompanyExistence d companyId =
     (findOne (field_eq ''id'' companyId) (companies d) \<noteq> None)"

definition checkProjectCodeUniqueness :: "db \<Rightarrow> jsval \<Rightarrow> jsval \<Rightarrow> js_error + bool" where
  "checkProjectCodeUniqueness d code excludeProjectId0 =
     (let excludeProjectId = default_null excludeProjectId0 in
      case call_trim ''code'' code of
        Inl ex \<Rightarrow> Inl ex
      | Inr t \<Rightarrow>
          Inr (findOne
                 (\<lambda>doc. field_eq ''code'' (JStr (toUpperCase t)) doc \<and>
                    (truthy excludeProjectId \<longrightarrow> field_ne ''id'' excludeProjectId doc))
                 (projects d) = None))"

text \<open>
  \<open>findOne().sort({id: -1})\<close>: the document with the greatest id. Ids are compared as
  numbers; a document whose id is not a number sorts below every number.
\<close>

definition id_key :: "obj \<Rightarrow> rat option" where
  "id_key doc = (case get doc ''id'' of JNum r \<Rightarrow> Some r | _ \<Rightarrow> None)"

fun key_less :: "rat option \<Rightarrow> rat option \<Rightarrow> bool" where
  "key_less None (Some b) = True"
| "key_less (Some a) (Some b) = (a < b)"
| "key_less _ None = False"

fun last_by_id :: "obj list \<Rightarrow> obj option" where
  "last_by_id [] = None"
| "last_by_id (doc # docs) =
     (case last_by_id docs of
        None \<Rightarrow> Some doc
      | Some m \<Rightarrow> if key_less (id_key doc) (id_key m) then Some m else Some doc)"

text \<open>\<open>v + 1\<close>: addition on numbers, concatenation as soon as \<open>v\<close> converts to a string.\<close>

fun plus_one :: "jsval \<Rightarrow> jsval" where
  "plus_one (JNum r) = JNum (r + 1)"
| "plus_one (JStr s) = JStr (s @ ''1'')"
| "plus_one (JArr xs) = JStr (js_to_string (JArr xs) @ ''1'')"
| "plus_one (JObj ob) = JStr (js_to_string (JObj ob) @ ''1'')"
| "plus_one (JDate t) = JStr (js_to_string (JDate t) @ ''1'')"
| "plus_one v = (case to_number v of JNum r \<Rightarrow> JNum (r + 1) | w \<Rightarrow> w)"

definition generateNextProjectId :: "db \<Rightarrow> jsval" where
  "generateNextProjectId d =
     (case last_by_id (projects d) of
        None \<Rightarrow> JNum 1
      | Some lastProject \<Rightarrow> plus_one (get lastProject ''id''))"

text \<open>Arithmetic on time values; \<open>None\<close> is NaN.\<close>

fun time_diff :: "int option \<Rightarrow> int option \<Rightarrow> int option" where
  "time_diff (Some a) (Some b) = Some (a - b)"
| "time_diff _ _ = None"

fun positive :: "int option \<Rightarrow> bool" where
  "positive (Some a) = (a > 0)"
| "positive None = False"

text \<open>\<open>Math.min(Math.round((elapsedDuration / totalDuration) * 100), 100)\<close>\<close>

fun progress_of :: "int option \<Rightarrow> int option \<Rightarrow> rat" where
  "progress_of (Some elapsedDuration) (Some totalDuration) =
     min (of_int \<lfloor>(of_int elapsedDuration / of_int totalDuration) * 100 + (1 / 2 :: rat)\<rfloor>) 100"
| "progress_of _ _ = 0"

text \<open>
  \<open>x / t < 0.2\<close>: a division by zero gives an infinity with the sign of \<open>x\<close>, or NaN for
  \<open>0 / 0\<close>, and a comparison with NaN is false.
\<close>

fun ratio_below_fifth :: "int option \<Rightarrow> int option \<Rightarrow> bool" where
  "ratio_below_fifth (Some x) (Some t) =
     (if t = 0 then x < 0 else (of_int x / of_int t :: rat) < 1 / 5)"
| "ratio_below_fifth _ _ = False"

definition generateProjectMetadata :: "env \<Rightarrow> obj \<Rightarrow> obj" where
  "generateProjectMetadata e projectData =
     (let currentDate = Some (now e);
          dated = (truthy (get projectData ''startDate'') \<and> truthy (get projectData ''endDate''));
          startDate = new_date e (get projectData ''startDate'');
          endDate = new_date e (get projectData ''endDate'');
          totalDuration = time_diff endDate startDate;
          elapsedDuration = time_diff currentDate startDate;
          progress = (if dated \<and> positive totalDuration \<and> positive elapsedDuration
                      then progress_of elapsedDuration totalDuration else 0);
          delayed = (dated \<and> positive (time_diff currentDate endDate) \<and> progress < 100);
          at_risk = (dated \<and> \<not> delayed
                     \<and> ratio_below_fifth (time_diff endDate currentDate) totalDuration
                     \<and> progress < 80);
          status = get projectData ''status''
      in [(''progress'', JNum progress),
          (''health'',
             JStr (if status = JStr ''ON_HOLD'' then ''ON_HOLD''
                   else if status = JStr ''CANCELLED'' then ''CANCELLED''
                   else if delayed then ''AT_RISK''
                   else if at_risk then ''NEEDS_ATTENTION''
                   else ''HEALTHY'')),
          (''timelineStatus'',
             JStr (if delayed then ''DELAYED'' else if at_risk then ''AT_RISK'' else ''ON_TRACK'')),
          (''financialStatus'', JStr ''WITHIN_BUDGET''),
          (''risks'',
             JArr (if delayed then [JStr ''Project timeline exceeded'']
                   else if at_risk then [JStr ''Approaching deadline with low progress'']
                   else []))])"

subsection \<open>The project schema\<close>

text \<open>
  \<open>models/Project.js\<close> declares \<open>id\<close>, \<open>companyId\<close>, \<open>name\<close>, \<open>status\<close> and \<open>createdBy\<close> as
  required, a minimum of 0 for \<open>budget\<close>, an enumeration with the default \<open>Planned\<close> for
  \<open>status\<close>, and a unique index on \<open>id\<close>. \<open>save\<close> validates the document against these
  declarations and rejects with a ValidationError when a path is refused. The casting of
  values to the declared types and the dropping of undeclared paths are not modelled.
\<close>

definition projectSchema_status_enum :: "string list" where
  "projectSchema_status_enum = [''Planned'', ''Ongoing'', ''Completed'', ''Warranty'', ''Cancelled'']"

definition missing :: "jsval \<Rightarrow> bool" where
  "missing v = (v = JUndefined \<or> v = JNull)"

definition required_error :: "obj \<Rightarrow> string \<Rightarrow> (string \<times> string) list" where
  "required_error doc path =
     (if missing (get doc path) \<or> get doc path = JStr []
      then [(path, ''Path `'' @ path @ ''` is required.'')] else [])"

definition projectSchema_errors :: "obj \<Rightarrow> (string \<times> string) list" where
  "projectSchema_errors doc =
     (let status = (if get doc ''status'' = JUndefined then JStr ''Planned'' else get doc ''status'')
      in required_error doc ''id''
         @ required_error doc ''companyId''
         @ required_error doc ''name''
         @ (case get doc ''budget'' of
              JNum r \<Rightarrow> if r < 0
                        then [(''budget'', ''Path `budget` ('' @ num_to_string r
                                 @ '') is less than minimum allowed value (0).'')]
                        else []
            | _ \<Rightarrow> [])
         @ (if missing status \<or> status = JStr []
            then [(''status'', ''Path `status` is required.'')]
            else if \<not> js_includes projectSchema_status_enum status
            then [(''status'', ''`'' @ js_to_string status
                     @ ''` is not a valid enum value for path `status`.'')]
            else [])
         @ required_error doc ''createdBy'')"

definition save_project :: "obj \<Rightarrow> db \<Rightarrow> js_error + (obj \<times> db)" where
  "save_project doc d =
     (if projectSchema_errors doc \<noteq> [] then Inl (ValidationError ''Project'' (projectSchema_errors doc))
      else if findOne (field_eq ''id'' (get doc ''id'')) (projects d) \<noteq> None
      then Inl (DuplicateKey ''id'')
      else Inr (doc, d\<lparr>projects := projects d @ [doc]\<rparr>))"

text \<open>The failure envelope of the project and task controllers.\<close>

definition failure :: "nat \<Rightarrow> string \<Rightarrow> response" where
  "failure code msg =
     \<lparr>status = code, body = [(''success'', JBool False), (''message'', JStr msg)]\<rparr>"

text \<open>The \<open>catch\<close> block of \<open>createProject\<close>.\<close>

fun createProject_catch :: "js_error \<Rightarrow> response" where
  "createProject_catch (DuplicateKey field) =
     failure 409 (''Project with this '' @ field @ '' already exists'')"
| "createProject_catch ex =
     failure 500 (''Server error during project creation: '' @ error_message ex)"

text \<open>
  The document prepared for \<open>save\<close>:
  \<open>{id: nextProjectId, ...normalizedData, metadata: projectMetadata, createdAt: new Date(),
  updatedAt: new Date()}\<close>. The spread comes after \<open>id\<close>.
\<close>

definition projectDocument :: "env \<Rightarrow> jsval \<Rightarrow> obj \<Rightarrow> obj \<Rightarrow> obj" where
  "projectDocument e nextProjectId normalizedData projectMetadata =
     put ''updatedAt'' (JDate (Some (now e)))
       (put ''createdAt'' (JDate (Some (now e)))
          (put ''metadata'' (JObj projectMetadata)
             (spread [(''id'', nextProjectId)] normalizedData)))"

definition createProject :: "env \<Rightarrow> db \<Rightarrow> obj \<Rightarrow> response \<times> db" where
  "createProject e d req_body =
     (case validateProjectInput e req_body of
        Inl ex \<Rightarrow> (createProject_catch ex, d)
      | Inr validationErrors \<Rightarrow>
          if length validationErrors > 0
          then (failure 400 (join '', '' validationErrors), d)
          else
            (case normalizeProjectData e req_body of
               Inl ex \<Rightarrow> (createProject_catch ex, d)
             | Inr normalizedData \<Rightarrow>
                 (let nextProjectId = generateNextProjectId d;
                      companyExists = validateCompanyExistence d (get normalizedData ''companyId'')
                  in (case (if truthy (get normalizedData ''code'')
                            then checkProjectCodeUniqueness d (get normalizedData ''code'') JUndefined
                            else Inr True) of
                        Inl ex \<Rightarrow> (createProject_catch ex, d)
                      | Inr isCodeUnique \<Rightarrow>
                          if \<not> companyExists
                          then (failure 400
                                  (''Company with ID '' @ js_to_string (get normalizedData ''companyId'')
                                   @ '' does not exist''), d)
                          else if \<not> isCodeUnique
                          then (failure 409
                                  (''Project code '' @ [CHR 0x27]
                                   @ js_to_string (get normalizedData ''code'') @ [CHR 0x27]
                                   @ '' already exists''), d)
                          else
                            (let projectMetadata = generateProjectMetadata e normalizedData;
                                 projectData =
                                   projectDocument e nextProjectId normalizedData projectMetadata
                             in (case save_project projectData d of
                                   Inl ex \<Rightarrow> (createProject_catch ex, d)
                                 | Inr (savedProject, d') \<Rightarrow>
                                     (\<lparr>status = 201,
                                       body = [(''success'', JBool True),
                                               (''message'', JStr ''Project created successfully''),
                                               (''data'', JObj savedProject),
                                               (''metadata'',
                                                  JObj [(''progress'', get projectMetadata ''progress''),
                                                        (''health'', get projectMetadata ''health''),
                                                        (''timelineStatus'',
                                                           get projectMetadata ''timelineStatus'')])]\<rparr>,
                                      d')))))))"

section \<open>The task controller\<close>

definition taskStatuses :: "string list" where
  "taskStatuses = [''PLANNED'', ''IN_PROGRESS'', ''COMPLETED'', ''CANCELLED'']"

definition taskTypes :: "string list" where
  "taskTypes = [''WORK'', ''TRANSPORT'', ''MATERIAL'', ''TOOL'', ''INSPECTION'',
                ''MAINTENANCE'', ''ADMIN'', ''TRAINING'', ''OTHER'']"

definition validateTaskInput :: "env \<Rightarrow> obj \<Rightarrow> js_error + string list" where
  "validateTaskInput e data =
     (let companyId = get data ''companyId''; projectId = get data ''projectId'';
          taskName = get data ''taskName''; taskType = get data ''taskType'';
          startDate = get data ''startDate''; endDate = get data ''endDate'';
          status = get data ''status''
      in run_rules
          [rule_if (\<not> truthy companyId) ''Company ID is required'',
           rule_if (\<not> truthy projectId) ''Project ID is required'',
           rule_if (\<not> truthy taskName) ''Task name is required'',
           rule_if (\<not> truthy taskType) ''Task type is required'',
           rule_if (truthy companyId \<and> isNaN companyId) ''Company ID must be a number'',
           rule_if (truthy projectId \<and> isNaN projectId) ''Project ID must be a number'',
           rule_valid_date e startDate ''Start date must be a valid date'',
           rule_valid_date e endDate ''End date must be a valid date'',
           rule_date_order e startDate endDate,
           rule_if (truthy status \<and> \<not> js_includes taskStatuses status)
             (''Status must be one of: '' @ join '', '' taskStatuses),
           rule_if (truthy taskType \<and> \<not> js_includes taskTypes taskType)
             (''Task type must be one of: '' @ join '', '' taskTypes)]
          [])"

text \<open>
  The local \<open>parseDate\<close>, applied to a truthy field: a Date object is kept as it is, any
  other value is parsed and becomes \<open>null\<close> when it does not parse.
\<close>

definition parseDate :: "env \<Rightarrow> jsval \<Rightarrow> jsval" where
  "parseDate e dateString =
     (if \<not> truthy dateString then JNull
      else (case dateString of
              JDate t \<Rightarrow> JDate t
            | _ \<Rightarrow> (case new_date e dateString of None \<Rightarrow> JNull | Some t \<Rightarrow> JDate (Some t))))"

definition step_parseDate :: "env \<Rightarrow> string \<Rightarrow> stmt" where
  "step_parseDate e k = Rewrite k (\<lambda>x. Inr (parseDate e x))"

definition normalizeTaskData :: "env \<Rightarrow> obj \<Rightarrow> js_error + obj" where
  "normalizeTaskData e data =
     run
       [step_parseInt ''companyId'',
        step_parseInt ''projectId'',
        step_parseInt ''createdBy'',
        step_trim ''taskName'' (\<lambda>t. t),
        step_trim ''description'' (\<lambda>t. t),
        step_trim ''notes'' (\<lambda>t. t),
        step_parseDate e ''startDate'',
        step_parseDate e ''endDate'',
        Default ''status'' (JStr ''PLANNED''),
        Default ''additionalData'' (JObj []),
        Default ''createdAt'' (JDate (Some (now e)))]
       data"

text \<open>
  The \<open>validateReferentialIntegrity\<close> of the task controller. The \<open>id\<close> of a project is
  a Number in \<open>models/Project.js\<close>, so the project's filter is cast: a \<open>projectId\<close> that
  is NaN makes the lookup throw a CastError. \<open>models/Company.js\<close> is not among the
  sources; the company is looked up by the value as it is.
\<close>

definition task_validateReferentialIntegrity ::
  "env \<Rightarrow> db \<Rightarrow> jsval \<Rightarrow> jsval \<Rightarrow> js_error + check_result" where
  "task_validateReferentialIntegrity e d companyId projectId =
     (case cast_number projectId of
        None \<Rightarrow> Inl (CastError (castErrorMessage e ''Number'' projectId ''id'' ''Project''))
      | Some projectNumber \<Rightarrow>
          (let company = findOne (field_eq ''id'' companyId) (companies d);
               project = findOne (number_eq ''id'' projectNumber) (projects d)
           in Inr (make_check
                ((if company = None
                  then [''Company with ID '' @ js_to_string companyId @ '' does not exist'']
                  else [])
                 @ (if project = None
                    then [''Project with ID '' @ js_to_string projectId @ '' does not exist'']
                    else [])))))"

text \<open>\<open>x ? x.name : fallback\<close> on the result of a lookup.\<close>

definition name_or :: "obj option \<Rightarrow> string \<Rightarrow> jsval" where
  "name_or found fallback = (case found of None \<Rightarrow> JStr fallback | Some doc \<Rightarrow> get doc ''name'')"

definition companyName_of :: "db \<Rightarrow> obj \<Rightarrow> jsval" where
  "companyName_of d task =
     name_or (findOne (field_eq ''id'' (get task ''companyId'')) (companies d)) ''Unknown Company''"

definition projectName_of :: "db \<Rightarrow> obj \<Rightarrow> jsval" where
  "projectName_of d task =
     name_or (findOne (field_eq ''id'' (get task ''projectId'')) (projects d)) ''Unknown Project''"

text \<open>\<open>{...taskObj, companyName: ..., projectName: ...}\<close>\<close>

definition with_details :: "db \<Rightarrow> obj \<Rightarrow> obj" where
  "with_details d task =
     put ''projectName'' (projectName_of d task) (put ''companyName'' (companyName_of d task) task)"

text \<open>The \<open>catch\<close> block of \<open>createTask\<close>.\<close>

fun createTask_catch :: "js_error \<Rightarrow> response" where
  "createTask_catch (ValidationError model errs) =
     \<lparr>status = 400,
      body = [(''success'', JBool False), (''message'', JStr ''Data validation error''),
              (''errors'', JArr (map (\<lambda>(path, msg). JStr msg) errs))]\<rparr>"
| "createTask_catch (DuplicateKey field) = failure 409 ''Task with this ID already exists''"
| "createTask_catch ex = failure 500 (''Error creating task: '' @ error_message ex)"

text \<open>
  Modelled from the spec: \<open>models/Task.js\<close> is not among the sources, so its schema is
  unknown. \<open>save\<close> stores the document as it is given.
\<close>

definition save_task :: "obj \<Rightarrow> db \<Rightarrow> db" where
  "save_task doc d = d\<lparr>tasks := tasks d @ [doc]\<rparr>"

text \<open>The id of a new task, when the payload brings none: read from the stored tasks.\<close>

definition nextTaskId :: "db \<Rightarrow> jsval" where
  "nextTaskId d =
     (case last_by_id (tasks d) of
        None \<Rightarrow> JNum 1
      | Some lastTask \<Rightarrow> plus_one (get lastTask ''id''))"

definition createTask :: "env \<Rightarrow> db \<Rightarrow> obj \<Rightarrow> response \<times> db" where
  "createTask e d req_body =
     (case validateTaskInput e req_body of
        Inl ex \<Rightarrow> (createTask_catch ex, d)
      | Inr validationErrors \<Rightarrow>
          if length validationErrors > 0
          then (failure 400 (join '', '' validationErrors), d)
          else
            (case normalizeTaskData e req_body of
               Inl ex \<Rightarrow> (createTask_catch ex, d)
             | Inr normalizedData0 \<Rightarrow>
                 (let normalizedData =
                        (if \<not> truthy (get normalizedData0 ''id'')
                         then put ''id'' (nextTaskId d) normalizedData0 else normalizedData0)
                  in case task_validateReferentialIntegrity e d (get normalizedData ''companyId'')
                            (get normalizedData ''projectId'') of
                       Inl ex \<Rightarrow> (createTask_catch ex, d)
                     | Inr referentialCheck \<Rightarrow>
                         if \<not> isValid referentialCheck
                         then (failure 400 (join '', '' (errors referentialCheck)), d)
                         else
                           (let taskData = put ''updatedAt'' (JDate (Some (now e))) normalizedData;
                                d' = save_task taskData d
                            in (\<lparr>status = 201,
                                 body = [(''success'', JBool True),
                                         (''message'', JStr ''Task created successfully''),
                                         (''data'', JObj (with_details d' taskData))]\<rparr>,
                                d')))))"

text \<open>\<open>id.match(/^[0-9]+$/)\<close>\<close>

definition all_digits :: "string \<Rightarrow> bool" where
  "all_digits s = (s \<noteq> [] \<and> list_all is_digit s)"

text \<open>
  The filter of an update by the route parameter: the numeric \<open>id\<close> when the parameter is
  all digits, the storage identifier \<open>_id\<close> otherwise. A parameter that denotes no storage
  identifier makes \<open>findByIdAndUpdate\<close> throw a CastError.
\<close>

definition task_filter :: "env \<Rightarrow> string \<Rightarrow> js_error + (obj \<Rightarrow> bool)" where
  "task_filter e params_id =
     (if all_digits params_id then Inr (field_eq ''id'' (parseInt (JStr params_id)))
      else (case castObjectId e params_id of
              None \<Rightarrow>
                Inl (CastError (castErrorMessage e ''ObjectId'' (JStr params_id) ''_id'' ''Task''))
            | Some oid \<Rightarrow> Inr (field_eq ''_id'' (JStr oid))))"

definition updateTask :: "env \<Rightarrow> db \<Rightarrow> string \<Rightarrow> obj \<Rightarrow> response \<times> db" where
  "updateTask e d params_id req_body =
     (case normalizeTaskData e req_body of
        Inl ex \<Rightarrow> (failure 500 (''Error updating task: '' @ error_message ex), d)
      | Inr updateData0 \<Rightarrow>
          (let updateData = put ''updatedAt'' (JDate (Some (now e))) updateData0 in
           case task_filter e params_id of
             Inl ex \<Rightarrow> (failure 500 (''Error updating task: '' @ error_message ex), d)
           | Inr query \<Rightarrow>
               (case findOneAndUpdate (now e) query updateData (tasks d) of
                  (None, docs) \<Rightarrow> (failure 404 ''Task not found'', d)
                | (Some updatedTask, docs) \<Rightarrow>
                    (let d' = d\<lparr>tasks := docs\<rparr> in
                     (\<lparr>status = 200,
                       body = [(''success'', JBool True),
                               (''message'', JStr ''Task updated successfully''),
                               (''data'',
                                  JObj (put ''companyName'' (companyName_of d' updatedTask)
                                          updatedTask))]\<rparr>,
                      d')))))"

subsection \<open>Listing tasks\<close>

text \<open>
  \<open>parseInt(v)\<close> without a radix: as with radix 10, except that a string whose digits start
  with \<open>0x\<close> is read as hexadecimal.
\<close>

definition is_hex_digit :: "char \<Rightarrow> bool" where
  "is_hex_digit c = (c \<in> set ''0123456789abcdefABCDEF'')"

definition parseInt_auto_str :: "string \<Rightarrow> jsval" where
  "parseInt_auto_str s =
     (let (neg, u) = strip_sign (dropWhile is_ws s) in
      if take 2 u = ''0x'' \<or> take 2 u = ''0X'' then
        (let ds = takeWhile is_hex_digit (drop 2 u)
         in if ds = [] then JNaN else JNum (signed neg (of_nat (radix_val 16 ds))))
      else parseInt_str s)"

fun parseInt_auto :: "jsval \<Rightarrow> jsval" where
  "parseInt_auto (JNum r) = parseInt_num r"
| "parseInt_auto (JStr s) = parseInt_auto_str s"
| "parseInt_auto (JArr xs) = parseInt_auto_str (js_to_string (JArr xs))"
| "parseInt_auto _ = JNaN"

definition num_of :: "jsval \<Rightarrow> rat" where
  "num_of v = (case v of JNum r \<Rightarrow> r | _ \<Rightarrow> 0)"

text \<open>
  \<open>{startDate: {$gte: new Date(a), $lte: new Date(b)}}\<close>: a stored Date within the two
  bounds. An invalid bound matches nothing.
\<close>

definition date_between :: "env \<Rightarrow> jsval \<Rightarrow> jsval \<Rightarrow> obj \<Rightarrow> bool" where
  "date_between e a b doc =
     (case get doc ''startDate'' of
        JDate t \<Rightarrow> date_le (new_date e a) t \<and> date_le t (new_date e b)
      | _ \<Rightarrow> False)"

text \<open>The filter built from the query string; upper-casing a parameter can throw.\<close>

definition upper_filter :: "string \<Rightarrow> jsval \<Rightarrow> js_error + (obj \<Rightarrow> bool)" where
  "upper_filter k v =
     (if truthy v then
        (case call_toUpperCase (''req.query.'' @ k) v of
           Inl ex \<Rightarrow> Inl ex
         | Inr u \<Rightarrow> Inr (field_eq k (JStr u)))
      else Inr (\<lambda>doc. True))"

definition tasks_query :: "env \<Rightarrow> obj \<Rightarrow> js_error + (obj \<Rightarrow> bool)" where
  "tasks_query e q =
     (case upper_filter ''status'' (get q ''status'') of
        Inl ex \<Rightarrow> Inl ex
      | Inr by_status \<Rightarrow>
          (case upper_filter ''taskType'' (get q ''taskType'') of
             Inl ex \<Rightarrow> Inl ex
           | Inr by_type \<Rightarrow>
               Inr (\<lambda>doc.
                  (truthy (get q ''companyId'')
                     \<longrightarrow> field_eq ''companyId'' (parseInt_auto (get q ''companyId'')) doc)
                  \<and> (truthy (get q ''projectId'')
                     \<longrightarrow> field_eq ''projectId'' (parseInt_auto (get q ''projectId'')) doc)
                  \<and> by_status doc \<and> by_type doc
                  \<and> (truthy (get q ''startDate'') \<and> truthy (get q ''endDate'')
                     \<longrightarrow> date_between e (get q ''startDate'') (get q ''endDate'') doc))))"

text \<open>
  \<open>sort({createdAt: -1, id: -1})\<close>: newest first, then greatest id first. Documents are
  compared on the time value of \<open>createdAt\<close> and on the numeric \<open>id\<close>, read as 0 where
  the field holds no such value.
\<close>

definition created_time :: "obj \<Rightarrow> int" where
  "created_time doc = (case get doc ''createdAt'' of JDate (Some t) \<Rightarrow> t | _ \<Rightarrow> 0)"

definition sort_tasks :: "obj list \<Rightarrow> obj list" where
  "sort_tasks docs =
     sort_key (\<lambda>doc. - created_time doc) (sort_key (\<lambda>doc. - num_of (get doc ''id'')) docs)"

text \<open>
  \<open>.skip(skip).limit(limit)\<close>: the server refuses a negative skip, and reads a negative
  limit as its magnitude.
\<close>

definition skip_limit :: "rat \<Rightarrow> rat \<Rightarrow> obj list \<Rightarrow> js_error + obj list" where
  "skip_limit skip limit docs =
     (if skip < 0 then Inl (MongoServerError ''Skip value must be non-negative'')
      else Inr (take (nat \<bar>\<lfloor>limit\<rfloor>\<bar>) (drop (nat \<lfloor>skip\<rfloor>) docs)))"

definition getAllTasks :: "env \<Rightarrow> db \<Rightarrow> obj \<Rightarrow> response" where
  "getAllTasks e d q =
     (let page = js_or (parseInt_auto (get q ''page'')) (JNum 1);
          limit = js_or (parseInt_auto (get q ''limit'')) (JNum 1000);
          skip = (num_of page - 1) * num_of limit
      in case tasks_query e q of
           Inl ex \<Rightarrow> failure 500 (''Error fetching tasks: '' @ error_message ex)
         | Inr query \<Rightarrow>
             (case skip_limit skip (num_of limit) (sort_tasks (filter query (tasks d))) of
                Inl ex \<Rightarrow> failure 500 (''Error fetching tasks: '' @ error_message ex)
              | Inr found \<Rightarrow>
                  (let tasksWithDetails = map (with_details d) found;
                       total = length (filter query (tasks d))
                   in \<lparr>status = 200,
                       body = [(''success'', JBool True),
                               (''data'', JArr (map JObj tasksWithDetails)),
                               (''pagination'',
                                  JObj [(''page'', page),
                                        (''limit'', limit),
                                        (''total'', JNum (of_nat total)),
                                        (''pages'',
                                           JNum (of_int \<lceil>of_nat total / num_of limit\<rceil>))])]\<rparr>)))"

section \<open>The materials controller and the application's last handlers\<close>

text \<open>
  Materials are read and deleted by their storage identifier \<open>_id\<close>. A route parameter
  that denotes no storage identifier makes \<open>findById\<close> and \<open>findByIdAndDelete\<close> throw a
  CastError, which the \<open>catch\<close> block answers. The handlers answer with the document
  itself, or with an object holding an \<open>error\<close> or a \<open>message\<close>.
\<close>

definition getMaterial :: "env \<Rightarrow> db \<Rightarrow> string \<Rightarrow> response" where
  "getMaterial e d params_id =
     (case castObjectId e params_id of
        None \<Rightarrow>
          \<lparr>status = 500,
           body = [(''error'',
                    JStr (castErrorMessage e ''ObjectId'' (JStr params_id) ''_id'' ''Material''))]\<rparr>
      | Some oid \<Rightarrow>
          (case findOne (field_eq ''_id'' (JStr oid)) (materials d) of
             None \<Rightarrow> \<lparr>status = 404, body = [(''error'', JStr ''Material not found'')]\<rparr>
           | Some material \<Rightarrow> \<lparr>status = 200, body = material\<rparr>))"

fun remove_first :: "(obj \<Rightarrow> bool) \<Rightarrow> obj list \<Rightarrow> obj list" where
  "remove_first q [] = []"
| "remove_first q (doc # docs) = (if q doc then docs else doc # remove_first q docs)"

definition deleteMaterial :: "env \<Rightarrow> db \<Rightarrow> string \<Rightarrow> response \<times> db" where
  "deleteMaterial e d params_id =
     (case castObjectId e params_id of
        None \<Rightarrow>
          (\<lparr>status = 500,
            body = [(''error'',
                     JStr (castErrorMessage e ''ObjectId'' (JStr params_id) ''_id'' ''Material''))]\<rparr>,
           d)
      | Some oid \<Rightarrow>
          (case findOne (field_eq ''_id'' (JStr oid)) (materials d) of
             None \<Rightarrow> (\<lparr>status = 404, body = [(''error'', JStr ''Material not found'')]\<rparr>, d)
           | Some material \<Rightarrow>
               (\<lparr>status = 200, body = [(''message'', JStr ''Material deleted'')]\<rparr>,
                d\<lparr>materials := remove_first (field_eq ''_id'' (JStr oid)) (materials d)\<rparr>)))"

text \<open>
  The handlers of \<open>index.js\<close>: the root route, the health check, the error-handling
  middleware and the handler of unmatched routes.
\<close>

definition rootHandler :: response where
  "rootHandler =
     \<lparr>status = 200,
      body = [(''message'', JStr ''ERP API is running!''),
              (''endpoints'',
                 JObj [(''users'', JStr ''/api/users''),
                       (''companies'', JStr ''/api/companies''),
                       (''employees'', JStr ''/api/employees''),
                       (''fleetVehicles'', JStr ''/api/fleet-vehicles''),
                       (''fleetTasks'', JStr ''/api/fleet-tasks''),
                       (''fleetTaskPassengers'', JStr ''/api/fleet-task-passengers''),
                       (''fleetAlerts'', JStr ''/api/fleet-alerts''),
                       (''drivers'', JStr ''/api/drivers''),
                       (''projects'', JStr ''/api/projects''),
                       (''tasks'', JStr ''/api/tasks''),
                       (''materials'', JStr ''/api/materials'')])]\<rparr>"

definition healthCheck :: "env \<Rightarrow> response" where
  "healthCheck e =
     \<lparr>status = 200,
      body = [(''status'', JStr ''OK''), (''timestamp'', timestamp e),
              (''database'', JStr ''Connected'')]\<rparr>"

definition errorMiddleware :: response where
  "errorMiddleware = \<lparr>status = 500, body = [(''message'', JStr ''Something went wrong!'')]\<rparr>"

definition notFoundHandler :: response where
  "notFoundHandler = \<lparr>status = 404, body = [(''message'', JStr ''Route not found'')]\<rparr>"

section \<open>Properties of rules and statements\<close>

text \<open>A rule that returns has only added messages.\<close>

definition grows :: "rule \<Rightarrow> bool" where
  "grows r = (\<forall>errs out. r errs = Inr out \<longrightarrow> set errs \<subseteq> set out)"

text \<open>The value a statement leaves in its field, given the value it finds there.\<close>

fun result :: "stmt \<Rightarrow> jsval \<Rightarrow> jsval \<Rightarrow> bool" where
  "result (Rewrite k f) x w = (if truthy x then f x = Inr w else w = x)"
| "result (Default k v) x w = (w = (if truthy x then x else v))"

text \<open>A statement that finds its own result in its field changes nothing.\<close>

definition settled :: "stmt \<Rightarrow> jsval \<Rightarrow> bool" where
  "settled st w =
     (case st of
        Rewrite k f \<Rightarrow> \<not> truthy w \<or> f w = Inr w
      | Default k v \<Rightarrow> truthy w \<or> (w = v \<and> v \<noteq> JUndefined))"

text \<open>Keys: a rewrite adds none, a default adds its own.\<close>

fun is_default :: "stmt \<Rightarrow> bool" where
  "is_default (Default k v) = True"
| "is_default _ = False"

text \<open>What the two checks of an employee creation look for in the database, and report.\<close>

definition id_taken :: "db \<Rightarrow> jsval \<Rightarrow> bool" where
  "id_taken d i = (\<exists>doc \<in> set (employees d). get doc ''id'' = i)"

definition code_taken :: "db \<Rightarrow> jsval \<Rightarrow> bool" where
  "code_taken d c = (truthy c \<and> (\<exists>doc \<in> set (employees d). get doc ''employeeCode'' = c))"

definition uniqueness_errors :: "db \<Rightarrow> jsval \<Rightarrow> jsval \<Rightarrow> string list" where
  "uniqueness_errors d i c =
     (if id_taken d i then [''Employee with ID '' @ js_to_string i @ '' already exists''] else [])
     @ (if code_taken d c
        then [''Employee with code '' @ [CHR 0x27] @ js_to_string c @ [CHR 0x27] @ '' already exists'']
        else [])"

definition company_missing :: "db \<Rightarrow> jsval \<Rightarrow> bool" where
  "company_missing d c = (\<not> (\<exists>doc \<in> set (companies d). get doc ''id'' = c))"

definition user_missing :: "db \<Rightarrow> jsval \<Rightarrow> bool" where
  "user_missing d u = (truthy u \<and> \<not> (\<exists>doc \<in> set (users d). get doc ''id'' = u))"

definition referential_errors :: "db \<Rightarrow> jsval \<Rightarrow> jsval \<Rightarrow> string list" where
  "referential_errors d c u =
     (if company_missing d c then [''Company with ID '' @ js_to_string c @ '' does not exist''] else [])
     @ (if user_missing d u then [''User with ID '' @ js_to_string u @ '' does not exist''] else [])"

text \<open>
  The stored tasks whose status is the upper-cased parameter, the answer of the listing for
  a first page of at most 1000 tasks, and a collection of 1001 planned tasks.
\<close>

definition matching_status :: "db \<Rightarrow> string \<Rightarrow> obj list" where
  "matching_status d s = filter (field_eq ''status'' (JStr (toUpperCase s))) (tasks d)"

definition tasks_page :: "db \<Rightarrow> obj list \<Rightarrow> nat \<Rightarrow> response" where
  "tasks_page d found n =
     \<lparr>status = 200,
      body = [(''success'', JBool True),
              (''data'', JArr (map JObj (map (with_details d) found))),
              (''pagination'',
                 JObj [(''page'', JNum 1), (''limit'', JNum 1000), (''total'', JNum (of_nat n)),
                       (''pages'', JNum (of_int \<lceil>(of_nat n / 1000 :: rat)\<rceil>))])]\<rparr>"

text \<open>
  Newest first: a task comes before every task created earlier, and before every task
  created at the same time whose id is not greater. Names attached: the document of a task
  with the name of the stored company that has the task's \<open>companyId\<close> as its \<open>id\<close>,
  or \<open>Unknown Company\<close> when there is none, likewise for its project, and every other
  field as stored. A page: the \<open>limit\<close> documents after the first
  \<open>(page - 1) * limit\<close>.
\<close>

definition newer :: "obj \<Rightarrow> obj \<Rightarrow> bool" where
  "newer a b =
     (created_time b < created_time a
      \<or> (created_time a = created_time b \<and> num_of (get b ''id'') \<le> num_of (get a ''id'')))"

definition newest_first :: "obj list \<Rightarrow> bool" where
  "newest_first docs = sorted_wrt newer docs"

definition name_in :: "obj list \<Rightarrow> jsval \<Rightarrow> string \<Rightarrow> jsval" where
  "name_in docs i unknown =
     (case filter (\<lambda>doc. get doc ''id'' = i) docs of
        [] \<Rightarrow> JStr unknown
      | doc # _ \<Rightarrow> get doc ''name'')"

definition names_attached :: "db \<Rightarrow> obj \<Rightarrow> obj \<Rightarrow> bool" where
  "names_attached d task shown =
     (get shown ''companyName'' = name_in (companies d) (get task ''companyId'') ''Unknown Company''
      \<and> get shown ''projectName'' = name_in (projects d) (get task ''projectId'') ''Unknown Project''
      \<and> (\<forall>k. k \<noteq> ''companyName'' \<and> k \<noteq> ''projectName'' \<longrightarrow> get shown k = get task k))"

definition page_of :: "nat \<Rightarrow> nat \<Rightarrow> 'a list \<Rightarrow> 'a list" where
  "page_of page limit docs = take limit (drop ((page - 1) * limit) docs)"

text \<open>
  A query parameter that is absent, in which case a default counts, or the decimal numeral
  of a positive number.
\<close>

definition numeral_or :: "jsval \<Rightarrow> nat \<Rightarrow> nat \<Rightarrow> bool" where
  "numeral_or v preset n =
     ((v = JUndefined \<and> n = preset) \<or> (0 < n \<and> v = JStr (string_of_nat n)))"

definition many_tasks :: "obj list" where
  "many_tasks = map (\<lambda>i. [(''id'', JNum (of_nat i)), (''status'', JStr ''PLANNED'')]) [1..<1002]"

text \<open>
  Strings as the normalizers leave them: without white space at either end, and with single
  blanks as the only white space inside. Ids whose magnitude is below \<open>1e21\<close>, where the
  string form of a number is still plain decimal.
\<close>

fun single_spaced :: "bool \<Rightarrow> string \<Rightarrow> bool" where
  "single_spaced prev [] = True"
| "single_spaced prev (c # cs) =
     (if is_ws c then c = CHR 0x20 \<and> \<not> prev \<and> single_spaced True cs else single_spaced False cs)"

definition tidy :: "string \<Rightarrow> bool" where
  "tidy t = (t = [] \<or> (\<not> is_ws (hd t) \<and> \<not> is_ws (last t)))"

definition small_ids :: "string list \<Rightarrow> obj \<Rightarrow> bool" where
  "small_ids ks n = (\<forall>k \<in> set ks. \<bar>num_of (get n k)\<bar> < 10 ^ 21)"

text \<open>
  Collections whose stored ids are all numbers, the number an id is, and the greatest of them.
\<close>

definition numeric_ids :: "obj list \<Rightarrow> bool" where
  "numeric_ids docs = list_all (\<lambda>doc. id_key doc \<noteq> None) docs"

definition id_number :: "obj \<Rightarrow> rat" where
  "id_number doc = (case get doc ''id'' of JNum r \<Rightarrow> r | _ \<Rightarrow> 0)"

definition max_id :: "obj list \<Rightarrow> rat" where
  "max_id docs = Max (set (map id_number docs))"

section \<open>Example requests\<close>

text \<open>
  An environment whose \<open>Date.parse\<close> knows the two ISO dates of the examples, for which
  the strings of 24 lower-case hexadecimal digits are the storage identifiers, and whose
  CastError has the message of a current object mapper; and a database
  with one company, one user, two employees, one project and two tasks.
\<close>

definition ex_env :: env where
  "ex_env =
     \<lparr>date_parse = (\<lambda>s. if s = ''2024-01-10'' then Some 1704844800000
                          else if s = ''2024-01-01'' then Some 1704067200000 else None),
      now = 1718000000000,
      toISOString = (\<lambda>t. ''2024-06-10T06:13:20.000Z''),
      castObjectId = (\<lambda>s. if length s = 24 \<and> list_all (\<lambda>c. c \<in> set ''0123456789abcdef'') s
                          then Some s else None),
      castErrorMessage = (\<lambda>kind v path model.
         ''Cast to '' @ kind @ '' failed for value '' @ [CHR 0x22] @ js_to_string v @ [CHR 0x22]
         @ '' (type '' @ js_typeof v @ '') at path '' @ [CHR 0x22] @ path @ [CHR 0x22]
         @ '' for model '' @ [CHR 0x22] @ model @ [CHR 0x22])\<rparr>"

definition ex_db :: db where
  "ex_db =
     \<lparr>companies = [[(''id'', JNum 1), (''name'', JStr ''Acme'')]],
      users = [[(''id'', JNum 7), (''email'', JStr ''jane@acme.test'')]],
      employees = [[(''id'', JNum 1), (''companyId'', JNum 1), (''employeeCode'', JStr ''A''),
                    (''fullName'', JStr ''Ann'')],
                   [(''id'', JNum 2), (''companyId'', JNum 1), (''employeeCode'', JStr ''B''),
                    (''fullName'', JStr ''Bob'')]],
      projects = [[(''id'', JNum 4), (''companyId'', JNum 1), (''name'', JStr ''Depot''),
                   (''status'', JStr ''Ongoing''), (''createdBy'', JNum 7)]],
      tasks = [[(''id'', JNum 3), (''companyId'', JNum 1), (''projectId'', JNum 4),
                (''taskName'', JStr ''dig''), (''taskType'', JStr ''WORK''),
                (''status'', JStr ''IN_PROGRESS''), (''priority'', JStr ''high''),
                (''createdAt'', JDate (Some 1700000000000))],
               [(''id'', JNum 5), (''companyId'', JNum 1), (''projectId'', JNum 4),
                (''taskName'', JStr ''pour''), (''taskType'', JStr ''WORK''),
                (''status'', JStr ''PLANNED''),
                (''createdAt'', JDate (Some 1710000000000))]],
      materials = []\<rparr>"

text \<open>A later reading of the clock, and one payload for each normalizer with its normal form.\<close>

definition ex_later :: env where
  "ex_later = ex_env\<lparr>now := 1718000060000\<rparr>"

definition ex_employee_payload :: obj where
  "ex_employee_payload =
     [(''id'', JStr ''5''), (''companyId'', JNum 1), (''fullName'', JStr ''  Jane   Doe ''),
      (''employeeCode'', JStr '' emp-01 ''), (''phone'', JStr ''+1 (555) 12''),
      (''status'', JStr ''active''), (''createdAt'', JStr ''soon'')]"

definition ex_employee_normal :: obj where
  "ex_employee_normal =
     [(''id'', JNum 5), (''companyId'', JNum 1), (''fullName'', JStr ''Jane Doe''),
      (''employeeCode'', JStr ''emp-01''), (''phone'', JStr ''155512''),
      (''status'', JStr ''ACTIVE''), (''createdAt'', JDate (Some 1718000000000))]"

definition ex_project_payload :: obj where
  "ex_project_payload =
     [(''name'', JStr '' Tower   A ''), (''companyId'', JStr ''1''), (''code'', JStr '' tw-a ''),
      (''budget'', JStr ''12.5''), (''startDate'', JStr ''2024-01-01''),
      (''endDate'', JStr ''never'')]"

definition ex_project_normal :: obj where
  "ex_project_normal =
     [(''name'', JStr ''Tower A''), (''companyId'', JNum 1), (''code'', JStr ''TW-A''),
      (''budget'', JNum (25 / 2)), (''startDate'', JDate (Some 1704067200000)),
      (''endDate'', JNull), (''status'', JStr ''PLANNING'')]"

definition ex_task_payload :: obj where
  "ex_task_payload =
     [(''companyId'', JStr ''1''), (''projectId'', JNum 4), (''taskName'', JStr '' pour ''),
      (''taskType'', JStr ''WORK''), (''startDate'', JStr ''2024-01-10'')]"

definition ex_task_normal :: obj where
  "ex_task_normal =
     [(''companyId'', JNum 1), (''projectId'', JNum 4), (''taskName'', JStr ''pour''),
      (''taskType'', JStr ''WORK''), (''startDate'', JDate (Some 1704844800000)),
      (''status'', JStr ''PLANNED''), (''additionalData'', JObj []),
      (''createdAt'', JDate (Some 1718000000000))]"

text \<open>
  A collection of five tasks, four of them planned, stored in no order of time; the first
  names a company that is not stored.
\<close>

definition ex_listing :: db where
  "ex_listing =
     ex_db\<lparr>tasks :=
       [[(''id'', JNum 1), (''companyId'', JNum 9), (''projectId'', JNum 4),
         (''status'', JStr ''PLANNED''), (''createdAt'', JDate (Some 1000))],
        [(''id'', JNum 2), (''companyId'', JNum 1), (''projectId'', JNum 4),
         (''status'', JStr ''COMPLETED''), (''createdAt'', JDate (Some 5000))],
        [(''id'', JNum 3), (''companyId'', JNum 1), (''projectId'', JNum 4),
         (''status'', JStr ''PLANNED''), (''createdAt'', JDate (Some 3000))],
        [(''id'', JNum 4), (''companyId'', JNum 1), (''projectId'', JNum 4),
         (''status'', JStr ''PLANNED''), (''createdAt'', JDate (Some 3000))],
        [(''id'', JNum 5), (''companyId'', JNum 1), (''projectId'', JNum 4),
         (''status'', JStr ''PLANNED''), (''createdAt'', JDate (Some 2000))]]\<rparr>"

text \<open>Whether a response body carries a boolean \<open>success\<close> that tells a 2xx status.\<close>

definition envelope :: "response \<Rightarrow> bool" where
  "envelope r = (map_of (body r) ''success'' = Some (JBool (status r < 400)))"

section \<open>Evaluation\<close>

named_theorems ev

declare get_def [ev] put_def [ev] spread_def [ev] is_ws_def [ev] is_digit_def [ev] trim_def [ev]
  collapse_ws_def [ev] strip_non_digits_def [ev] upper_char_def [ev] toUpperCase_def [ev]
  digit_val_def [ev] radix_val_def [ev] digits_val_def [ev] signed_def [ev] parseInt_str_def [ev]
  parseInt_num_def [ev] parse_exponent_def [ev] parse_udec_def [ev] parse_sdec_def [ev]
  radix_literal_def [ev] str_to_number_def [ev] digit_char_def [ev] string_of_nat.simps [ev]
  exp_form_def [ev] magnitude_to_string_def [ev] num_to_string_def [ev] parseFloat_str_def [ev]
  isNaN_def [ev] lt_zero_def [ev] le_zero_def [ev] invalid_id_def [ev] time_clip_def [ev]
  rule_if_def [ev] rule_trim_def [ev] js_includes_def [ev] employeeStatuses_def [ev]
  validateEmployeeInput_def [ev] step_parseInt_def [ev] step_trim_def [ev] step_upper_def [ev]
  trimmed_def [ev] uppered_def [ev] date_or_now_def [ev] date_or_null_def [ev]
  normalizeEmployeeData_def [ev]
  findOne_def [ev] field_eq_def [ev] field_ne_def [ev] make_check_def [ev] js_or_def [ev]
  default_null_def [ev] validateReferentialIntegrity_def [ev] checkEmployeeUniqueness_def [ev]
  getUserEmailById_def [ev] transformEmployeeResponse_def [ev] timestamp_def [ev]
  employee_failure_def [ev] save_employee_def [ev] createEmployee_def [ev]
  findOneAndUpdate_def [ev] valid_check_def [ev] updateEmployee_def [ev]
  projectStatuses_def [ev] rule_valid_date_def [ev] rule_date_order_def [ev]
  validateProjectInput_def [ev] step_parseFloat_def [ev] step_date_or_null_def [ev]
  normalizeProjectData_def [ev] validateCompanyExistence_def [ev]
  checkProjectCodeUniqueness_def [ev] id_key_def [ev] generateNextProjectId_def [ev]
  generateProjectMetadata_def [ev] projectSchema_status_enum_def [ev] missing_def [ev]
  required_error_def [ev] projectSchema_errors_def [ev] save_project_def [ev] failure_def [ev]
  projectDocument_def [ev] createProject_def [ev] taskStatuses_def [ev] taskTypes_def [ev]
  validateTaskInput_def [ev] parseDate_def [ev] step_parseDate_def [ev] normalizeTaskData_def [ev]
  task_validateReferentialIntegrity_def [ev] name_or_def [ev] companyName_of_def [ev]
  projectName_of_def [ev] with_details_def [ev] save_task_def [ev] nextTaskId_def [ev]
  createTask_def [ev] all_digits_def [ev] task_filter_def [ev] updateTask_def [ev]
  is_hex_digit_def [ev] parseInt_auto_str_def [ev] num_of_def [ev] date_between_def [ev]
  upper_filter_def [ev] tasks_query_def [ev] created_time_def [ev] sort_tasks_def [ev]
  skip_limit_def [ev] getAllTasks_def [ev] getMaterial_def [ev] deleteMaterial_def [ev]
  number_eq_def [ev] written_def [ev] rootHandler_def [ev] healthCheck_def [ev]
  ex_listing_def [ev]
  errorMiddleware_def [ev] notFoundHandler_def [ev] ex_env_def [ev] ex_db_def [ev]
  envelope_def [ev] Let_def [ev]

section \<open>Objects, statements and rules\<close>

lemma get_put: "get (put k v n) k' = (if k' = k then v else get n k')"
  by (simp add: get_def put_def update_conv')

lemma put_same: "get n k = v \<Longrightarrow> v \<noteq> JUndefined \<Longrightarrow> put k v n = n"
  by (auto simp: get_def put_def split: option.splits intro: update_triv)

lemma keys_put: "fst ` set (put k v n) = insert k (fst ` set n)"
  by (simp add: put_def dom_update)

lemma distinct_put: "distinct (map fst n) \<Longrightarrow> distinct (map fst (put k v n))"
  by (simp add: put_def distinct_update)

lemma get_present: "get n k \<noteq> JUndefined \<Longrightarrow> k \<in> fst ` set n"
  by (auto simp: get_def split: option.splits dest: map_of_SomeD intro: rev_image_eqI)

lemma truthy_present: "truthy (get n k) \<Longrightarrow> k \<in> fst ` set n"
  by (rule get_present) auto

lemma put_same_truthy: "truthy (get n k) \<Longrightarrow> put k (get n k) n = n"
  by (rule put_same) auto

lemma in_put_key: "(a, b) \<in> set (put k v n) \<Longrightarrow> a = k \<or> a \<in> fst ` set n"
  using keys_put [of k v n] by (metis fst_conv image_eqI insert_iff)

lemma exec_other: "exec st n = Inr n' \<Longrightarrow> k \<noteq> stmt_key st \<Longrightarrow> get n' k = get n k"
  by (cases st) (auto simp: get_put split: if_splits sum.splits)

lemma exec_distinct: "exec st n = Inr n' \<Longrightarrow> distinct (map fst n) \<Longrightarrow> distinct (map fst n')"
  by (cases st) (auto simp: distinct_put split: if_splits sum.splits)

lemma run_Cons_Inr:
  "run (st # sts) n = Inr q \<longleftrightarrow> (\<exists>n'. exec st n = Inr n' \<and> run sts n' = Inr q)"
  by (cases "exec st n") auto

lemma run_append:
  "run (xs @ ys) n = (case run xs n of Inl ex \<Rightarrow> Inl ex | Inr m \<Rightarrow> run ys m)"
  by (induction xs arbitrary: n) (auto split: sum.splits)

lemma run_untouched:
  "run sts n = Inr q \<Longrightarrow> k \<notin> stmt_key ` set sts \<Longrightarrow> get q k = get n k"
proof (induction sts arbitrary: n)
  case Nil
  then show ?case by simp
next
  case (Cons st sts)
  from Cons.prems(1) obtain n' where n': "exec st n = Inr n'" "run sts n' = Inr q"
    by (auto split: sum.splits)
  from Cons.prems(2) have "k \<noteq> stmt_key st" "k \<notin> stmt_key ` set sts" by auto
  with Cons.IH n' exec_other show ?case by metis
qed

lemma run_distinct: "run sts n = Inr q \<Longrightarrow> distinct (map fst n) \<Longrightarrow> distinct (map fst q)"
proof (induction sts arbitrary: n)
  case Nil
  then show ?case by simp
next
  case (Cons st sts)
  then show ?case by (auto split: sum.splits dest: exec_distinct)
qed

lemma exec_result: "exec st n = Inr n' \<Longrightarrow> result st (get n (stmt_key st)) (get n' (stmt_key st))"
  by (cases st) (auto simp: get_put split: if_splits sum.splits)

lemma run_single:
  assumes "run (pre @ st # post) n = Inr q" 
    and "stmt_key st \<notin> stmt_key ` set pre" "stmt_key st \<notin> stmt_key ` set post"
  shows "result st (get n (stmt_key st)) (get q (stmt_key st))"
proof -
  from assms(1) obtain a b where ab: "run pre n = Inr a" "exec st a = Inr b" "run post b = Inr q"
    by (auto simp: run_append split: sum.splits)
  have "get a (stmt_key st) = get n (stmt_key st)" using ab(1) assms(2) by (rule run_untouched)
  moreover have "get q (stmt_key st) = get b (stmt_key st)" using ab(3) assms(3) by (rule run_untouched)
  ultimately show ?thesis using exec_result [OF ab(2)] by simp
qed

lemma exec_settled: "settled st (get q (stmt_key st)) \<Longrightarrow> exec st q = Inr q"
  by (cases st) (auto simp: settled_def put_same_truthy put_same)

lemma run_settled: "(\<forall>st \<in> set sts. settled st (get q (stmt_key st))) \<Longrightarrow> run sts q = Inr q"
  by (induction sts) (auto simp: exec_settled)

lemma exec_keys:
  assumes "exec st n = Inr n'"
  shows "fst ` set n' \<subseteq> fst ` set n \<union> (if is_default st then {stmt_key st} else {})"
proof (cases st)
  case (Rewrite k f)
  show ?thesis
  proof (cases "truthy (get n k)")
    case True
    with assms Rewrite obtain v where "n' = put k v n" by (auto split: sum.splits)
    moreover from True have "k \<in> fst ` set n" by (rule truthy_present)
    ultimately show ?thesis by (simp add: keys_put insert_absorb)
  next
    case False
    with assms Rewrite show ?thesis by simp
  qed
next
  case (Default k v)
  with assms have "n' = n \<or> n' = put k v n" by (auto split: if_splits)
  then have "fst ` set n' \<subseteq> insert k (fst ` set n)"
  proof
    assume "n' = n"
    then show ?thesis by blast
  next
    assume "n' = put k v n"
    then show ?thesis by (simp add: keys_put)
  qed
  with Default show ?thesis by simp
qed

lemma run_keys:
  "run sts n = Inr q \<Longrightarrow> fst ` set q \<subseteq> fst ` set n \<union> set (map stmt_key (filter is_default sts))"
proof (induction sts arbitrary: n)
  case Nil
  then show ?case by simp
next
  case (Cons st sts)
  from Cons.prems obtain n' where n': "exec st n = Inr n'" "run sts n' = Inr q"
    by (auto split: sum.splits)
  have a: "fst ` set n' \<subseteq> fst ` set n \<union> (if is_default st then {stmt_key st} else {})"
    using n'(1) by (rule exec_keys)
  have b: "fst ` set q \<subseteq> fst ` set n' \<union> set (map stmt_key (filter is_default sts))"
    using n'(2) by (rule Cons.IH)
  show ?case
  proof (cases "is_default st")
    case True
    with a have "fst ` set n' \<subseteq> insert (stmt_key st) (fst ` set n)" by simp
    with b True show ?thesis by (simp add: subset_iff) blast
  next
    case False
    with a have "fst ` set n' \<subseteq> fst ` set n" by simp
    with b False show ?thesis by (simp add: subset_iff) blast
  qed
qed

lemma grows_rule_if: "grows (rule_if b m)"
  by (auto simp: grows_def rule_if_def)

lemma grows_rule_trim: "grows (rule_trim w v p m)"
  by (auto simp: grows_def rule_trim_def split: if_splits sum.splits)

lemma run_rules_grows:
  "list_all grows rs \<Longrightarrow> run_rules rs errs = Inr out \<Longrightarrow> set errs \<subseteq> set out"
proof (induction rs arbitrary: errs)
  case Nil
  then show ?case by simp
next
  case (Cons r rs)
  from Cons.prems obtain mid where m: "r errs = Inr mid" "run_rules rs mid = Inr out"
    by (auto split: sum.splits)
  from Cons.prems m(1) have "set errs \<subseteq> set mid" by (auto simp: grows_def)
  moreover from Cons.IH Cons.prems m(2) have "set mid \<subseteq> set out" by simp
  ultimately show ?case by blast
qed

lemma run_rules_append:
  "run_rules (rs @ ss) errs = (case run_rules rs errs of Inl ex \<Rightarrow> Inl ex | Inr mid \<Rightarrow> run_rules ss mid)"
  by (induction rs arbitrary: errs) (auto split: sum.splits)

lemma run_rules_member:
  assumes "run_rules (rs @ rule_if True m # ss) errs = Inr out" "list_all grows ss"
  shows "m \<in> set out"
proof -
  from assms(1) obtain mid where "run_rules rs errs = Inr mid" "run_rules ss (mid @ [m]) = Inr out"
    by (auto simp: run_rules_append rule_if_def split: sum.splits)
  with run_rules_grows [OF assms(2)] show ?thesis by fastforce
qed

lemma join_member: "m \<in> set xs \<Longrightarrow> \<exists>pre post. join sep xs = pre @ m @ post"
proof (induction sep xs rule: join.induct)
  case (1 sep)
  then show ?case by simp
next
  case (2 sep x)
  then have "join sep [x] = [] @ m @ []" by simp
  then show ?case by blast
next
  case (3 sep x y ys)
  show ?case
  proof (cases "m = x")
    case True
    then have "join sep (x # y # ys) = [] @ m @ (sep @ join sep (y # ys))" by simp
    then show ?thesis by blast
  next
    case False
    with 3 obtain pre post where "join sep (y # ys) = pre @ m @ post" by auto
    then have "join sep (x # y # ys) = (x @ sep @ pre) @ m @ post" by simp
    then show ?thesis by blast
  qed
qed

lemma task_rules_total: "\<exists>errs. validateTaskInput e data = Inr errs"
  by (simp add: validateTaskInput_def Let_def rule_if_def rule_valid_date_def rule_date_order_def)

lemma task_date_order:
  assumes "truthy (get data ''startDate'')" "truthy (get data ''endDate'')"
    and "date_le (new_date e (get data ''endDate'')) (new_date e (get data ''startDate''))"
    and "validateTaskInput e data = Inr errs"
  shows "''End date must be after start date'' \<in> set errs"
proof -
  let ?pre = "[rule_if (\<not> truthy (get data ''companyId'')) ''Company ID is required'',
           rule_if (\<not> truthy (get data ''projectId'')) ''Project ID is required'',
           rule_if (\<not> truthy (get data ''taskName'')) ''Task name is required'',
           rule_if (\<not> truthy (get data ''taskType'')) ''Task type is required'',
           rule_if (truthy (get data ''companyId'') \<and> isNaN (get data ''companyId'')) ''Company ID must be a number'',
           rule_if (truthy (get data ''projectId'') \<and> isNaN (get data ''projectId'')) ''Project ID must be a number'',
           rule_valid_date e (get data ''startDate'') ''Start date must be a valid date'',
           rule_valid_date e (get data ''endDate'') ''End date must be a valid date'']"
  let ?post = "[rule_if (truthy (get data ''status'') \<and> \<not> js_includes taskStatuses (get data ''status''))
             (''Status must be one of: '' @ join '', '' taskStatuses),
           rule_if (truthy (get data ''taskType'') \<and> \<not> js_includes taskTypes (get data ''taskType''))
             (''Task type must be one of: '' @ join '', '' taskTypes)]"
  have eq: "rule_date_order e (get data ''startDate'') (get data ''endDate'')
               = rule_if True ''End date must be after start date''"
    using assms(1-3) by (simp add: rule_date_order_def)
  have "validateTaskInput e data
          = run_rules (?pre @ rule_date_order e (get data ''startDate'') (get data ''endDate'') # ?post) []"
    by (simp only: validateTaskInput_def Let_def append.simps)
  with assms(4) eq
  have "run_rules (?pre @ rule_if True ''End date must be after start date'' # ?post) [] = Inr errs"
    by (simp only:)
  moreover have "list_all grows ?post" by (simp add: grows_rule_if)
  ultimately show ?thesis by (rule run_rules_member)
qed

section \<open>The uniqueness scan of an employee update\<close>

text \<open>
  C6. An update that supplies an employee code runs the uniqueness scan with the record's own
  id excluded, so that keeping one's own code is no conflict. In \<open>checkEmployeeUniqueness\<close>
  the exclusion replaces the filter of the id query, which then matches any other employee:
  employee 1 keeping its code \<open>A\<close> is answered 409 as soon as an employee 2 is stored, and
  nothing is written.
\<close>

theorem updateEmployee_own_code_conflict:
  "updateEmployee ex_env ex_db ''1'' [(''employeeCode'', JStr ''A'')] =
     (employee_failure ex_env 409 ''Employee with ID 1 already exists'', ex_db)"
  by (simp add: ev)

section \<open>Creating a project\<close>

text \<open>
  C3. A project payload that passes validation, references an existing company and omits the
  status gets the default status \<open>PLANNING\<close>, is persisted and answered 201. The default is
  set, but \<open>PLANNING\<close> is not in the enumeration of the project schema, so \<open>save\<close> refuses
  the document: the handler answers 500 and stores nothing. The payload below brings the
  \<open>createdBy\<close> the schema requires, so the status is the only refused path.
\<close>

theorem createProject_default_status_refused:
  "createProject ex_env ex_db
     [(''name'', JStr ''Tower A''), (''companyId'', JNum 1), (''createdBy'', JNum 7)] =
   (failure 500 (''Server error during project creation: Project validation failed: '' @
                 ''status: `PLANNING` is not a valid enum value for path `status`.''), ex_db)"
  by (simp add: ev)

text \<open>
  The document handed to \<open>save\<close> is the normalized payload spread over the id read from
  the collection (5 in the example database): an \<open>id\<close> that the payload brings is kept,
  as it is for a task.
\<close>

lemma projectDocument_payload_id:
  "generateNextProjectId ex_db = JNum 5 \<and>
   (case normalizeProjectData ex_env
           [(''name'', JStr ''Tower A''), (''companyId'', JNum 1), (''id'', JNum 77)] of
      Inl ex \<Rightarrow> False
    | Inr nd \<Rightarrow>
        get (projectDocument ex_env (generateNextProjectId ex_db) nd
               (generateProjectMetadata ex_env nd)) ''id'' = JNum 77)"
  by (simp add: ev)

section \<open>The response envelope\<close>
















section \<open>The order of the two dates\<close>

text \<open>
  When both dates are supplied, parse, and the end is not after the start, the message is
  among the collected ones whatever the other rules add, and the handler answers 400 with
  the joined messages: always for a task, and for a project whenever its validator returns.
\<close>

lemma createTask_date_order_rejected:
  assumes "truthy (get data ''startDate'')" "truthy (get data ''endDate'')"
    and "date_le (new_date e (get data ''endDate'')) (new_date e (get data ''startDate''))"
  shows "\<exists>pre post. createTask e d data
           = (failure 400 (pre @ ''End date must be after start date'' @ post), d)"
proof -
  obtain errs where errs: "validateTaskInput e data = Inr errs"
    using task_rules_total by blast
  with assms have m: "''End date must be after start date'' \<in> set errs"
    by (rule task_date_order)
  then have "length errs > 0" by (cases errs) auto
  with errs have "createTask e d data = (failure 400 (join '', '' errs), d)"
    by (simp add: createTask_def)
  moreover from m obtain pre post
    where "join '', '' errs = pre @ ''End date must be after start date'' @ post"
    using join_member by blast
  ultimately have "createTask e d data
      = (failure 400 (pre @ ''End date must be after start date'' @ post), d)"
    by (simp only:)
  then show ?thesis by blast
qed

lemma project_date_order:
  assumes "truthy (get data ''startDate'')" "truthy (get data ''endDate'')"
    and "date_le (new_date e (get data ''endDate'')) (new_date e (get data ''startDate''))"
    and "validateProjectInput e data = Inr errs"
  shows "''End date must be after start date'' \<in> set errs"
proof -
  let ?pre = "[rule_if (\<not> truthy (get data ''name'')) ''Project name is required'',
           rule_if (\<not> truthy (get data ''companyId'')) ''Company ID is required'',
           rule_if (truthy (get data ''companyId'') \<and> isNaN (get data ''companyId'')) ''Company ID must be a number'',
           rule_if (truthy (get data ''budget'') \<and> isNaN (get data ''budget'')) ''Budget must be a number'',
           rule_trim ''name'' (get data ''name'') (\<lambda>t. length t = 0) ''Project name cannot be empty'',
           rule_trim ''name'' (get data ''name'') (\<lambda>t. length t > 100)
             ''Project name must be less than 100 characters'',
           rule_trim ''code'' (get data ''code'') (\<lambda>t. length t > 20)
             ''Project code must be less than 20 characters'',
           rule_valid_date e (get data ''startDate'') ''Start date must be a valid date'',
           rule_valid_date e (get data ''endDate'') ''End date must be a valid date'']"
  let ?post = "[rule_if (truthy (get data ''budget'') \<and> lt_zero (get data ''budget'')) ''Budget cannot be negative'',
           rule_if (truthy (get data ''status'') \<and> \<not> js_includes projectStatuses (get data ''status''))
             (''Status must be one of: '' @ join '', '' projectStatuses)]"
  have eq: "rule_date_order e (get data ''startDate'') (get data ''endDate'')
               = rule_if True ''End date must be after start date''"
    using assms(1-3) by (simp add: rule_date_order_def)
  have "validateProjectInput e data
          = run_rules (?pre @ rule_date_order e (get data ''startDate'') (get data ''endDate'') # ?post) []"
    by (simp only: validateProjectInput_def Let_def append.simps)
  with assms(4) eq
  have "run_rules (?pre @ rule_if True ''End date must be after start date'' # ?post) [] = Inr errs"
    by (simp only:)
  moreover have "list_all grows ?post" by (simp add: grows_rule_if)
  ultimately show ?thesis by (rule run_rules_member)
qed

lemma createProject_date_order_rejected:
  assumes "truthy (get data ''startDate'')" "truthy (get data ''endDate'')"
    and "date_le (new_date e (get data ''endDate'')) (new_date e (get data ''startDate''))"
    and "validateProjectInput e data = Inr errs"
  shows "\<exists>pre post. createProject e d data
           = (failure 400 (pre @ ''End date must be after start date'' @ post), d)"
proof -
  from assms have m: "''End date must be after start date'' \<in> set errs"
    by (rule project_date_order)
  then have "length errs > 0" by (cases errs) auto
  with assms(4) have "createProject e d data = (failure 400 (join '', '' errs), d)"
    by (simp add: createProject_def)
  moreover from m obtain pre post
    where "join '', '' errs = pre @ ''End date must be after start date'' @ post"
    using join_member by blast
  ultimately have "createProject e d data
      = (failure 400 (pre @ ''End date must be after start date'' @ post), d)"
    by (simp only:)
  then show ?thesis by blast
qed


text \<open>
  C4. The rejection of a payload whose end date is not after its start date holds regardless
  of the other fields. The project validator calls \<open>trim\<close> on every truthy \<open>name\<close> and \<open>code\<close>:
  with a name that is a number it throws before the dates are looked at, and the handler
  answers 500 without the message.
\<close>

theorem createProject_non_string_name_throws:
  "createProject ex_env ex_db
     [(''name'', JNum 5), (''companyId'', JNum 1),
      (''startDate'', JStr ''2024-01-10''), (''endDate'', JStr ''2024-01-01'')] =
   (failure 500 ''Server error during project creation: name.trim is not a function'', ex_db)"
  by (simp add: ev)

section \<open>Creating an employee\<close>

lemma last_dropWhile_nonempty: "dropWhile P xs \<noteq> [] \<Longrightarrow> last (dropWhile P xs) = last xs"
  by (induction xs) (auto split: if_splits)

lemma dropWhile_rev_keeps:
  assumes "xs = [] \<or> \<not> P (hd xs)"
  shows "dropWhile P (rev (dropWhile P (rev xs))) = rev (dropWhile P (rev xs))"
proof (cases "dropWhile P (rev xs) = []")
  case True
  then show ?thesis by (simp only: rev.simps dropWhile.simps)
next
  case False
  then have ne: "xs \<noteq> []" by auto
  from False have "last (dropWhile P (rev xs)) = last (rev xs)" by (rule last_dropWhile_nonempty)
  with ne have "last (dropWhile P (rev xs)) = hd xs" by (simp add: last_rev)
  with assms ne have "\<not> P (hd (rev (dropWhile P (rev xs))))" using False by (simp add: hd_rev)
  then show ?thesis using False by (cases "rev (dropWhile P (rev xs))") auto
qed

lemma trim_idem: "trim (trim s) = trim s"
proof -
  let ?u = "dropWhile is_ws s"
  have "?u = [] \<or> \<not> is_ws (hd ?u)" using hd_dropWhile by blast
  then have "dropWhile is_ws (rev (dropWhile is_ws (rev ?u))) = rev (dropWhile is_ws (rev ?u))"
    by (rule dropWhile_rev_keeps)
  then show ?thesis by (simp add: trim_def)
qed

lemma findOne_None_iff: "findOne q docs = None \<longleftrightarrow> \<not> (\<exists>doc \<in> set docs. q doc)"
  by (auto simp: findOne_def find_None_iff)

text \<open>Under the normalizer the employee code is a trimmed string, unless it was falsy.\<close>

lemma normalized_employeeCode:
  assumes "normalizeEmployeeData e req = Inr nd"
  shows "\<not> truthy (get nd ''employeeCode'') \<or> (\<exists>s. get nd ''employeeCode'' = JStr (trim s))"
proof -
  let ?pre = "[step_parseInt ''id'', step_parseInt ''companyId'', step_parseInt ''userId'',
               step_trim ''fullName'' collapse_ws]"
  let ?st = "step_trim ''employeeCode'' (\<lambda>t. t)"
  let ?post = "[step_trim ''phone'' strip_non_digits, step_trim ''jobTitle'' (\<lambda>t. t),
                step_trim ''photoUrl'' (\<lambda>t. t), step_upper ''status'',
                Rewrite ''createdAt'' (\<lambda>x. Inr (date_or_now e x))]"
  have "normalizeEmployeeData e req = run (?pre @ ?st # ?post) req"
    by (simp only: normalizeEmployeeData_def append.simps)
  with assms have r: "run (?pre @ ?st # ?post) req = Inr nd" by simp
  have "result ?st (get req (stmt_key ?st)) (get nd (stmt_key ?st))"
    using r by (rule run_single) (simp_all add: step_parseInt_def step_trim_def step_upper_def)
  then show ?thesis
    by (cases "get req ''employeeCode''")
       (auto simp: step_trim_def trimmed_def split: if_splits intro: sym)
qed

lemma checkEmployeeUniqueness_create:
  assumes "\<not> truthy c \<or> (\<exists>s. c = JStr (trim s))"
  shows "checkEmployeeUniqueness d i c JUndefined = Inr (make_check (uniqueness_errors d i c))"
proof (cases "truthy c")
  case False
  then have "default_null c = c \<or> default_null c = JNull" by (simp add: default_null_def)
  with False have f: "\<not> truthy (default_null c)" by auto
  from False show ?thesis
    by (simp add: checkEmployeeUniqueness_def Let_def f uniqueness_errors_def id_taken_def
          code_taken_def default_null_def findOne_None_iff field_eq_def)
next
  case True
  with assms obtain s where s: "c = JStr (trim s)" by auto
  with True show ?thesis
    by (simp add: checkEmployeeUniqueness_def Let_def uniqueness_errors_def id_taken_def
          code_taken_def default_null_def findOne_None_iff field_eq_def trim_idem)
qed

lemma validateReferentialIntegrity_eq:
  "validateReferentialIntegrity d c u = make_check (referential_errors d c u)"
  by (cases "u = JUndefined")
     (auto simp: validateReferentialIntegrity_def Let_def referential_errors_def company_missing_def
        user_missing_def default_null_def findOne_None_iff field_eq_def)


text \<open>
  C1. A creation whose payload passes validation and whose \<open>companyId\<close> names no stored
  company is answered 400 with \<open>Company with ID n does not exist\<close>, and no employee is
  written. The validator does not look at \<open>phone\<close>, and the normalizer calls \<open>trim\<close> on
  it: a payload whose \<open>phone\<close> is a number passes validation and makes the normalizer,
  which is documented to return the normalized data, throw a TypeError. The company of the
  payload below is not stored, and the handler answers 500 instead of the referential 400.
  Nothing is written.
\<close>

theorem createEmployee_numeric_phone_throws:
  "validateEmployeeInput
     [(''id'', JNum 5), (''companyId'', JNum 2), (''fullName'', JStr ''Jane Doe''),
      (''employeeCode'', JStr ''E5''), (''phone'', JNum 5551234)] = Inr []
   \<and> company_missing ex_db (JNum 2)
   \<and> createEmployee ex_env ex_db
         [(''id'', JNum 5), (''companyId'', JNum 2), (''fullName'', JStr ''Jane Doe''),
          (''employeeCode'', JStr ''E5''), (''phone'', JNum 5551234)]
     = (employee_failure ex_env 500
          ''Server error during employee creation: normalized.phone.trim is not a function'',
        ex_db)"
  by (simp add: ev company_missing_def)

text \<open>
  Wherever the normalizer returns, the referential check does what is claimed: when the
  payload passes validation and the normalized \<open>companyId\<close> names no stored company, or
  the normalized, truthy \<open>userId\<close> no stored user, the handler answers 400; the message
  joins \<open>Company with ID n does not exist\<close> and \<open>User with ID n does not exist\<close>, each
  present exactly when its reference is missing; and the database is unchanged.
\<close>

lemma createEmployee_referential_rejected:
  assumes "validateEmployeeInput req = Inr []"
    and "normalizeEmployeeData e req = Inr nd"
    and "company_missing d (get nd ''companyId'') \<or> user_missing d (get nd ''userId'')"
  shows "createEmployee e d req =
           (employee_failure e 400
              (join '', '' (referential_errors d (get nd ''companyId'') (get nd ''userId''))), d)"
proof -
  have u: "checkEmployeeUniqueness d (get nd ''id'') (get nd ''employeeCode'') JUndefined
             = Inr (make_check (uniqueness_errors d (get nd ''id'') (get nd ''employeeCode'')))"
    using normalized_employeeCode [OF assms(2)] by (rule checkEmployeeUniqueness_create)
  from assms(3) have "referential_errors d (get nd ''companyId'') (get nd ''userId'') \<noteq> []"
    by (auto simp: referential_errors_def)
  then show ?thesis
    using assms(1,2) u
    by (simp add: createEmployee_def Let_def validateReferentialIntegrity_eq make_check_def)
qed


lemma createEmployee_referential_rejected_example:
  "validateEmployeeInput
     [(''id'', JNum 5), (''companyId'', JNum 2), (''userId'', JStr ''9''),
      (''fullName'', JStr ''  Jane   Doe ''), (''employeeCode'', JStr ''emp-01'')] = Inr []
   \<and> normalizeEmployeeData ex_env
         [(''id'', JNum 5), (''companyId'', JNum 2), (''userId'', JStr ''9''),
          (''fullName'', JStr ''  Jane   Doe ''), (''employeeCode'', JStr ''emp-01'')]
       = Inr [(''id'', JNum 5), (''companyId'', JNum 2), (''userId'', JNum 9),
              (''fullName'', JStr ''Jane Doe''), (''employeeCode'', JStr ''emp-01'')]
   \<and> company_missing ex_db (JNum 2) \<and> user_missing ex_db (JNum 9)
   \<and> createEmployee ex_env ex_db
         [(''id'', JNum 5), (''companyId'', JNum 2), (''userId'', JStr ''9''),
          (''fullName'', JStr ''  Jane   Doe ''), (''employeeCode'', JStr ''emp-01'')]
       = (employee_failure ex_env 400
            ''Company with ID 2 does not exist, User with ID 9 does not exist'', ex_db)"
proof -
  let ?req = "[(''id'', JNum 5), (''companyId'', JNum 2), (''userId'', JStr ''9''),
               (''fullName'', JStr ''  Jane   Doe ''), (''employeeCode'', JStr ''emp-01'')]"
  let ?nd = "[(''id'', JNum 5), (''companyId'', JNum 2), (''userId'', JNum 9),
              (''fullName'', JStr ''Jane Doe''), (''employeeCode'', JStr ''emp-01'')]"
  have v: "validateEmployeeInput ?req = Inr []" by (simp add: ev)
  have n: "normalizeEmployeeData ex_env ?req = Inr ?nd" by (simp add: ev)
  have c: "company_missing ex_db (JNum 2)" by (simp add: ev company_missing_def)
  have u: "user_missing ex_db (JNum 9)" by (simp add: ev user_missing_def)
  have m: "company_missing ex_db (get ?nd ''companyId'') \<or> user_missing ex_db (get ?nd ''userId'')"
    using c by (simp add: get_def)
  have e: "join '', '' (referential_errors ex_db (get ?nd ''companyId'') (get ?nd ''userId''))
             = ''Company with ID 2 does not exist, User with ID 9 does not exist''"
    using c u by (simp add: referential_errors_def get_def num_to_string_def magnitude_to_string_def
                     string_of_nat.simps digit_char_def)
  show ?thesis
    using v n c u createEmployee_referential_rejected [OF v n m] e by simp
qed

text \<open>
  C2, as stated: a creation whose normalized code or id belongs to a stored employee is
  answered 409. The handler looks at validation first and at the referential check next:
  with a code that is taken, a payload without a name is answered 400 by the validator, and
  a payload whose company is not stored is answered 400 by the referential check.
\<close>

theorem createEmployee_conflict_counterexample:
  "code_taken ex_db (JStr ''A'')
   \<and> createEmployee ex_env ex_db
         [(''id'', JNum 9), (''companyId'', JNum 1), (''employeeCode'', JStr ''A'')]
       = (employee_failure ex_env 400 ''Full name is required'', ex_db)
   \<and> createEmployee ex_env ex_db
         [(''id'', JNum 9), (''companyId'', JNum 2), (''fullName'', JStr ''Zed''),
          (''employeeCode'', JStr ''A'')]
       = (employee_failure ex_env 400 ''Company with ID 2 does not exist'', ex_db)"
  by (simp add: ev code_taken_def)

text \<open>The three guards of a creation, in the order in which the handler looks at them.\<close>

lemma createEmployee_invalid_400:
  assumes "validateEmployeeInput req = Inr errs" "errs \<noteq> []"
  shows "createEmployee e d req = (employee_failure e 400 (join '', '' errs), d)"
  using assms by (simp add: createEmployee_def)

lemma createEmployee_conflict_409:
  assumes "validateEmployeeInput req = Inr []"
    and "normalizeEmployeeData e req = Inr nd"
    and "\<not> company_missing d (get nd ''companyId'')" "\<not> user_missing d (get nd ''userId'')"
    and "id_taken d (get nd ''id'') \<or> code_taken d (get nd ''employeeCode'')"
  shows "createEmployee e d req =
           (employee_failure e 409
              (join '', '' (uniqueness_errors d (get nd ''id'') (get nd ''employeeCode''))), d)"
proof -
  have u: "checkEmployeeUniqueness d (get nd ''id'') (get nd ''employeeCode'') JUndefined
             = Inr (make_check (uniqueness_errors d (get nd ''id'') (get nd ''employeeCode'')))"
    using normalized_employeeCode [OF assms(2)] by (rule checkEmployeeUniqueness_create)
  from assms(3,4) have r: "referential_errors d (get nd ''companyId'') (get nd ''userId'') = []"
    by (simp add: referential_errors_def)
  from assms(5) have "uniqueness_errors d (get nd ''id'') (get nd ''employeeCode'') \<noteq> []"
    by (auto simp: uniqueness_errors_def)
  then show ?thesis
    using assms(1,2) u r
    by (simp add: createEmployee_def Let_def validateReferentialIntegrity_eq make_check_def)
qed

text \<open>
  C2, amended: a creation whose payload passes validation, whose company and (when a
  \<open>userId\<close> is supplied) user are stored, and whose normalized id, or normalized non-empty
  code, belongs to a stored employee is answered 409; the message joins
  \<open>Employee with ID n already exists\<close> and \<open>Employee with code 'c' already exists\<close>,
  each present exactly when its value is taken. A creation for which the validator reports
  messages is answered 400 with them, and one that passes validation and whose company or
  user is not stored is answered 400 by the referential check, whether or not the code or
  the id is taken. The database is unchanged in all three cases.
\<close>

theorem createEmployee_conflict_rejected:
  "(validateEmployeeInput req = Inr errs \<and> errs \<noteq> [] \<longrightarrow>
      createEmployee e d req = (employee_failure e 400 (join '', '' errs), d))
   \<and> (validateEmployeeInput req = Inr [] \<and> normalizeEmployeeData e req = Inr nd
        \<and> (company_missing d (get nd ''companyId'') \<or> user_missing d (get nd ''userId'')) \<longrightarrow>
      createEmployee e d req =
        (employee_failure e 400
           (join '', '' (referential_errors d (get nd ''companyId'') (get nd ''userId''))), d))
   \<and> (validateEmployeeInput req = Inr [] \<and> normalizeEmployeeData e req = Inr nd
        \<and> \<not> company_missing d (get nd ''companyId'') \<and> \<not> user_missing d (get nd ''userId'')
        \<and> (id_taken d (get nd ''id'') \<or> code_taken d (get nd ''employeeCode'')) \<longrightarrow>
      createEmployee e d req =
        (employee_failure e 409
           (join '', '' (uniqueness_errors d (get nd ''id'') (get nd ''employeeCode''))), d))"
  using createEmployee_invalid_400 createEmployee_referential_rejected createEmployee_conflict_409
  by blast

theorem createEmployee_conflict_rejected_witness:
  "validateEmployeeInput [(''id'', JNum 9), (''companyId'', JNum 1), (''employeeCode'', JStr ''A'')]
     = Inr [''Full name is required'']
   \<and> createEmployee ex_env ex_db
         [(''id'', JNum 9), (''companyId'', JNum 1), (''employeeCode'', JStr ''A'')]
       = (employee_failure ex_env 400 (join '', '' [''Full name is required'']), ex_db)
   \<and> validateEmployeeInput
         [(''id'', JNum 9), (''companyId'', JNum 2), (''fullName'', JStr ''Zed''),
          (''employeeCode'', JStr ''A'')] = Inr []
   \<and> normalizeEmployeeData ex_env
         [(''id'', JNum 9), (''companyId'', JNum 2), (''fullName'', JStr ''Zed''),
          (''employeeCode'', JStr ''A'')]
       = Inr [(''id'', JNum 9), (''companyId'', JNum 2), (''fullName'', JStr ''Zed''),
              (''employeeCode'', JStr ''A'')]
   \<and> company_missing ex_db (JNum 2)
   \<and> createEmployee ex_env ex_db
         [(''id'', JNum 9), (''companyId'', JNum 2), (''fullName'', JStr ''Zed''),
          (''employeeCode'', JStr ''A'')]
       = (employee_failure ex_env 400 ''Company with ID 2 does not exist'', ex_db)
   \<and> validateEmployeeInput
         [(''id'', JNum 2), (''companyId'', JNum 1), (''fullName'', JStr ''Zed''),
          (''employeeCode'', JStr '' A '')] = Inr []
   \<and> normalizeEmployeeData ex_env
         [(''id'', JNum 2), (''companyId'', JNum 1), (''fullName'', JStr ''Zed''),
          (''employeeCode'', JStr '' A '')]
       = Inr [(''id'', JNum 2), (''companyId'', JNum 1), (''fullName'', JStr ''Zed''),
              (''employeeCode'', JStr ''A'')]
   \<and> \<not> company_missing ex_db (JNum 1) \<and> \<not> user_missing ex_db JUndefined
   \<and> id_taken ex_db (JNum 2) \<and> code_taken ex_db (JStr ''A'')
   \<and> createEmployee ex_env ex_db
         [(''id'', JNum 2), (''companyId'', JNum 1), (''fullName'', JStr ''Zed''),
          (''employeeCode'', JStr '' A '')]
       = (employee_failure ex_env 409
            (''Employee with ID 2 already exists, Employee with code '' @ [CHR 0x27] @ ''A''
             @ [CHR 0x27] @ '' already exists''), ex_db)"
proof -
  let ?r1 = "[(''id'', JNum 9), (''companyId'', JNum 1), (''employeeCode'', JStr ''A'')]"
  let ?r2 = "[(''id'', JNum 9), (''companyId'', JNum 2), (''fullName'', JStr ''Zed''),
              (''employeeCode'', JStr ''A'')]"
  let ?req = "[(''id'', JNum 2), (''companyId'', JNum 1), (''fullName'', JStr ''Zed''),
               (''employeeCode'', JStr '' A '')]"
  let ?nd = "[(''id'', JNum 2), (''companyId'', JNum 1), (''fullName'', JStr ''Zed''),
              (''employeeCode'', JStr ''A'')]"
  have v1: "validateEmployeeInput ?r1 = Inr [''Full name is required'']" by (simp add: ev)
  have g1: "createEmployee ex_env ex_db ?r1
       = (employee_failure ex_env 400 (join '', '' [''Full name is required'']), ex_db)"
    using createEmployee_conflict_rejected
        [where req = ?r1 and errs = "[''Full name is required'']" and e = ex_env and d = ex_db]
      v1 by blast
  have v2: "validateEmployeeInput ?r2 = Inr []" by (simp add: ev)
  have n2: "normalizeEmployeeData ex_env ?r2 = Inr ?r2" by (simp add: ev)
  have c2: "company_missing ex_db (JNum 2)" by (simp add: ev company_missing_def)
  have c2': "company_missing ex_db (get ?r2 ''companyId'')" using c2 by (simp add: get_def)
  have nu: "\<not> user_missing ex_db JUndefined" by (simp add: user_missing_def)
  have e2: "join '', '' (referential_errors ex_db (get ?r2 ''companyId'') (get ?r2 ''userId''))
             = ''Company with ID 2 does not exist''"
    using c2 nu by (simp add: referential_errors_def get_def num_to_string_def
                      magnitude_to_string_def string_of_nat.simps digit_char_def)
  have g2: "createEmployee ex_env ex_db ?r2
       = (employee_failure ex_env 400 ''Company with ID 2 does not exist'', ex_db)"
    using createEmployee_conflict_rejected [where req = ?r2 and nd = ?r2 and e = ex_env and d = ex_db] v2 n2 c2' e2 by simp
  have v: "validateEmployeeInput ?req = Inr []" by (simp add: ev)
  have n: "normalizeEmployeeData ex_env ?req = Inr ?nd" by (simp add: ev)
  have c: "\<not> company_missing ex_db (JNum 1)" by (simp add: ev company_missing_def)
  have i: "id_taken ex_db (JNum 2)" by (simp add: ev id_taken_def)
  have k: "code_taken ex_db (JStr ''A'')" by (simp add: ev code_taken_def)
  have c': "\<not> company_missing ex_db (get ?nd ''companyId'')" using c by (simp add: get_def)
  have u': "\<not> user_missing ex_db (get ?nd ''userId'')" using nu by (simp add: get_def)
  have t: "id_taken ex_db (get ?nd ''id'') \<or> code_taken ex_db (get ?nd ''employeeCode'')"
    using i by (simp add: get_def)
  have e: "join '', '' (uniqueness_errors ex_db (get ?nd ''id'') (get ?nd ''employeeCode''))
             = ''Employee with ID 2 already exists, Employee with code '' @ [CHR 0x27] @ ''A''
               @ [CHR 0x27] @ '' already exists''"
    using i k by (simp add: uniqueness_errors_def get_def num_to_string_def magnitude_to_string_def
                     string_of_nat.simps digit_char_def)
  have g: "createEmployee ex_env ex_db ?req
       = (employee_failure ex_env 409
            (''Employee with ID 2 already exists, Employee with code '' @ [CHR 0x27] @ ''A''
             @ [CHR 0x27] @ '' already exists''), ex_db)"
    using createEmployee_conflict_rejected [where req = ?req and nd = ?nd and e = ex_env and d = ex_db] v n c' u' t e by simp
  from v1 g1 v2 n2 c2 g2 v n c nu i k g show ?thesis by (intro conjI)
qed

section \<open>Updating a task\<close>

lemma map_of_spread:
  "distinct (map fst b) \<Longrightarrow> map_of (spread a b) = map_of a ++ map_of b"
proof (induction b arbitrary: a)
  case Nil
  then show ?case by (simp add: spread_def)
next
  case (Cons kv b)
  obtain k v where kv: "kv = (k, v)" by (cases kv)
  from Cons.prems kv have d: "distinct (map fst b)" and nk: "k \<notin> fst ` set b" by auto
  have "spread a (kv # b) = spread (put k v a) b" by (simp add: spread_def kv)
  then have "map_of (spread a (kv # b)) = map_of (put k v a) ++ map_of b"
    using Cons.IH [OF d] by simp
  also have "\<dots> = (map_of a)(k \<mapsto> v) ++ map_of b" by (simp add: put_def update_conv')
  also have "\<dots> = map_of a ++ map_of (kv # b)"
  proof (rule ext)
    fix x
    from nk have "map_of b k = None" by (simp add: map_of_eq_None_iff)
    then show "((map_of a)(k \<mapsto> v) ++ map_of b) x = (map_of a ++ map_of (kv # b)) x"
      by (auto simp: map_add_def kv split: option.splits)
  qed
  finally show ?case .
qed

lemma get_spread_absent: "k \<notin> fst ` set b \<Longrightarrow> get (spread a b) k = get a k"
proof (induction b arbitrary: a)
  case Nil
  then show ?case by (simp add: spread_def)
next
  case (Cons kv b)
  obtain k' v where kv: "kv = (k', v)" by (cases kv)
  with Cons.prems have "k \<noteq> k'" "k \<notin> fst ` set b" by auto
  moreover have "spread a (kv # b) = spread (put k' v a) b" by (simp add: spread_def kv)
  ultimately show ?case using Cons.IH by (simp add: get_put)
qed


text \<open>A decimal numeral is made of digits, and its digits have its value.\<close>

lemma mod_10_cases:
  "n mod 10 = 0 \<or> n mod 10 = 1 \<or> n mod 10 = 2 \<or> n mod 10 = 3 \<or> n mod 10 = 4
   \<or> n mod 10 = 5 \<or> n mod 10 = 6 \<or> n mod 10 = 7 \<or> n mod 10 = 8 \<or> n mod (10::nat) = 9"
  by arith

lemma digit_char_digit: "is_digit (digit_char n)"
  using mod_10_cases [of n] by (elim disjE) (simp_all add: digit_char_def is_digit_def)

lemma digit_val_digit_char: "digit_val (digit_char n) = n mod 10"
  using mod_10_cases [of n] by (elim disjE) (simp_all add: digit_char_def digit_val_def)

lemma string_of_nat_digits: "list_all is_digit (string_of_nat m)"
  by (induction m rule: string_of_nat.induct)
     (subst string_of_nat.simps, simp add: digit_char_digit)

lemma string_of_nat_nonempty: "string_of_nat m \<noteq> []"
  by (subst string_of_nat.simps) simp

lemma radix_val_snoc: "radix_val b (s @ [c]) = b * radix_val b s + digit_val c"
  by (simp add: radix_val_def)

lemma digits_val_string_of_nat: "digits_val (string_of_nat m) = m"
proof (induction m rule: string_of_nat.induct)
  case (1 n)
  show ?case
  proof (cases "n < 10")
    case True
    then show ?thesis
      by (subst string_of_nat.simps) (simp add: digits_val_def radix_val_def digit_val_digit_char)
  next
    case False
    with 1 have "digits_val (string_of_nat (n div 10)) = n div 10" by simp
    with False show ?thesis
      by (subst string_of_nat.simps)
         (simp add: digits_val_def radix_val_snoc digit_val_digit_char)
  qed
qed

lemma radix_val_zeros: "radix_val b (replicate z (CHR ''0'') @ s) = radix_val b s"
proof -
  have z: "digit_val (CHR ''0'') = 0" by (simp add: digit_val_def)
  have "foldl (\<lambda>a c. b * a + digit_val c) 0 (replicate z (CHR ''0'')) = 0"
    by (induction z) (simp_all add: z)
  then show ?thesis by (simp add: radix_val_def)
qed

lemma zeros_digits: "list_all is_digit (replicate z (CHR ''0''))"
  by (induction z) (simp_all add: is_digit_def)

text \<open>A decimal numeral, with or without zeros in front, is all digits and is parsed to its number.\<close>

lemma numeral_all_digits: "all_digits (replicate z (CHR ''0'') @ string_of_nat m)"
  by (simp add: all_digits_def zeros_digits string_of_nat_digits string_of_nat_nonempty)

lemma parseInt_str_digits:
  assumes "list_all is_digit s" "s \<noteq> []"
  shows "parseInt_str s = JNum (of_nat (digits_val s))"
proof -
  from assms obtain c cs where s: "s = c # cs" by (cases s) auto
  with assms have c: "is_digit c" by simp
  then have "\<not> is_ws c" "c \<noteq> CHR ''-''" "c \<noteq> CHR ''+''"
    by (auto simp: is_digit_def is_ws_def)
  then have 1: "strip_sign (dropWhile is_ws s) = (False, s)" unfolding s by simp
  have 2: "takeWhile is_digit s = s" using assms(1) by (simp add: list_all_iff)
  show ?thesis
    unfolding parseInt_str_def 1 2 Let_def prod.case signed_def using assms(2) by simp
qed

lemma parseInt_numeral:
  "parseInt (JStr (replicate z (CHR ''0'') @ string_of_nat m)) = JNum (of_nat m)"
proof -
  let ?s = "replicate z (CHR ''0'') @ string_of_nat m"
  have "list_all is_digit ?s" by (simp add: zeros_digits string_of_nat_digits)
  moreover have "?s \<noteq> []" by (simp add: string_of_nat_nonempty)
  ultimately have "parseInt_str ?s = JNum (of_nat (digits_val ?s))" by (rule parseInt_str_digits)
  moreover have "digits_val ?s = m"
    unfolding digits_val_def radix_val_zeros using digits_val_string_of_nat [of m]
    by (simp only: digits_val_def)
  ultimately show ?thesis by (simp only: parseInt.simps)
qed

text \<open>The first match of a filter in a collection, and its replacement.\<close>

lemma findOne_first:
  "q old \<Longrightarrow> \<forall>t \<in> set pre. \<not> q t \<Longrightarrow> findOne q (pre @ old # post) = Some old"
  by (induction pre) (simp_all add: findOne_def)

lemma update_first_first:
  "q old \<Longrightarrow> \<forall>t \<in> set pre. \<not> q t \<Longrightarrow>
     update_first t0 q upd (pre @ old # post) = pre @ written t0 old upd # post"
  by (induction pre) simp_all

text \<open>The fields of a written document.\<close>

lemma get_written:
  assumes "distinct (map fst upd)"
  shows "get (written t old upd) k =
           (if k = ''updatedAt'' then JDate (Some t)
            else if k = ''createdAt'' then get old k
            else if k \<in> fst ` set upd then get upd k else get old k)"
proof -
  let ?u = "AList.delete ''createdAt'' upd"
  have d: "distinct (map fst ?u)" using assms by (rule distinct_delete)
  have m: "map_of (spread old ?u) = map_of old ++ (map_of upd)(''createdAt'' := None)"
    by (simp add: map_of_spread [OF d] delete_conv')
  have s: "get (spread old ?u) k = (if k = ''createdAt'' then get old k
            else if k \<in> fst ` set upd then get upd k else get old k)"
  proof (cases "k = ''createdAt''")
    case True
    then show ?thesis by (simp add: get_def m map_add_def)
  next
    case False
    show ?thesis
    proof (cases "map_of upd k")
      case None
      then have "k \<notin> fst ` set upd" by (simp add: map_of_eq_None_iff)
      with None False show ?thesis by (simp add: get_def m map_add_def)
    next
      case (Some v)
      then have "k \<in> fst ` set upd" by (metis map_of_eq_None_iff option.distinct(1))
      with Some False show ?thesis by (simp add: get_def m map_add_def)
    qed
  qed
  show ?thesis unfolding written_def get_put s by simp
qed

lemma task_filter_numeral:
  "task_filter e (replicate z (CHR ''0'') @ string_of_nat m) = Inr (field_eq ''id'' (JNum (of_nat m)))"
  by (simp only: task_filter_def numeral_all_digits parseInt_numeral if_True)

lemma task_filter_identifier:
  assumes "\<exists>c \<in> set pid. \<not> is_digit c" "castObjectId e pid = Some oid"
  shows "task_filter e pid = Inr (field_eq ''_id'' (JStr oid))"
proof -
  from assms(1) have "\<not> all_digits pid" by (auto simp: all_digits_def list_all_iff)
  with assms(2) show ?thesis by (simp add: task_filter_def)
qed

lemma task_defaults:
  assumes "normalizeTaskData e req = Inr upd"
  shows "get upd ''status'' = (if truthy (get req ''status'') then get req ''status'' else JStr ''PLANNED'')"
    and "get upd ''additionalData''
           = (if truthy (get req ''additionalData'') then get req ''additionalData'' else JObj [])"
    and "get upd ''createdAt''
           = (if truthy (get req ''createdAt'') then get req ''createdAt'' else JDate (Some (now e)))"
proof -
  let ?a = "[step_parseInt ''companyId'', step_parseInt ''projectId'', step_parseInt ''createdBy'',
        step_trim ''taskName'' (\<lambda>t. t), step_trim ''description'' (\<lambda>t. t),
        step_trim ''notes'' (\<lambda>t. t), step_parseDate e ''startDate'', step_parseDate e ''endDate'']"
  let ?s = "Default ''status'' (JStr ''PLANNED'')"
  let ?d = "Default ''additionalData'' (JObj [])"
  let ?c = "Default ''createdAt'' (JDate (Some (now e)))"
  have 1: "run (?a @ ?s # [?d, ?c]) req = Inr upd"
    using assms by (simp only: normalizeTaskData_def append.simps)
  have 2: "run ((?a @ [?s]) @ ?d # [?c]) req = Inr upd"
    using assms by (simp only: normalizeTaskData_def append.simps)
  have 3: "run ((?a @ [?s, ?d]) @ ?c # []) req = Inr upd"
    using assms by (simp only: normalizeTaskData_def append.simps)
  have "result ?s (get req (stmt_key ?s)) (get upd (stmt_key ?s))"
    using 1 by (rule run_single) (simp_all add: step_parseInt_def step_trim_def step_parseDate_def)
  then show "get upd ''status'' = (if truthy (get req ''status'') then get req ''status'' else JStr ''PLANNED'')"
    by simp
  have "result ?d (get req (stmt_key ?d)) (get upd (stmt_key ?d))"
    using 2 by (rule run_single) (simp_all add: step_parseInt_def step_trim_def step_parseDate_def)
  then show "get upd ''additionalData''
           = (if truthy (get req ''additionalData'') then get req ''additionalData'' else JObj [])"
    by simp
  have "result ?c (get req (stmt_key ?c)) (get upd (stmt_key ?c))"
    using 3 by (rule run_single) (simp_all add: step_parseInt_def step_trim_def step_parseDate_def)
  then show "get upd ''createdAt''
           = (if truthy (get req ''createdAt'') then get req ''createdAt'' else JDate (Some (now e)))"
    by simp
qed

lemma keys_put_keeps: "fst ` set n \<subseteq> fst ` set (put k v n)"
  unfolding keys_put by blast

lemma exec_keeps:
  assumes "exec st n = Inr n'"
  shows "fst ` set n \<subseteq> fst ` set n'"
proof -
  from assms have "n' = n \<or> (\<exists>k v. n' = put k v n)"
    by (cases st) (auto split: if_splits sum.splits)
  then show ?thesis using keys_put_keeps by blast
qed

lemma run_keeps: "run sts n = Inr q \<Longrightarrow> fst ` set n \<subseteq> fst ` set q"
proof (induction sts arbitrary: n)
  case Nil
  then show ?case by simp
next
  case (Cons st sts)
  from Cons.prems obtain n' where n': "exec st n = Inr n'" "run sts n' = Inr q"
    by (auto split: sum.splits)
  from exec_keeps [OF n'(1)] Cons.IH [OF n'(2)] show ?case by blast
qed

lemma task_update_keeps:
  "normalizeTaskData e req = Inr upd \<Longrightarrow> fst ` set req \<subseteq> fst ` set upd"
  unfolding normalizeTaskData_def by (rule run_keeps)

lemma task_update_keys:
  assumes "normalizeTaskData e req = Inr upd"
  shows "fst ` set upd \<subseteq> fst ` set req \<union> {''status'', ''additionalData'', ''createdAt''}"
proof -
  from assms have "run [step_parseInt ''companyId'', step_parseInt ''projectId'', step_parseInt ''createdBy'',
        step_trim ''taskName'' (\<lambda>t. t), step_trim ''description'' (\<lambda>t. t),
        step_trim ''notes'' (\<lambda>t. t), step_parseDate e ''startDate'', step_parseDate e ''endDate'',
        Default ''status'' (JStr ''PLANNED''), Default ''additionalData'' (JObj []),
        Default ''createdAt'' (JDate (Some (now e)))] req = Inr upd"
    by (simp only: normalizeTaskData_def)
  from run_keys [OF this] show ?thesis
    by (simp add: step_parseInt_def step_trim_def step_parseDate_def)
qed


text \<open>
  C10, as stated: on an update, the fields the normalizer defaults are overwritten with their
  defaults when the body omits them, \<open>createdAt\<close> with the time of the update, and the
  fields outside the normalizer's scope are preserved. The update document does carry the
  time of the update as \<open>createdAt\<close>, but the store writes \<open>createdAt\<close> on insert only:
  the stored \<open>createdAt\<close> stays. The handler adds \<open>updatedAt\<close> to the update after the
  normalizer has run, so that field, which the normalizer never mentions, is overwritten.
  And a body whose \<open>taskName\<close> is a number makes the normalizer throw: the answer is 500
  and the stored status, which the body omits, stays as it is.
\<close>

theorem updateTask_createdAt_counterexample:
  "tasks (snd (updateTask ex_env
           (ex_db\<lparr>tasks := [[(''id'', JNum 3), (''status'', JStr ''IN_PROGRESS''),
                               (''createdAt'', JDate (Some 1700000000000)),
                               (''updatedAt'', JDate (Some 1700000000000))]]\<rparr>)
           ''3'' [(''taskName'', JStr ''dig deeper'')]))
     = [[(''id'', JNum 3), (''status'', JStr ''PLANNED''),
         (''createdAt'', JDate (Some 1700000000000)),
         (''updatedAt'', JDate (Some 1718000000000)), (''taskName'', JStr ''dig deeper''),
         (''additionalData'', JObj [])]]
   \<and> updateTask ex_env ex_db ''3'' [(''taskName'', JNum 5)]
     = (failure 500 ''Error updating task: normalized.taskName.trim is not a function'', ex_db)"
  by (simp add: ev)

text \<open>
  C10, amended: when the body (an object, with distinct keys) is normalized without an
  exception and the route parameter addresses a stored task (by its numeric \<open>id\<close> when the
  parameter is a decimal numeral, by its storage identifier otherwise), the update is
  answered 200 and that task, the first one so addressed, is replaced by a document in
  which \<open>status\<close> is the body's, or \<open>PLANNED\<close> when the body has none or a falsy one;
  \<open>additionalData\<close> is the body's, or the empty object; \<open>createdAt\<close> is the stored
  one; \<open>updatedAt\<close> is the time of the update; every other field of the body has its
  normalized value; and every other field has kept its stored value. No other task changes.
\<close>

theorem updateTask_defaults_overwrite:
  assumes "distinct (map fst req)"
    and "normalizeTaskData e req = Inr upd"
    and "tasks d = pre @ old # post"
    and "(\<exists>z m. pid = replicate z (CHR ''0'') @ string_of_nat m
             \<and> get old ''id'' = JNum (of_nat m) \<and> (\<forall>t \<in> set pre. get t ''id'' \<noteq> JNum (of_nat m)))
         \<or> ((\<exists>c \<in> set pid. \<not> is_digit c)
             \<and> (\<exists>oid. castObjectId e pid = Some oid
                   \<and> get old ''_id'' = JStr oid \<and> (\<forall>t \<in> set pre. get t ''_id'' \<noteq> JStr oid)))"
  shows "\<exists>new. status (fst (updateTask e d pid req)) = 200
      \<and> snd (updateTask e d pid req) = d\<lparr>tasks := pre @ new # post\<rparr>
      \<and> get new ''status''
          = (if truthy (get req ''status'') then get req ''status'' else JStr ''PLANNED'')
      \<and> get new ''additionalData''
          = (if truthy (get req ''additionalData'') then get req ''additionalData'' else JObj [])
      \<and> get new ''createdAt'' = get old ''createdAt''
      \<and> get new ''updatedAt'' = JDate (Some (now e))
      \<and> (\<forall>k. k \<notin> {''status'', ''additionalData'', ''createdAt'', ''updatedAt''} \<longrightarrow>
             get new k = (if k \<in> fst ` set req then get upd k else get old k))"
proof -
  let ?u = "put ''updatedAt'' (JDate (Some (now e))) upd"
  let ?new = "written (now e) old ?u"
  have "distinct (map fst upd)"
    using assms(2) [unfolded normalizeTaskData_def] assms(1) by (rule run_distinct)
  then have du: "distinct (map fst ?u)" by (rule distinct_put)
  note w = get_written [OF du, of "now e" old]
  have ku: "fst ` set ?u = insert ''updatedAt'' (fst ` set upd)" by (rule keys_put)
  have sub: "fst ` set upd \<subseteq> fst ` set req \<union> {''status'', ''additionalData'', ''createdAt''}"
    by (rule task_update_keys [OF assms(2)])
  have sup: "fst ` set req \<subseteq> fst ` set upd" by (rule task_update_keeps [OF assms(2)])
  have ks: "''status'' \<in> fst ` set upd"
    using task_defaults(1) [OF assms(2)] by (intro get_present) (auto split: if_splits)
  have ka: "''additionalData'' \<in> fst ` set upd"
    using task_defaults(2) [OF assms(2)] by (intro get_present) (auto split: if_splits)
  from assms(4) obtain q where q: "task_filter e pid = Inr q" "q old" "\<forall>t \<in> set pre. \<not> q t"
  proof
    assume "\<exists>z m. pid = replicate z (CHR ''0'') @ string_of_nat m
             \<and> get old ''id'' = JNum (of_nat m) \<and> (\<forall>t \<in> set pre. get t ''id'' \<noteq> JNum (of_nat m))"
    then obtain z m where "pid = replicate z (CHR ''0'') @ string_of_nat m"
      "get old ''id'' = JNum (of_nat m)" "\<forall>t \<in> set pre. get t ''id'' \<noteq> JNum (of_nat m)" by blast
    then have "task_filter e pid = Inr (field_eq ''id'' (JNum (of_nat m)))"
      "field_eq ''id'' (JNum (of_nat m)) old" "\<forall>t \<in> set pre. \<not> field_eq ''id'' (JNum (of_nat m)) t"
      by (simp_all add: task_filter_numeral field_eq_def)
    then show ?thesis by (rule that)
  next
    assume "(\<exists>c \<in> set pid. \<not> is_digit c)
             \<and> (\<exists>oid. castObjectId e pid = Some oid
                   \<and> get old ''_id'' = JStr oid \<and> (\<forall>t \<in> set pre. get t ''_id'' \<noteq> JStr oid))"
    then obtain oid where c: "\<exists>c \<in> set pid. \<not> is_digit c" "castObjectId e pid = Some oid"
      and "get old ''_id'' = JStr oid" "\<forall>t \<in> set pre. get t ''_id'' \<noteq> JStr oid" by blast
    then have "task_filter e pid = Inr (field_eq ''_id'' (JStr oid))"
      "field_eq ''_id'' (JStr oid) old" "\<forall>t \<in> set pre. \<not> field_eq ''_id'' (JStr oid) t"
      by (simp_all add: task_filter_identifier [OF c] field_eq_def)
    then show ?thesis by (rule that)
  qed
  have f: "findOneAndUpdate (now e) q ?u (tasks d) = (Some ?new, pre @ ?new # post)"
    unfolding findOneAndUpdate_def assms(3)
    by (simp add: findOne_first [OF q(2,3)] update_first_first [OF q(2,3)])
  have r: "updateTask e d pid req =
         (\<lparr>status = 200,
           body = [(''success'', JBool True), (''message'', JStr ''Task updated successfully''),
                   (''data'', JObj (put ''companyName''
                                     (companyName_of (d\<lparr>tasks := pre @ ?new # post\<rparr>) ?new) ?new))]\<rparr>,
          d\<lparr>tasks := pre @ ?new # post\<rparr>)"
    unfolding updateTask_def by (simp add: assms(2) q(1) f Let_def)
  have "status (fst (updateTask e d pid req)) = 200"
    and "snd (updateTask e d pid req) = d\<lparr>tasks := pre @ ?new # post\<rparr>"
    unfolding r by simp_all
  moreover have "get ?new ''status''
          = (if truthy (get req ''status'') then get req ''status'' else JStr ''PLANNED'')"
    using ks task_defaults(1) [OF assms(2)] by (simp add: w ku get_put)
  moreover have "get ?new ''additionalData''
          = (if truthy (get req ''additionalData'') then get req ''additionalData'' else JObj [])"
    using ka task_defaults(2) [OF assms(2)] by (simp add: w ku get_put)
  moreover have "get ?new ''createdAt'' = get old ''createdAt''" by (simp add: w)
  moreover have "get ?new ''updatedAt'' = JDate (Some (now e))" by (simp add: w)
  moreover have "\<forall>k. k \<notin> {''status'', ''additionalData'', ''createdAt'', ''updatedAt''} \<longrightarrow>
             get ?new k = (if k \<in> fst ` set req then get upd k else get old k)"
  proof (intro allI impI)
    fix k assume k: "k \<notin> {''status'', ''additionalData'', ''createdAt'', ''updatedAt''}"
    with sub sup have "k \<in> fst ` set upd \<longleftrightarrow> k \<in> fst ` set req" by blast
    with k show "get ?new k = (if k \<in> fst ` set req then get upd k else get old k)"
      by (simp add: w ku get_put)
  qed
  ultimately show ?thesis by blast
qed

theorem updateTask_defaults_overwrite_witness:
  "distinct (map fst [(''taskName'', JStr '' dig deeper '')])
   \<and> normalizeTaskData ex_env [(''taskName'', JStr '' dig deeper '')]
       = Inr [(''taskName'', JStr ''dig deeper''), (''status'', JStr ''PLANNED''),
              (''additionalData'', JObj []), (''createdAt'', JDate (Some (now ex_env)))]
   \<and> tasks ex_db = [] @ hd (tasks ex_db) # tl (tasks ex_db)
   \<and> ''3'' = replicate 0 (CHR ''0'') @ string_of_nat 3
   \<and> get (hd (tasks ex_db)) ''id'' = JNum (of_nat 3)
   \<and> get (hd (tasks ex_db)) ''status'' = JStr ''IN_PROGRESS''
   \<and> get (hd (tasks ex_db)) ''priority'' = JStr ''high''
   \<and> get (hd (tasks ex_db)) ''createdAt'' = JDate (Some 1700000000000)
   \<and> (\<exists>new. status (fst (updateTask ex_env ex_db ''3'' [(''taskName'', JStr '' dig deeper '')])) = 200
        \<and> snd (updateTask ex_env ex_db ''3'' [(''taskName'', JStr '' dig deeper '')])
            = ex_db\<lparr>tasks := [] @ new # tl (tasks ex_db)\<rparr>
        \<and> get new ''status'' = JStr ''PLANNED''
        \<and> get new ''additionalData'' = JObj []
        \<and> get new ''createdAt'' = JDate (Some 1700000000000)
        \<and> get new ''updatedAt'' = JDate (Some 1718000000000)
        \<and> get new ''taskName'' = JStr ''dig deeper''
        \<and> get new ''priority'' = JStr ''high'')"
proof -
  let ?req = "[(''taskName'', JStr '' dig deeper '')]"
  let ?upd = "[(''taskName'', JStr ''dig deeper''), (''status'', JStr ''PLANNED''),
              (''additionalData'', JObj []), (''createdAt'', JDate (Some (now ex_env)))]"
  let ?old = "hd (tasks ex_db)"
  have a: "distinct (map fst ?req)" by simp
  have b: "normalizeTaskData ex_env ?req = Inr ?upd" by (simp add: ev)
  have c: "tasks ex_db = [] @ ?old # tl (tasks ex_db)" by (simp add: ev)
  have n: "''3'' = replicate 0 (CHR ''0'') @ string_of_nat 3" by (simp add: ev)
  have i: "get ?old ''id'' = JNum (of_nat 3)" by (simp add: ev)
  have g1: "get ?old ''status'' = JStr ''IN_PROGRESS''" by (simp add: ev)
  have g2: "get ?old ''priority'' = JStr ''high''" by (simp add: ev)
  have g3: "get ?old ''createdAt'' = JDate (Some 1700000000000)" by (simp add: ev)
  have "\<exists>z m. ''3'' = replicate z (CHR ''0'') @ string_of_nat m
             \<and> get ?old ''id'' = JNum (of_nat m) \<and> (\<forall>t \<in> set []. get t ''id'' \<noteq> JNum (of_nat m))"
  proof (intro exI conjI)
    show "''3'' = replicate 0 (CHR ''0'') @ string_of_nat 3" by (rule n)
    show "get ?old ''id'' = JNum (of_nat 3)" by (rule i)
    show "\<forall>t \<in> set []. get t ''id'' \<noteq> JNum (of_nat 3)" by simp
  qed
  then have d: "(\<exists>z m. ''3'' = replicate z (CHR ''0'') @ string_of_nat m
             \<and> get ?old ''id'' = JNum (of_nat m) \<and> (\<forall>t \<in> set []. get t ''id'' \<noteq> JNum (of_nat m)))
         \<or> ((\<exists>c \<in> set ''3''. \<not> is_digit c)
             \<and> (\<exists>oid. castObjectId ex_env ''3'' = Some oid
                   \<and> get ?old ''_id'' = JStr oid \<and> (\<forall>t \<in> set []. get t ''_id'' \<noteq> JStr oid)))"
    by (rule disjI1)
  from updateTask_defaults_overwrite [OF a b c d] obtain new
    where r: "status (fst (updateTask ex_env ex_db ''3'' ?req)) = 200"
      "snd (updateTask ex_env ex_db ''3'' ?req) = ex_db\<lparr>tasks := [] @ new # tl (tasks ex_db)\<rparr>"
      "get new ''status''
         = (if truthy (get ?req ''status'') then get ?req ''status'' else JStr ''PLANNED'')"
      "get new ''additionalData''
         = (if truthy (get ?req ''additionalData'') then get ?req ''additionalData'' else JObj [])"
      "get new ''createdAt'' = get ?old ''createdAt''"
      "get new ''updatedAt'' = JDate (Some (now ex_env))"
      "\<forall>k. k \<notin> {''status'', ''additionalData'', ''createdAt'', ''updatedAt''} \<longrightarrow>
             get new k = (if k \<in> fst ` set ?req then get ?upd k else get ?old k)"
    by blast
  have s1: "get new ''status'' = JStr ''PLANNED''" using r(3) by (simp add: get_def)
  have s2: "get new ''additionalData'' = JObj []" using r(4) by (simp add: get_def)
  have s3: "get new ''createdAt'' = JDate (Some 1700000000000)" using r(5) g3 by simp
  have s4: "get new ''updatedAt'' = JDate (Some 1718000000000)" using r(6) by (simp add: ev)
  have s5: "get new ''taskName'' = JStr ''dig deeper''"
    using r(7) [rule_format, of "''taskName''"] by (simp add: get_def)
  have s6: "get new ''priority'' = JStr ''high''"
    using r(7) [rule_format, of "''priority''"] g2 by simp
  show ?thesis
    using a b c n i g1 g2 g3 r(1,2) s1 s2 s3 s4 s5 s6 by blast
qed

section \<open>Listing tasks by status\<close>

lemma getAllTasks_status_only:
  assumes "s \<noteq> []"
  shows "getAllTasks e d [(''status'', JStr s)]
           = tasks_page d (take 1000 (sort_tasks (matching_status d s))) (length (matching_status d s))"
proof -
  have q: "tasks_query e [(''status'', JStr s)] = Inr (field_eq ''status'' (JStr (toUpperCase s)))"
    using assms by (simp add: tasks_query_def upper_filter_def get_def)
  show ?thesis
    by (simp add: getAllTasks_def q get_def js_or_def num_of_def skip_limit_def Let_def
          tasks_page_def matching_status_def)
qed

lemma mset_sort_tasks: "mset (sort_tasks docs) = mset docs"
  by (simp add: sort_tasks_def)

lemma length_sort_tasks: "length (sort_tasks docs) = length docs"
  by (simp add: sort_tasks_def)


text \<open>
  C9, as stated: the listing with a status parameter returns exactly the stored tasks whose
  status is the upper-cased parameter. The listing is paginated, with a limit of 1000 when the
  request names none: of 1001 planned tasks, \<open>?status=planned\<close> returns 1000.
\<close>

theorem getAllTasks_page_counterexample:
  "length (filter (field_eq ''status'' (JStr ''PLANNED'')) many_tasks) = 1001
   \<and> (case get (body (getAllTasks ex_env (ex_db\<lparr>tasks := many_tasks\<rparr>) [(''status'', JStr ''planned'')]))
              ''data'' of
        JArr xs \<Rightarrow> length xs = 1000
      | _ \<Rightarrow> False)"
proof -
  have u: "toUpperCase ''planned'' = ''PLANNED''" by (simp add: ev)
  have all: "filter (field_eq ''status'' (JStr ''PLANNED'')) many_tasks = many_tasks"
    by (simp add: many_tasks_def field_eq_def get_def filter_map o_def)
  have len: "length many_tasks = 1001" by (simp add: many_tasks_def)
  have m: "matching_status (ex_db\<lparr>tasks := many_tasks\<rparr>) ''planned'' = many_tasks"
    by (simp add: matching_status_def u all)
  have "getAllTasks ex_env (ex_db\<lparr>tasks := many_tasks\<rparr>) [(''status'', JStr ''planned'')]
          = tasks_page (ex_db\<lparr>tasks := many_tasks\<rparr>) (take 1000 (sort_tasks many_tasks)) 1001"
    using getAllTasks_status_only [of "''planned''" ex_env "ex_db\<lparr>tasks := many_tasks\<rparr>"]
    by (simp add: m len)
  then have "get (body (getAllTasks ex_env (ex_db\<lparr>tasks := many_tasks\<rparr>) [(''status'', JStr ''planned'')]))
              ''data'' = JArr (map JObj (map (with_details (ex_db\<lparr>tasks := many_tasks\<rparr>))
                           (take 1000 (sort_tasks many_tasks))))"
    by (simp add: tasks_page_def get_def)
  then show ?thesis by (simp add: all len length_sort_tasks)
qed

text \<open>Sorting, naming and paging.\<close>

lemma insort_key_lex:
  assumes "sorted_wrt (\<lambda>a b. f a < f b \<or> (f a = f b \<and> R a b)) zs"
    and "\<forall>y \<in> set zs. R x y"
  shows "sorted_wrt (\<lambda>a b. f a < f b \<or> (f a = f b \<and> R a b)) (insort_key f x zs)"
  using assms
proof (induction zs)
  case Nil
  then show ?case by simp
next
  case (Cons y ys)
  show ?case
  proof (cases "f x \<le> f y")
    case True
    have "\<forall>z \<in> set (y # ys). f x < f z \<or> (f x = f z \<and> R x z)"
    proof
      fix z assume z: "z \<in> set (y # ys)"
      then have "f y \<le> f z" using Cons.prems(1) by auto
      with True have "f x \<le> f z" by simp
      moreover have "R x z" using Cons.prems(2) z by blast
      ultimately show "f x < f z \<or> (f x = f z \<and> R x z)" by auto
    qed
    with True Cons.prems(1) show ?thesis by simp
  next
    case False
    then have "f y < f x" by simp
    moreover have "sorted_wrt (\<lambda>a b. f a < f b \<or> (f a = f b \<and> R a b)) (insort_key f x ys)"
      using Cons by simp
    ultimately show ?thesis using False Cons.prems(1) by (auto simp: set_insort_key)
  qed
qed

lemma sort_key_lex:
  "sorted_wrt R xs \<Longrightarrow> sorted_wrt (\<lambda>a b. f a < f b \<or> (f a = f b \<and> R a b)) (sort_key f xs)"
proof (induction xs)
  case Nil
  then show ?case by simp
next
  case (Cons x xs)
  then have "sorted_wrt (\<lambda>a b. f a < f b \<or> (f a = f b \<and> R a b)) (sort_key f xs)"
    and "\<forall>y \<in> set (sort_key f xs). R x y" by simp_all
  then show ?case by (simp add: insort_key_lex)
qed

lemma newest_first_sort_tasks: "newest_first (sort_tasks docs)"
proof -
  let ?k2 = "\<lambda>doc. - num_of (get doc ''id'')"
  let ?k1 = "\<lambda>doc. - created_time doc"
  have "sorted (map ?k2 (sort_key ?k2 docs))" by (rule sorted_sort_key)
  then have "sorted_wrt (\<lambda>a b. ?k2 a \<le> ?k2 b) (sort_key ?k2 docs)" by (simp add: sorted_map)
  then have "sorted_wrt (\<lambda>a b. ?k1 a < ?k1 b \<or> (?k1 a = ?k1 b \<and> ?k2 a \<le> ?k2 b))
               (sort_key ?k1 (sort_key ?k2 docs))"
    by (rule sort_key_lex)
  moreover have "(\<lambda>a b. ?k1 a < ?k1 b \<or> (?k1 a = ?k1 b \<and> ?k2 a \<le> ?k2 b)) = newer"
    by (intro ext) (auto simp: newer_def)
  ultimately show ?thesis by (simp add: newest_first_def sort_tasks_def)
qed

lemma name_or_findOne:
  "name_or (findOne (field_eq ''id'' i) docs) unknown = name_in docs i unknown"
proof (induction docs)
  case Nil
  then show ?case by (simp add: name_or_def name_in_def findOne_def)
next
  case (Cons doc docs)
  then show ?case by (simp add: name_or_def name_in_def findOne_def field_eq_def)
qed

lemma names_attached_with_details: "names_attached d task (with_details d task)"
  by (simp add: names_attached_def with_details_def get_put companyName_of_def
        projectName_of_def name_or_findOne)

lemma string_of_nat_not_hex:
  "take 2 (string_of_nat n) \<noteq> ''0x''" "take 2 (string_of_nat n) \<noteq> ''0X''"
proof -
  have d: "\<forall>c \<in> set (take 2 (string_of_nat n)). is_digit c"
    using string_of_nat_digits [of n] set_take_subset [of 2 "string_of_nat n"]
    unfolding list_all_iff by blast
  show "take 2 (string_of_nat n) \<noteq> ''0x''"
  proof
    assume "take 2 (string_of_nat n) = ''0x''"
    with d have "is_digit (CHR ''x'')" by simp
    then show False by (simp add: is_digit_def)
  qed
  show "take 2 (string_of_nat n) \<noteq> ''0X''"
  proof
    assume "take 2 (string_of_nat n) = ''0X''"
    with d have "is_digit (CHR ''X'')" by simp
    then show False by (simp add: is_digit_def)
  qed
qed

lemma parseInt_auto_numeral: "parseInt_auto (JStr (string_of_nat n)) = JNum (of_nat n)"
proof -
  let ?s = "string_of_nat n"
  obtain c cs where s: "?s = c # cs" using string_of_nat_nonempty [of n] by (cases ?s) auto
  with string_of_nat_digits [of n] have "is_digit c" by simp
  then have "\<not> is_ws c" "c \<noteq> CHR ''-''" "c \<noteq> CHR ''+''"
    by (auto simp: is_digit_def is_ws_def)
  then have 1: "strip_sign (dropWhile is_ws ?s) = (False, ?s)" unfolding s by simp
  have "parseInt_auto_str ?s = parseInt_str ?s"
    unfolding parseInt_auto_str_def 1 prod.case Let_def using string_of_nat_not_hex [of n] by simp
  moreover have "parseInt_str ?s = JNum (of_nat n)"
    using parseInt_numeral [of 0 n] by simp
  ultimately show ?thesis by simp
qed

lemma numeral_or_parsed:
  assumes "numeral_or v preset n" "0 < preset"
  shows "js_or (parseInt_auto v) (JNum (of_nat preset)) = JNum (of_nat n)" "0 < n"
proof -
  from assms(1) consider "v = JUndefined" "n = preset" | "0 < n" "v = JStr (string_of_nat n)"
    unfolding numeral_or_def by blast
  then show "js_or (parseInt_auto v) (JNum (of_nat preset)) = JNum (of_nat n)"
  proof cases
    case 1
    then show ?thesis by (simp add: js_or_def)
  next
    case 2
    have "parseInt_auto v = JNum (of_nat n)" unfolding 2(2) by (rule parseInt_auto_numeral)
    with 2(1) show ?thesis by (simp add: js_or_def)
  qed
  from assms show "0 < n" unfolding numeral_or_def by blast
qed

lemma tasks_query_status:
  assumes "get q ''status'' = JStr s" "s \<noteq> []"
    and "\<not> truthy (get q ''companyId'')" "\<not> truthy (get q ''projectId'')"
    and "\<not> truthy (get q ''taskType'')"
    and "\<not> (truthy (get q ''startDate'') \<and> truthy (get q ''endDate''))"
  shows "\<exists>query. tasks_query e q = Inr query
           \<and> filter query docs = filter (\<lambda>t. get t ''status'' = JStr (toUpperCase s)) docs"
proof -
  have 1: "upper_filter ''status'' (get q ''status'') = Inr (field_eq ''status'' (JStr (toUpperCase s)))"
    using assms(1,2) by (simp add: upper_filter_def)
  have 2: "upper_filter ''taskType'' (get q ''taskType'') = Inr (\<lambda>doc. True)"
    using assms(5) by (simp add: upper_filter_def)
  let ?query = "\<lambda>doc.
                  (truthy (get q ''companyId'')
                     \<longrightarrow> field_eq ''companyId'' (parseInt_auto (get q ''companyId'')) doc)
                  \<and> (truthy (get q ''projectId'')
                     \<longrightarrow> field_eq ''projectId'' (parseInt_auto (get q ''projectId'')) doc)
                  \<and> field_eq ''status'' (JStr (toUpperCase s)) doc \<and> True
                  \<and> (truthy (get q ''startDate'') \<and> truthy (get q ''endDate'')
                     \<longrightarrow> date_between e (get q ''startDate'') (get q ''endDate'') doc)"
  have "tasks_query e q = Inr ?query"
    unfolding tasks_query_def 1 2 by simp
  moreover have "filter ?query docs = filter (\<lambda>t. get t ''status'' = JStr (toUpperCase s)) docs"
    using assms(3,4,6) by (intro filter_cong refl) (auto simp: field_eq_def)
  ultimately show ?thesis by blast
qed

lemma skip_limit_page:
  assumes "0 < page"
  shows "skip_limit ((of_nat page - 1) * of_nat limit) (of_nat limit) docs
           = Inr (page_of page limit docs)"
proof -
  have "(of_nat page - 1 :: rat) * of_nat limit = of_nat ((page - 1) * limit)"
    using assms by (simp add: of_nat_diff)
  then show ?thesis by (simp add: skip_limit_def page_of_def del: of_nat_mult)
qed

lemma page_of_map: "page_of page limit (map f docs) = map f (page_of page limit docs)"
  by (simp add: page_of_def take_map drop_map)

text \<open>
  C9, amended: for a request whose status parameter is a non-empty string, in any letter
  case, that names no other filter, and whose \<open>page\<close> and \<open>limit\<close> are absent (then 1 and
  1000) or decimal numerals of positive numbers, the handler answers 200 with the requested
  page of the stored tasks whose status equals the upper-cased value, taken newest first and
  each with the names of its company and project attached, and with the page, the limit, the
  number of those tasks and the number of pages. The first page holds all of them whenever
  they are no more than the limit.
\<close>

theorem getAllTasks_status_filter:
  assumes "get q ''status'' = JStr s" "s \<noteq> []"
    and "\<not> truthy (get q ''companyId'')" "\<not> truthy (get q ''projectId'')"
    and "\<not> truthy (get q ''taskType'')"
    and "\<not> (truthy (get q ''startDate'') \<and> truthy (get q ''endDate''))"
    and "numeral_or (get q ''page'') 1 page" "numeral_or (get q ''limit'') 1000 limit"
  shows "\<exists>sorted shown.
      mset sorted = mset (filter (\<lambda>t. get t ''status'' = JStr (toUpperCase s)) (tasks d))
      \<and> newest_first sorted
      \<and> list_all2 (names_attached d) sorted shown
      \<and> getAllTasks e d q
          = \<lparr>status = 200,
             body = [(''success'', JBool True),
                     (''data'', JArr (map JObj (page_of page limit shown))),
                     (''pagination'',
                        JObj [(''page'', JNum (of_nat page)),
                              (''limit'', JNum (of_nat limit)),
                              (''total'', JNum (of_nat (length sorted))),
                              (''pages'',
                                 JNum (of_int \<lceil>(of_nat (length sorted) / of_nat limit :: rat)\<rceil>))])]\<rparr>
      \<and> (page = 1 \<and> length sorted \<le> limit \<longrightarrow> page_of page limit shown = shown)"
proof -
  let ?matching = "filter (\<lambda>t. get t ''status'' = JStr (toUpperCase s)) (tasks d)"
  let ?sorted = "sort_tasks ?matching"
  let ?shown = "map (with_details d) ?sorted"
  obtain query where query: "tasks_query e q = Inr query" "filter query (tasks d) = ?matching"
    using tasks_query_status [OF assms(1-6)] by blast
  have p: "js_or (parseInt_auto (get q ''page'')) (JNum 1) = JNum (of_nat page)" "0 < page"
    using numeral_or_parsed [OF assms(7)] by simp_all
  have l: "js_or (parseInt_auto (get q ''limit'')) (JNum 1000) = JNum (of_nat limit)" "0 < limit"
    using numeral_or_parsed [OF assms(8)] by simp_all
  have 1: "mset ?sorted = mset ?matching" by (rule mset_sort_tasks)
  have 2: "newest_first ?sorted" by (rule newest_first_sort_tasks)
  have 3: "list_all2 (names_attached d) ?sorted ?shown"
    by (simp add: list_all2_map2 list_all2_same names_attached_with_details)
  have 4: "getAllTasks e d q
          = \<lparr>status = 200,
             body = [(''success'', JBool True),
                     (''data'', JArr (map JObj (page_of page limit ?shown))),
                     (''pagination'',
                        JObj [(''page'', JNum (of_nat page)),
                              (''limit'', JNum (of_nat limit)),
                              (''total'', JNum (of_nat (length ?sorted))),
                              (''pages'',
                                 JNum (of_int \<lceil>(of_nat (length ?sorted) / of_nat limit :: rat)\<rceil>))])]\<rparr>"
    unfolding getAllTasks_def p(1) l(1) query(1) Let_def
    by (simp add: query(2) num_of_def skip_limit_page [OF p(2)] page_of_map length_sort_tasks)
  have 5: "page = 1 \<and> length ?sorted \<le> limit \<longrightarrow> page_of page limit ?shown = ?shown"
    by (simp add: page_of_def)
  from 1 2 3 4 5 show ?thesis by blast
qed

theorem getAllTasks_status_filter_witness:
  "get [(''status'', JStr ''planned''), (''page'', JStr ''2''), (''limit'', JStr ''2'')] ''status''
     = JStr ''planned''
   \<and> ''planned'' \<noteq> []
   \<and> numeral_or (JStr ''2'') 1 2 \<and> numeral_or (JStr ''2'') 1000 2
   \<and> toUpperCase ''planned'' = ''PLANNED''
   \<and> (\<exists>sorted shown.
        mset sorted = mset (filter (\<lambda>t. get t ''status'' = JStr ''PLANNED'') (tasks ex_listing))
        \<and> newest_first sorted
        \<and> list_all2 (names_attached ex_listing) sorted shown
        \<and> length sorted = 4
        \<and> JArr (map JObj (page_of 2 2 shown))
            = get (body (getAllTasks ex_env ex_listing
                           [(''status'', JStr ''planned''), (''page'', JStr ''2''),
                            (''limit'', JStr ''2'')])) ''data'')
   \<and> getAllTasks ex_env ex_listing
         [(''status'', JStr ''planned''), (''page'', JStr ''2''), (''limit'', JStr ''2'')]
       = \<lparr>status = 200,
          body = [(''success'', JBool True),
                  (''data'',
                     JArr [JObj [(''id'', JNum 5), (''companyId'', JNum 1), (''projectId'', JNum 4),
                                 (''status'', JStr ''PLANNED''), (''createdAt'', JDate (Some 2000)),
                                 (''companyName'', JStr ''Acme''), (''projectName'', JStr ''Depot'')],
                           JObj [(''id'', JNum 1), (''companyId'', JNum 9), (''projectId'', JNum 4),
                                 (''status'', JStr ''PLANNED''), (''createdAt'', JDate (Some 1000)),
                                 (''companyName'', JStr ''Unknown Company''),
                                 (''projectName'', JStr ''Depot'')]]),
                  (''pagination'',
                     JObj [(''page'', JNum 2), (''limit'', JNum 2), (''total'', JNum 4),
                           (''pages'', JNum 2)])]\<rparr>"
proof -
  let ?q = "[(''status'', JStr ''planned''), (''page'', JStr ''2''), (''limit'', JStr ''2'')]"
  have a1: "get ?q ''status'' = JStr ''planned''" by (simp add: get_def)
  have a2: "''planned'' \<noteq> []" by simp
  have a3: "\<not> truthy (get ?q ''companyId'')" by (simp add: get_def)
  have a4: "\<not> truthy (get ?q ''projectId'')" by (simp add: get_def)
  have a5: "\<not> truthy (get ?q ''taskType'')" by (simp add: get_def)
  have a6: "\<not> (truthy (get ?q ''startDate'') \<and> truthy (get ?q ''endDate''))" by (simp add: get_def)
  have n1: "numeral_or (JStr ''2'') 1 2" by (simp add: numeral_or_def ev)
  have n2: "numeral_or (JStr ''2'') 1000 2" by (simp add: numeral_or_def ev)
  have a7: "numeral_or (get ?q ''page'') 1 2" using n1 by (simp add: get_def)
  have a8: "numeral_or (get ?q ''limit'') 1000 2" using n2 by (simp add: get_def)
  have u: "toUpperCase ''planned'' = ''PLANNED''" by (simp add: ev)
  have len: "length (filter (\<lambda>t. get t ''status'' = JStr ''PLANNED'') (tasks ex_listing)) = 4"
    by (simp add: ev)
  from getAllTasks_status_filter [where e = ex_env and d = ex_listing, OF a1 a2 a3 a4 a5 a6 a7 a8]
  obtain sorted shown where r:
    "mset sorted = mset (filter (\<lambda>t. get t ''status'' = JStr ''PLANNED'') (tasks ex_listing))"
    "newest_first sorted" "list_all2 (names_attached ex_listing) sorted shown"
    "getAllTasks ex_env ex_listing ?q
          = \<lparr>status = 200,
             body = [(''success'', JBool True),
                     (''data'', JArr (map JObj (page_of 2 2 shown))),
                     (''pagination'',
                        JObj [(''page'', JNum (of_nat 2)),
                              (''limit'', JNum (of_nat 2)),
                              (''total'', JNum (of_nat (length sorted))),
                              (''pages'',
                                 JNum (of_int \<lceil>(of_nat (length sorted) / of_nat 2 :: rat)\<rceil>))])]\<rparr>"
    unfolding u by blast
  have l4: "length sorted = 4" using r(1) len by (metis size_mset)
  have d: "JArr (map JObj (page_of 2 2 shown)) = get (body (getAllTasks ex_env ex_listing ?q)) ''data''"
    unfolding r(4) by (simp add: get_def)
  have ex: "\<exists>sorted shown.
        mset sorted = mset (filter (\<lambda>t. get t ''status'' = JStr ''PLANNED'') (tasks ex_listing))
        \<and> newest_first sorted
        \<and> list_all2 (names_attached ex_listing) sorted shown
        \<and> length sorted = 4
        \<and> JArr (map JObj (page_of 2 2 shown)) = get (body (getAllTasks ex_env ex_listing ?q)) ''data''"
    using r(1,2,3) l4 d by blast
  have g: "getAllTasks ex_env ex_listing ?q
       = \<lparr>status = 200,
          body = [(''success'', JBool True),
                  (''data'',
                     JArr [JObj [(''id'', JNum 5), (''companyId'', JNum 1), (''projectId'', JNum 4),
                                 (''status'', JStr ''PLANNED''), (''createdAt'', JDate (Some 2000)),
                                 (''companyName'', JStr ''Acme''), (''projectName'', JStr ''Depot'')],
                           JObj [(''id'', JNum 1), (''companyId'', JNum 9), (''projectId'', JNum 4),
                                 (''status'', JStr ''PLANNED''), (''createdAt'', JDate (Some 1000)),
                                 (''companyName'', JStr ''Unknown Company''),
                                 (''projectName'', JStr ''Depot'')]]),
                  (''pagination'',
                     JObj [(''page'', JNum 2), (''limit'', JNum 2), (''total'', JNum 4),
                           (''pages'', JNum 2)])]\<rparr>"
    by (simp add: ev)
  from a1 a2 n1 n2 u ex g show ?thesis by (intro conjI)
qed

section \<open>Normalizing twice\<close>

subsection \<open>Strings\<close>

lemma trim_tidy: "tidy (trim s)"
proof (cases "trim s = []")
  case True
  then show ?thesis by (simp add: tidy_def)
next
  case False
  let ?u = "dropWhile is_ws s"
  let ?v = "dropWhile is_ws (rev ?u)"
  from False have v: "?v \<noteq> []" by (simp add: trim_def)
  have u: "?u \<noteq> []"
  proof
    assume e: "?u = []"
    have "?v = []" unfolding e by simp
    with v show False by (simp only:)
  qed
  have "last (trim s) = hd ?v" by (simp add: trim_def last_rev)
  moreover have "\<not> is_ws (hd ?v)" using v hd_dropWhile by blast
  moreover have "hd (trim s) = last ?v" using v by (simp add: trim_def hd_rev)
  moreover have "last ?v = last (rev ?u)" using v by (rule last_dropWhile_nonempty)
  moreover have "last (rev ?u) = hd ?u" using u by (simp add: last_rev)
  moreover have "\<not> is_ws (hd ?u)" using u hd_dropWhile by blast
  ultimately show ?thesis by (simp add: tidy_def)
qed

lemma trim_of_tidy: "tidy t \<Longrightarrow> trim t = t"
proof (cases "t = []")
  case True
  then show ?thesis by (simp add: trim_def)
next
  case False
  assume "tidy t"
  with False have h: "\<not> is_ws (hd t)" and l: "\<not> is_ws (last t)" by (simp_all add: tidy_def)
  from False h have 1: "dropWhile is_ws t = t" by (cases t) auto
  from False l have "\<not> is_ws (hd (rev t))" by (simp add: hd_rev)
  with False have 2: "dropWhile is_ws (rev t) = rev t" by (cases "rev t") auto
  show ?thesis by (simp add: trim_def 1 2)
qed

lemma single_spaced_collapse: "single_spaced prev (collapse_from prev s)"
  by (induction s arbitrary: prev) (auto simp: is_ws_def)

lemma collapse_of_single_spaced: "single_spaced prev t \<Longrightarrow> collapse_from prev t = t"
  by (induction t arbitrary: prev) (auto split: if_splits)

lemma collapse_last:
  "u \<noteq> [] \<Longrightarrow> \<not> is_ws (last u) \<Longrightarrow> collapse_from prev u \<noteq> [] \<and> last (collapse_from prev u) = last u"
proof (induction u arbitrary: prev)
  case Nil
  then show ?case by simp
next
  case (Cons c cs)
  show ?case
  proof (cases "cs = []")
    case True
    with Cons.prems show ?thesis by simp
  next
    case False
    with Cons.prems have "\<not> is_ws (last cs)" by simp
    with Cons.IH False have "\<And>p. collapse_from p cs \<noteq> [] \<and> last (collapse_from p cs) = last cs"
      by blast
    with False show ?thesis by simp
  qed
qed

lemma collapse_tidy: "tidy u \<Longrightarrow> tidy (collapse_ws u)"
proof (cases "u = []")
  case True
  then show ?thesis by (simp add: collapse_ws_def tidy_def)
next
  case False
  assume "tidy u"
  with False have h: "\<not> is_ws (hd u)" and l: "\<not> is_ws (last u)" by (simp_all add: tidy_def)
  from False l have "collapse_from False u \<noteq> [] \<and> last (collapse_from False u) = last u"
    by (rule collapse_last)
  moreover from False h have "hd (collapse_from False u) = hd u" by (cases u) auto
  ultimately show ?thesis using h l by (simp add: collapse_ws_def tidy_def)
qed

lemma collapse_stable: "collapse_ws (trim (collapse_ws (trim s))) = collapse_ws (trim s)"
proof -
  have "tidy (collapse_ws (trim s))" using trim_tidy by (rule collapse_tidy)
  then have "trim (collapse_ws (trim s)) = collapse_ws (trim s)" by (rule trim_of_tidy)
  moreover have "collapse_ws (collapse_ws (trim s)) = collapse_ws (trim s)"
    unfolding collapse_ws_def by (rule collapse_of_single_spaced) (rule single_spaced_collapse)
  ultimately show ?thesis by simp
qed

lemma digits_tidy: "tidy (filter is_digit t)"
proof (cases "filter is_digit t = []")
  case True
  then show ?thesis by (simp add: tidy_def)
next
  case False
  have d: "\<And>c. c \<in> set (filter is_digit t) \<Longrightarrow> \<not> is_ws c"
    by (auto simp: is_digit_def is_ws_def)
  have "\<not> is_ws (hd (filter is_digit t))" using hd_in_set [OF False] by (rule d)
  moreover have "\<not> is_ws (last (filter is_digit t))" using last_in_set [OF False] by (rule d)
  ultimately show ?thesis by (simp add: tidy_def)
qed

lemma digits_stable:
  "strip_non_digits (trim (strip_non_digits (trim s))) = strip_non_digits (trim s)"
  by (simp add: strip_non_digits_def trim_of_tidy [OF digits_tidy])

lemma lower_not_ws: "c \<in> set ''abcdefghijklmnopqrstuvwxyz'' \<Longrightarrow> \<not> is_ws c"
  by (auto simp: is_ws_def)

lemma upper_not_ws: "c \<in> set ''ABCDEFGHIJKLMNOPQRSTUVWXYZ'' \<Longrightarrow> \<not> is_ws c"
  by (auto simp: is_ws_def)

lemma upper_not_lower:
  "c \<in> set ''ABCDEFGHIJKLMNOPQRSTUVWXYZ'' \<Longrightarrow> c \<notin> set ''abcdefghijklmnopqrstuvwxyz''"
  by auto

lemma upper_char_cases:
  "upper_char c = c \<or> (c \<in> set ''abcdefghijklmnopqrstuvwxyz''
                          \<and> upper_char c \<in> set ''ABCDEFGHIJKLMNOPQRSTUVWXYZ'')"
proof (cases "map_of (zip ''abcdefghijklmnopqrstuvwxyz'' ''ABCDEFGHIJKLMNOPQRSTUVWXYZ'') c")
  case None
  then have "upper_char c = c" by (simp only: upper_char_def option.case)
  then show ?thesis by (rule disjI1)
next
  case (Some u)
  then have "(c, u) \<in> set (zip ''abcdefghijklmnopqrstuvwxyz'' ''ABCDEFGHIJKLMNOPQRSTUVWXYZ'')"
    by (rule map_of_SomeD)
  then have "c \<in> set ''abcdefghijklmnopqrstuvwxyz''" "u \<in> set ''ABCDEFGHIJKLMNOPQRSTUVWXYZ''"
    by (rule set_zip_leftD, rule set_zip_rightD)
  moreover from Some have "upper_char c = u" by (simp only: upper_char_def option.case)
  ultimately show ?thesis by (simp only:) blast
qed

lemma upper_char_fixed:
  assumes "c \<notin> set ''abcdefghijklmnopqrstuvwxyz''"
  shows "upper_char c = c"
  using upper_char_cases [of c] assms by blast

lemma upper_char_idem: "upper_char (upper_char c) = upper_char c"
proof (cases "upper_char c = c")
  case True
  then show ?thesis by (simp only:)
next
  case False
  with upper_char_cases [of c] have "upper_char c \<in> set ''ABCDEFGHIJKLMNOPQRSTUVWXYZ''" by blast
  then have "upper_char c \<notin> set ''abcdefghijklmnopqrstuvwxyz''" by (rule upper_not_lower)
  then show ?thesis by (rule upper_char_fixed)
qed

lemma upper_char_ws: "is_ws (upper_char c) = is_ws c"
proof (cases "upper_char c = c")
  case True
  then show ?thesis by (simp only:)
next
  case False
  with upper_char_cases [of c] have "c \<in> set ''abcdefghijklmnopqrstuvwxyz''"
    "upper_char c \<in> set ''ABCDEFGHIJKLMNOPQRSTUVWXYZ''" by blast+
  then show ?thesis using lower_not_ws upper_not_ws by blast
qed

lemma upper_tidy: "tidy u \<Longrightarrow> tidy (toUpperCase u)"
  by (cases "u = []") (simp_all add: tidy_def toUpperCase_def hd_map last_map upper_char_ws)

lemma upper_idem: "toUpperCase (toUpperCase u) = toUpperCase u"
  by (simp add: toUpperCase_def upper_char_idem)

lemma upper_stable: "toUpperCase (trim (toUpperCase (trim s))) = toUpperCase (trim s)"
  by (simp add: trim_of_tidy [OF upper_tidy [OF trim_tidy]] upper_idem)

subsection \<open>Numbers\<close>

lemma parseInt_str_shape: "parseInt_str s = JNaN \<or> (\<exists>n::int. parseInt_str s = JNum (of_int n))"
proof -
  obtain neg u where nu: "strip_sign (dropWhile is_ws s) = (neg, u)" by (cases "strip_sign (dropWhile is_ws s)")
  show ?thesis
  proof (cases "takeWhile is_digit u = []")
    case True
    with nu show ?thesis by (simp add: parseInt_str_def)
  next
    case False
    have "signed neg (of_nat (digits_val (takeWhile is_digit u)))
            = of_int (if neg then - int (digits_val (takeWhile is_digit u)) else int (digits_val (takeWhile is_digit u)))"
      by (simp add: signed_def)
    with False nu show ?thesis by (auto simp: parseInt_str_def Let_def)
  qed
qed

lemma signed_int: "\<exists>n::int. signed b (of_int m) = of_int n"
  by (cases b) (simp_all add: signed_def, metis of_int_minus)

lemma parseInt_num_shape: "\<exists>n::int. parseInt_num r = JNum (of_int n)"
proof -
  have a: "\<And>b (m::nat). \<exists>n::int. signed b (of_nat m) = of_int n"
    using signed_int [of _ "int _"] by simp
  show ?thesis
    unfolding parseInt_num_def Let_def using a signed_int by (auto simp: )
qed

lemma parseInt_shape: "parseInt x = JNaN \<or> (\<exists>n::int. parseInt x = JNum (of_int n))"
  by (cases x) (simp_all add: parseInt_str_shape parseInt_num_shape)

lemma parseInt_num_small:
  assumes "\<bar>of_int n :: rat\<bar> < 10 ^ 21"
  shows "parseInt_num (of_int n) = JNum (of_int n)"
proof -
  have c2: "\<not> (0 < \<bar>of_int n :: rat\<bar> \<and> \<bar>of_int n :: rat\<bar> < 1 / 10 ^ 6)"
  proof
    assume h: "0 < \<bar>of_int n :: rat\<bar> \<and> \<bar>of_int n :: rat\<bar> < 1 / 10 ^ 6"
    then have "n \<noteq> 0" by auto
    then have "1 \<le> \<bar>n\<bar>" by simp
    then have "(1::rat) \<le> \<bar>of_int n\<bar>" by (metis of_int_1 of_int_abs of_int_le_iff)
    with h show False by simp
  qed
  have c1: "\<not> (10 ^ 21 \<le> \<bar>of_int n :: rat\<bar>)" using assms by simp
  have c3: "signed (of_int n < (0::rat)) (of_int \<lfloor>\<bar>of_int n :: rat\<bar>\<rfloor>) = of_int n"
    by (simp add: signed_def)
  show ?thesis unfolding parseInt_num_def Let_def by (simp only: c1 c2 c3 if_False)
qed

lemma parse_sdec_shape:
  "parse_sdec s = Some (v, rest) \<Longrightarrow> (\<exists>r. v = JNum r) \<or> (\<exists>b. v = JInf b)"
  by (auto simp: parse_sdec_def split: prod.splits if_splits option.splits)

lemma parseFloat_idem: "parseFloat (parseFloat x) = parseFloat x"
proof (cases x)
  case (JStr s)
  show ?thesis
  proof (cases "parse_sdec (dropWhile is_ws s)")
    case None
    with JStr show ?thesis by (simp add: parseFloat_str_def)
  next
    case (Some vr)
    obtain v rest where "vr = (v, rest)" by (cases vr)
    with Some parse_sdec_shape have "(\<exists>r. v = JNum r) \<or> (\<exists>b. v = JInf b)" by blast
    with Some JStr \<open>vr = (v, rest)\<close> show ?thesis by (auto simp: parseFloat_str_def)
  qed
next
  case (JArr xs)
  show ?thesis
  proof (cases "parse_sdec (dropWhile is_ws (js_to_string (JArr xs)))")
    case None
    with JArr show ?thesis by (simp add: parseFloat_str_def)
  next
    case (Some vr)
    obtain v rest where "vr = (v, rest)" by (cases vr)
    with Some parse_sdec_shape have "(\<exists>r. v = JNum r) \<or> (\<exists>b. v = JInf b)" by blast
    with Some JArr \<open>vr = (v, rest)\<close> show ?thesis by (auto simp: parseFloat_str_def)
  qed
qed simp_all

subsection \<open>Statements that find their own result\<close>

lemma stmt_keys:
  "stmt_key (step_parseInt k) = k" "stmt_key (step_parseFloat k) = k"
  "stmt_key (step_trim k f) = k" "stmt_key (step_upper k) = k"
  "stmt_key (step_date_or_null e k) = k" "stmt_key (step_parseDate e k) = k"
  by (simp_all add: step_parseInt_def step_parseFloat_def step_trim_def step_upper_def
        step_date_or_null_def step_parseDate_def)

lemma run_results:
  assumes "run sts p = Inr q" "distinct (map stmt_key sts)" "st \<in> set sts"
  shows "result st (get p (stmt_key st)) (get q (stmt_key st))"
proof -
  from assms(3) obtain pre post where sp: "sts = pre @ st # post"
    by (auto simp: in_set_conv_decomp)
  with assms(2) have "stmt_key st \<notin> stmt_key ` set pre" "stmt_key st \<notin> stmt_key ` set post"
    by auto
  with assms(1) sp show ?thesis using run_single by blast
qed

lemma settle_parseInt:
  assumes "result (step_parseInt k) x w" "\<bar>num_of w\<bar> < 10 ^ 21"
  shows "settled (step_parseInt k') w"
proof (cases "truthy w")
  case False
  then show ?thesis by (simp add: settled_def step_parseInt_def)
next
  case True
  with assms(1) have "w = parseInt x" by (auto simp: step_parseInt_def split: if_splits)
  with True parseInt_shape [of x] obtain n :: int where n: "w = JNum (of_int n)" by auto
  with assms(2) have "parseInt_num (of_int n) = JNum (of_int n)"
    by (intro parseInt_num_small) (simp add: num_of_def)
  with n show ?thesis by (simp add: settled_def step_parseInt_def)
qed

lemma settle_parseFloat:
  assumes "result (step_parseFloat k) x w"
  shows "settled (step_parseFloat k') w"
proof (cases "truthy w")
  case False
  then show ?thesis by (simp add: settled_def step_parseFloat_def)
next
  case True
  with assms(1) have "w = parseFloat x" by (auto simp: step_parseFloat_def split: if_splits)
  then show ?thesis by (simp add: settled_def step_parseFloat_def parseFloat_idem)
qed

lemma settle_trim:
  assumes "result (step_trim k f) x w" "\<And>s. f (trim (f (trim s))) = f (trim s)"
  shows "settled (step_trim k' f) w"
proof (cases "truthy w")
  case False
  then show ?thesis by (simp add: settled_def step_trim_def)
next
  case True
  with assms(1) obtain s where "w = JStr (f (trim s))"
    by (cases x) (auto simp: step_trim_def trimmed_def split: if_splits)
  with assms(2) show ?thesis by (simp add: settled_def step_trim_def trimmed_def)
qed

lemma settle_upper:
  assumes "result (step_upper k) x w"
  shows "settled (step_upper k') w"
proof (cases "truthy w")
  case False
  then show ?thesis by (simp add: settled_def step_upper_def)
next
  case True
  with assms(1) obtain s where "w = JStr (toUpperCase s)"
    by (cases x) (auto simp: step_upper_def uppered_def split: if_splits)
  then show ?thesis by (simp add: settled_def step_upper_def uppered_def upper_idem)
qed

lemma settle_date_or_now:
  assumes "result (Rewrite k (\<lambda>x. Inr (date_or_now e x))) x w"
  shows "settled (Rewrite k' (\<lambda>x. Inr (date_or_now e' x))) w"
proof (cases "truthy w")
  case False
  then show ?thesis by (simp add: settled_def)
next
  case True
  with assms(1) have "w = date_or_now e x" by (auto split: if_splits)
  then obtain t where "w = JDate (Some t)" by (auto simp: date_or_now_def split: option.splits)
  then show ?thesis by (simp add: settled_def date_or_now_def)
qed

lemma settle_date_or_null:
  assumes "result (step_date_or_null e k) x w"
  shows "settled (step_date_or_null e' k') w"
proof (cases "truthy w")
  case False
  then show ?thesis by (simp add: settled_def step_date_or_null_def)
next
  case True
  with assms(1) have "w = date_or_null e x" by (auto simp: step_date_or_null_def split: if_splits)
  with True obtain t where "w = JDate (Some t)" by (auto simp: date_or_null_def split: option.splits)
  then show ?thesis by (simp add: settled_def step_date_or_null_def date_or_null_def)
qed

lemma settle_parseDate:
  assumes "result (step_parseDate e k) x w"
  shows "settled (step_parseDate e' k') w"
proof (cases "truthy w")
  case False
  then show ?thesis by (simp add: settled_def step_parseDate_def)
next
  case True
  with assms(1) have "w = parseDate e x" by (auto simp: step_parseDate_def split: if_splits)
  with True obtain t where "w = JDate t"
    by (cases x) (auto simp: parseDate_def split: option.splits if_splits)
  then show ?thesis by (simp add: settled_def step_parseDate_def parseDate_def)
qed

lemma settle_default:
  assumes "result (Default k v) x w" "truthy v"
  shows "settled (Default k' v') w"
  using assms by (auto simp: settled_def split: if_splits)

lemma normalizeEmployeeData_settles:
  assumes "normalizeEmployeeData e p = Inr q"
    and "small_ids [''id'', ''companyId'', ''userId''] q"
  shows "normalizeEmployeeData e' q = Inr q"
proof -
  let ?sts = "[step_parseInt ''id'', step_parseInt ''companyId'', step_parseInt ''userId'',
        step_trim ''fullName'' collapse_ws, step_trim ''employeeCode'' (\<lambda>t. t),
        step_trim ''phone'' strip_non_digits, step_trim ''jobTitle'' (\<lambda>t. t),
        step_trim ''photoUrl'' (\<lambda>t. t), step_upper ''status'',
        Rewrite ''createdAt'' (\<lambda>x. Inr (date_or_now e x))]"
  have r: "run ?sts p = Inr q" using assms(1) by (simp only: normalizeEmployeeData_def)
  have d: "distinct (map stmt_key ?sts)" by (simp add: stmt_keys)
  have R: "\<And>st. st \<in> set ?sts \<Longrightarrow> result st (get p (stmt_key st)) (get q (stmt_key st))"
    using r d by (rule run_results)
  from assms(2) have s: "\<bar>num_of (get q ''id'')\<bar> < 10 ^ 21" "\<bar>num_of (get q ''companyId'')\<bar> < 10 ^ 21"
    "\<bar>num_of (get q ''userId'')\<bar> < 10 ^ 21" by (simp_all add: small_ids_def)
  have "run [step_parseInt ''id'', step_parseInt ''companyId'', step_parseInt ''userId'',
        step_trim ''fullName'' collapse_ws, step_trim ''employeeCode'' (\<lambda>t. t),
        step_trim ''phone'' strip_non_digits, step_trim ''jobTitle'' (\<lambda>t. t),
        step_trim ''photoUrl'' (\<lambda>t. t), step_upper ''status'',
        Rewrite ''createdAt'' (\<lambda>x. Inr (date_or_now e' x))] q = Inr q"
  proof (rule run_settled, intro ballI)
    fix st
    assume "st \<in> set [step_parseInt ''id'', step_parseInt ''companyId'', step_parseInt ''userId'',
        step_trim ''fullName'' collapse_ws, step_trim ''employeeCode'' (\<lambda>t. t),
        step_trim ''phone'' strip_non_digits, step_trim ''jobTitle'' (\<lambda>t. t),
        step_trim ''photoUrl'' (\<lambda>t. t), step_upper ''status'',
        Rewrite ''createdAt'' (\<lambda>x. Inr (date_or_now e' x))]"
    then consider "st = step_parseInt ''id''" | "st = step_parseInt ''companyId''"
      | "st = step_parseInt ''userId''" | "st = step_trim ''fullName'' collapse_ws"
      | "st = step_trim ''employeeCode'' (\<lambda>t. t)" | "st = step_trim ''phone'' strip_non_digits"
      | "st = step_trim ''jobTitle'' (\<lambda>t. t)" | "st = step_trim ''photoUrl'' (\<lambda>t. t)"
      | "st = step_upper ''status''" | "st = Rewrite ''createdAt'' (\<lambda>x. Inr (date_or_now e' x))"
      by (simp only: set_simps insert_iff empty_iff) blast
    then show "settled st (get q (stmt_key st))"
    proof cases
      case 1
      from R [of "step_parseInt ''id''"] s(1) show ?thesis
        unfolding 1 by (simp only: stmt_keys) (rule settle_parseInt, simp_all)
    next
      case 2
      from R [of "step_parseInt ''companyId''"] s(2) show ?thesis
        unfolding 2 by (simp only: stmt_keys) (rule settle_parseInt, simp_all)
    next
      case 3
      from R [of "step_parseInt ''userId''"] s(3) show ?thesis
        unfolding 3 by (simp only: stmt_keys) (rule settle_parseInt, simp_all)
    next
      case 4
      from R [of "step_trim ''fullName'' collapse_ws"] show ?thesis
        unfolding 4 by (simp only: stmt_keys) (rule settle_trim, simp_all add: collapse_stable)
    next
      case 5
      from R [of "step_trim ''employeeCode'' (\<lambda>t. t)"] show ?thesis
        unfolding 5 by (simp only: stmt_keys) (rule settle_trim, simp_all add: trim_idem)
    next
      case 6
      from R [of "step_trim ''phone'' strip_non_digits"] show ?thesis
        unfolding 6 by (simp only: stmt_keys) (rule settle_trim, simp_all add: digits_stable)
    next
      case 7
      from R [of "step_trim ''jobTitle'' (\<lambda>t. t)"] show ?thesis
        unfolding 7 by (simp only: stmt_keys) (rule settle_trim, simp_all add: trim_idem)
    next
      case 8
      from R [of "step_trim ''photoUrl'' (\<lambda>t. t)"] show ?thesis
        unfolding 8 by (simp only: stmt_keys) (rule settle_trim, simp_all add: trim_idem)
    next
      case 9
      from R [of "step_upper ''status''"] show ?thesis
        unfolding 9 by (simp only: stmt_keys) (rule settle_upper, simp_all)
    next
      case 10
      from R [of "Rewrite ''createdAt'' (\<lambda>x. Inr (date_or_now e x))"] show ?thesis
        unfolding 10 by (simp only: stmt_key.simps) (rule settle_date_or_now, simp_all)
    qed
  qed
  then show ?thesis by (simp only: normalizeEmployeeData_def)
qed

lemma normalizeTaskData_settles:
  assumes "normalizeTaskData e p = Inr q"
    and "small_ids [''companyId'', ''projectId'', ''createdBy''] q"
  shows "normalizeTaskData e' q = Inr q"
proof -
  let ?sts = "[step_parseInt ''companyId'', step_parseInt ''projectId'', step_parseInt ''createdBy'',
        step_trim ''taskName'' (\<lambda>t. t), step_trim ''description'' (\<lambda>t. t),
        step_trim ''notes'' (\<lambda>t. t), step_parseDate e ''startDate'', step_parseDate e ''endDate'',
        Default ''status'' (JStr ''PLANNED''), Default ''additionalData'' (JObj []),
        Default ''createdAt'' (JDate (Some (now e)))]"
  have r: "run ?sts p = Inr q" using assms(1) by (simp only: normalizeTaskData_def)
  have d: "distinct (map stmt_key ?sts)" by (simp add: stmt_keys)
  have R: "\<And>st. st \<in> set ?sts \<Longrightarrow> result st (get p (stmt_key st)) (get q (stmt_key st))"
    using r d by (rule run_results)
  from assms(2) have s: "\<bar>num_of (get q ''companyId'')\<bar> < 10 ^ 21"
    "\<bar>num_of (get q ''projectId'')\<bar> < 10 ^ 21" "\<bar>num_of (get q ''createdBy'')\<bar> < 10 ^ 21"
    by (simp_all add: small_ids_def)
  have "run [step_parseInt ''companyId'', step_parseInt ''projectId'', step_parseInt ''createdBy'',
        step_trim ''taskName'' (\<lambda>t. t), step_trim ''description'' (\<lambda>t. t),
        step_trim ''notes'' (\<lambda>t. t), step_parseDate e' ''startDate'', step_parseDate e' ''endDate'',
        Default ''status'' (JStr ''PLANNED''), Default ''additionalData'' (JObj []),
        Default ''createdAt'' (JDate (Some (now e')))] q = Inr q"
  proof (rule run_settled, intro ballI)
    fix st
    assume "st \<in> set [step_parseInt ''companyId'', step_parseInt ''projectId'', step_parseInt ''createdBy'',
        step_trim ''taskName'' (\<lambda>t. t), step_trim ''description'' (\<lambda>t. t),
        step_trim ''notes'' (\<lambda>t. t), step_parseDate e' ''startDate'', step_parseDate e' ''endDate'',
        Default ''status'' (JStr ''PLANNED''), Default ''additionalData'' (JObj []),
        Default ''createdAt'' (JDate (Some (now e')))]"
    then consider "st = step_parseInt ''companyId''" | "st = step_parseInt ''projectId''"
      | "st = step_parseInt ''createdBy''" | "st = step_trim ''taskName'' (\<lambda>t. t)"
      | "st = step_trim ''description'' (\<lambda>t. t)" | "st = step_trim ''notes'' (\<lambda>t. t)"
      | "st = step_parseDate e' ''startDate''" | "st = step_parseDate e' ''endDate''"
      | "st = Default ''status'' (JStr ''PLANNED'')" | "st = Default ''additionalData'' (JObj [])"
      | "st = Default ''createdAt'' (JDate (Some (now e')))"
      by (simp only: set_simps insert_iff empty_iff) blast
    then show "settled st (get q (stmt_key st))"
    proof cases
      case 1
      from R [of "step_parseInt ''companyId''"] s(1) show ?thesis
        unfolding 1 by (simp only: stmt_keys) (rule settle_parseInt, simp_all)
    next
      case 2
      from R [of "step_parseInt ''projectId''"] s(2) show ?thesis
        unfolding 2 by (simp only: stmt_keys) (rule settle_parseInt, simp_all)
    next
      case 3
      from R [of "step_parseInt ''createdBy''"] s(3) show ?thesis
        unfolding 3 by (simp only: stmt_keys) (rule settle_parseInt, simp_all)
    next
      case 4
      from R [of "step_trim ''taskName'' (\<lambda>t. t)"] show ?thesis
        unfolding 4 by (simp only: stmt_keys) (rule settle_trim, simp_all add: trim_idem)
    next
      case 5
      from R [of "step_trim ''description'' (\<lambda>t. t)"] show ?thesis
        unfolding 5 by (simp only: stmt_keys) (rule settle_trim, simp_all add: trim_idem)
    next
      case 6
      from R [of "step_trim ''notes'' (\<lambda>t. t)"] show ?thesis
        unfolding 6 by (simp only: stmt_keys) (rule settle_trim, simp_all add: trim_idem)
    next
      case 7
      from R [of "step_parseDate e ''startDate''"] show ?thesis
        unfolding 7 by (simp only: stmt_keys) (rule settle_parseDate, simp_all)
    next
      case 8
      from R [of "step_parseDate e ''endDate''"] show ?thesis
        unfolding 8 by (simp only: stmt_keys) (rule settle_parseDate, simp_all)
    next
      case 9
      from R [of "Default ''status'' (JStr ''PLANNED'')"] show ?thesis
        unfolding 9 by (simp only: stmt_key.simps) (rule settle_default, simp, simp)
    next
      case 10
      from R [of "Default ''additionalData'' (JObj [])"] show ?thesis
        unfolding 10 by (simp only: stmt_key.simps) (rule settle_default, simp, simp)
    next
      case 11
      from R [of "Default ''createdAt'' (JDate (Some (now e)))"] show ?thesis
        unfolding 11 by (simp only: stmt_key.simps) (rule settle_default, simp, simp)
    qed
  qed
  then show ?thesis by (simp only: normalizeTaskData_def)
qed

lemma normalizeProjectData_settles:
  assumes "normalizeProjectData e p = Inr q"
    and "small_ids [''companyId''] q"
  shows "normalizeProjectData e' q = Inr q"
proof -
  let ?a = "[step_parseInt ''companyId'', step_parseFloat ''budget'',
        step_trim ''name'' collapse_ws, step_trim ''code'' toUpperCase,
        step_trim ''description'' (\<lambda>t. t), step_trim ''location'' (\<lambda>t. t),
        step_date_or_null e ''startDate'', step_date_or_null e ''endDate'',
        Default ''status'' (JStr ''PLANNING'')]"
  have "run (?a @ [Default ''budget'' (JNum 0)]) p = Inr q"
    using assms(1) by (simp only: normalizeProjectData_def append.simps)
  then obtain m where m: "run ?a p = Inr m" and x: "exec (Default ''budget'' (JNum 0)) m = Inr q"
    by (auto simp only: run_append run.simps split: sum.splits)
  have d: "distinct (map stmt_key ?a)" by (simp add: stmt_keys)
  have Rm: "\<And>st. st \<in> set ?a \<Longrightarrow> result st (get p (stmt_key st)) (get m (stmt_key st))"
    using m d by (rule run_results)
  have same: "\<And>k. k \<noteq> ''budget'' \<Longrightarrow> get q k = get m k"
    using exec_other [OF x] by simp
  have R: "\<And>st. st \<in> set ?a \<Longrightarrow> stmt_key st \<noteq> ''budget''
             \<Longrightarrow> result st (get p (stmt_key st)) (get q (stmt_key st))"
    using Rm same by simp
  have b: "get q ''budget'' = (if truthy (get m ''budget'') then get m ''budget'' else JNum 0)"
    using exec_result [OF x] by simp
  have bm: "result (step_parseFloat ''budget'') (get p ''budget'') (get m ''budget'')"
    using Rm [of "step_parseFloat ''budget''"] by (simp add: stmt_keys)
  from assms(2) have s: "\<bar>num_of (get q ''companyId'')\<bar> < 10 ^ 21" by (simp add: small_ids_def)
  have "run [step_parseInt ''companyId'', step_parseFloat ''budget'',
        step_trim ''name'' collapse_ws, step_trim ''code'' toUpperCase,
        step_trim ''description'' (\<lambda>t. t), step_trim ''location'' (\<lambda>t. t),
        step_date_or_null e' ''startDate'', step_date_or_null e' ''endDate'',
        Default ''status'' (JStr ''PLANNING''), Default ''budget'' (JNum 0)] q = Inr q"
  proof (rule run_settled, intro ballI)
    fix st
    assume "st \<in> set [step_parseInt ''companyId'', step_parseFloat ''budget'',
        step_trim ''name'' collapse_ws, step_trim ''code'' toUpperCase,
        step_trim ''description'' (\<lambda>t. t), step_trim ''location'' (\<lambda>t. t),
        step_date_or_null e' ''startDate'', step_date_or_null e' ''endDate'',
        Default ''status'' (JStr ''PLANNING''), Default ''budget'' (JNum 0)]"
    then consider "st = step_parseInt ''companyId''" | "st = step_parseFloat ''budget''"
      | "st = step_trim ''name'' collapse_ws" | "st = step_trim ''code'' toUpperCase"
      | "st = step_trim ''description'' (\<lambda>t. t)" | "st = step_trim ''location'' (\<lambda>t. t)"
      | "st = step_date_or_null e' ''startDate''" | "st = step_date_or_null e' ''endDate''"
      | "st = Default ''status'' (JStr ''PLANNING'')" | "st = Default ''budget'' (JNum 0)"
      by (simp only: set_simps insert_iff empty_iff) blast
    then show "settled st (get q (stmt_key st))"
    proof cases
      case 1
      from R [of "step_parseInt ''companyId''"] s show ?thesis
        unfolding 1 by (simp only: stmt_keys) (rule settle_parseInt, simp_all add: stmt_keys)
    next
      case 2
      show ?thesis
      proof (cases "truthy (get m ''budget'')")
        case True
        with b have "get q ''budget'' = get m ''budget''" by simp
        with bm show ?thesis unfolding 2 by (simp only: stmt_keys) (rule settle_parseFloat, simp)
      next
        case False
        with b have "\<not> truthy (get q ''budget'')" by simp
        then show ?thesis unfolding 2 by (simp add: stmt_keys settled_def step_parseFloat_def)
      qed
    next
      case 3
      from R [of "step_trim ''name'' collapse_ws"] show ?thesis
        unfolding 3 by (simp only: stmt_keys) (rule settle_trim, simp_all add: collapse_stable stmt_keys)
    next
      case 4
      from R [of "step_trim ''code'' toUpperCase"] show ?thesis
        unfolding 4 by (simp only: stmt_keys) (rule settle_trim, simp_all add: upper_stable stmt_keys)
    next
      case 5
      from R [of "step_trim ''description'' (\<lambda>t. t)"] show ?thesis
        unfolding 5 by (simp only: stmt_keys) (rule settle_trim, simp_all add: trim_idem stmt_keys)
    next
      case 6
      from R [of "step_trim ''location'' (\<lambda>t. t)"] show ?thesis
        unfolding 6 by (simp only: stmt_keys) (rule settle_trim, simp_all add: trim_idem stmt_keys)
    next
      case 7
      from R [of "step_date_or_null e ''startDate''"] show ?thesis
        unfolding 7 by (simp only: stmt_keys) (rule settle_date_or_null, simp_all add: stmt_keys)
    next
      case 8
      from R [of "step_date_or_null e ''endDate''"] show ?thesis
        unfolding 8 by (simp only: stmt_keys) (rule settle_date_or_null, simp_all add: stmt_keys)
    next
      case 9
      from R [of "Default ''status'' (JStr ''PLANNING'')"] show ?thesis
        unfolding 9 by (simp only: stmt_key.simps) (rule settle_default, simp, simp)
    next
      case 10
      from b show ?thesis unfolding 10 by (simp add: settled_def)
    qed
  qed
  then show ?thesis by (simp only: normalizeProjectData_def)
qed

text \<open>
  C7, as stated: for every payload, a normalizer applied to its own output returns it
  unchanged. \<open>parseInt\<close> reads the string form of its argument, and from \<open>1e21\<close> on the
  string form of a number is exponential: the id \<open>''1000000000000000000000''\<close> is normalized
  to the number \<open>1e21\<close>, and that number, normalized again, to 1.
\<close>

theorem normalizeEmployeeData_not_idempotent:
  "normalizeEmployeeData ex_env [(''id'', JStr ''1000000000000000000000'')]
     = Inr [(''id'', JNum 1000000000000000000000)]
   \<and> normalizeEmployeeData ex_env [(''id'', JNum 1000000000000000000000)]
     = Inr [(''id'', JNum 1)]"
  by (simp add: ev lead_digit.simps)

text \<open>
  C7, amended: whenever the employee, project or task normalizer returns a payload whose
  fields read by \<open>parseInt\<close> are below \<open>1e21\<close> in magnitude, the normalizer applied to that
  payload, at any later time, returns it unchanged.
\<close>

theorem normalizers_idempotent:
  "(normalizeEmployeeData e p = Inr q \<and> small_ids [''id'', ''companyId'', ''userId''] q
      \<longrightarrow> normalizeEmployeeData e' q = Inr q)
   \<and> (normalizeProjectData e p = Inr q \<and> small_ids [''companyId''] q
      \<longrightarrow> normalizeProjectData e' q = Inr q)
   \<and> (normalizeTaskData e p = Inr q \<and> small_ids [''companyId'', ''projectId'', ''createdBy''] q
      \<longrightarrow> normalizeTaskData e' q = Inr q)"
proof (intro conjI impI)
  show "normalizeEmployeeData e' q = Inr q"
    if "normalizeEmployeeData e p = Inr q \<and> small_ids [''id'', ''companyId'', ''userId''] q"
    using that by (elim conjE) (rule normalizeEmployeeData_settles)
  show "normalizeProjectData e' q = Inr q"
    if "normalizeProjectData e p = Inr q \<and> small_ids [''companyId''] q"
    using that by (elim conjE) (rule normalizeProjectData_settles)
  show "normalizeTaskData e' q = Inr q"
    if "normalizeTaskData e p = Inr q \<and> small_ids [''companyId'', ''projectId'', ''createdBy''] q"
    using that by (elim conjE) (rule normalizeTaskData_settles)
qed

theorem normalizers_idempotent_witness:
  "normalizeEmployeeData ex_env ex_employee_payload = Inr ex_employee_normal
   \<and> small_ids [''id'', ''companyId'', ''userId''] ex_employee_normal
   \<and> normalizeEmployeeData ex_later ex_employee_normal = Inr ex_employee_normal
   \<and> normalizeProjectData ex_env ex_project_payload = Inr ex_project_normal
   \<and> small_ids [''companyId''] ex_project_normal
   \<and> normalizeProjectData ex_later ex_project_normal = Inr ex_project_normal
   \<and> normalizeTaskData ex_env ex_task_payload = Inr ex_task_normal
   \<and> small_ids [''companyId'', ''projectId'', ''createdBy''] ex_task_normal
   \<and> normalizeTaskData ex_later ex_task_normal = Inr ex_task_normal"
proof -
  have e1: "normalizeEmployeeData ex_env ex_employee_payload = Inr ex_employee_normal"
    by (simp add: ev ex_employee_payload_def ex_employee_normal_def)
  have e2: "small_ids [''id'', ''companyId'', ''userId''] ex_employee_normal"
    by (simp add: small_ids_def ex_employee_normal_def get_def num_of_def)
  have p1: "normalizeProjectData ex_env ex_project_payload = Inr ex_project_normal"
    by (simp add: ev ex_project_payload_def ex_project_normal_def)
  have p2: "small_ids [''companyId''] ex_project_normal"
    by (simp add: small_ids_def ex_project_normal_def get_def num_of_def)
  have t1: "normalizeTaskData ex_env ex_task_payload = Inr ex_task_normal"
    by (simp add: ev ex_task_payload_def ex_task_normal_def)
  have t2: "small_ids [''companyId'', ''projectId'', ''createdBy''] ex_task_normal"
    by (simp add: small_ids_def ex_task_normal_def get_def num_of_def)
  have e3: "normalizeEmployeeData ex_later ex_employee_normal = Inr ex_employee_normal"
    using normalizers_idempotent [of ex_env ex_employee_payload ex_employee_normal ex_later] e1 e2
    by blast
  have p3: "normalizeProjectData ex_later ex_project_normal = Inr ex_project_normal"
    using normalizers_idempotent [of ex_env ex_project_payload ex_project_normal ex_later] p1 p2
    by blast
  have t3: "normalizeTaskData ex_later ex_task_normal = Inr ex_task_normal"
    using normalizers_idempotent [of ex_env ex_task_payload ex_task_normal ex_later] t1 t2
    by blast
  show ?thesis using e1 e2 e3 p1 p2 p3 t1 t2 t3 by - (intro conjI; assumption)
qed

section \<open>Every payload of a new project\<close>








section \<open>The id of a new document\<close>

lemma id_key_number: "id_key doc \<noteq> None \<Longrightarrow> id_key doc = Some (id_number doc) \<and> get doc ''id'' = JNum (id_number doc)"
  by (auto simp: id_key_def id_number_def split: jsval.splits)

lemma last_by_id_Nil: "last_by_id docs = None \<longleftrightarrow> docs = []"
  by (induction docs) (auto split: option.splits)

lemma last_by_id_max:
  assumes "docs \<noteq> []" "numeric_ids docs"
  shows "\<exists>m. last_by_id docs = Some m \<and> id_key m \<noteq> None \<and> id_number m = max_id docs"
  using assms
proof (induction docs)
  case Nil
  then show ?case by simp
next
  case (Cons doc docs)
  from Cons.prems have k: "id_key doc = Some (id_number doc)" and ns: "numeric_ids docs"
    using id_key_number [of doc] by (auto simp: numeric_ids_def)
  show ?case
  proof (cases "docs = []")
    case True
    then show ?thesis using k by (simp add: max_id_def)
  next
    case False
    with Cons.IH ns obtain m where m: "last_by_id docs = Some m" "id_key m \<noteq> None"
      "id_number m = max_id docs" by blast
    from m(2) have km: "id_key m = Some (id_number m)" using id_key_number by blast
    have mx: "max_id (doc # docs) = max (id_number doc) (max_id docs)"
      using False by (simp add: max_id_def)
    show ?thesis using m k km mx by (auto simp: max_def)
  qed
qed

text \<open>The id read from a collection: 1 when it is empty, the greatest stored id plus 1 otherwise.\<close>

lemma nextTaskId_empty: "tasks d = [] \<Longrightarrow> nextTaskId d = JNum 1"
  by (simp add: nextTaskId_def)

lemma nextTaskId_max:
  assumes "tasks d \<noteq> []" "numeric_ids (tasks d)"
  shows "nextTaskId d = JNum (max_id (tasks d) + 1)"
proof -
  from last_by_id_max [OF assms] obtain m where "last_by_id (tasks d) = Some m"
    "id_key m \<noteq> None" "id_number m = max_id (tasks d)" by blast
  then show ?thesis using id_key_number [of m] by (simp add: nextTaskId_def)
qed

lemma generateNextProjectId_empty: "projects d = [] \<Longrightarrow> generateNextProjectId d = JNum 1"
  by (simp add: generateNextProjectId_def)

lemma generateNextProjectId_max:
  assumes "projects d \<noteq> []" "numeric_ids (projects d)"
  shows "generateNextProjectId d = JNum (max_id (projects d) + 1)"
proof -
  from last_by_id_max [OF assms] obtain m where "last_by_id (projects d) = Some m"
    "id_key m \<noteq> None" "id_number m = max_id (projects d)" by blast
  then show ?thesis using id_key_number [of m] by (simp add: generateNextProjectId_def)
qed


text \<open>A task created without an id gets the id read; a task that brings an id keeps it.\<close>

lemma task_references_found:
  assumes "\<exists>c \<in> set (companies d). get c ''id'' = companyId"
    and "\<exists>p \<in> set (projects d). get p ''id'' = JNum n"
  shows "task_validateReferentialIntegrity e d companyId (JNum n) = Inr (make_check [])"
  using assms
  by (auto simp: task_validateReferentialIntegrity_def Let_def findOne_None_iff field_eq_def
        number_eq_def)

lemma createTask_payload_id_kept:
  assumes "validateTaskInput e b = Inr []" "normalizeTaskData e b = Inr nd"
    and "truthy (get nd ''id'')"
    and "\<exists>c \<in> set (companies d). get c ''id'' = get nd ''companyId''"
    and "get nd ''projectId'' = JNum n" "\<exists>p \<in> set (projects d). get p ''id'' = JNum n"
  shows "snd (createTask e d b)
           = d\<lparr>tasks := tasks d @ [put ''updatedAt'' (JDate (Some (now e))) nd]\<rparr>"
  using assms(1-3,5) task_references_found [OF assms(4,6), of e]
  by (simp add: createTask_def Let_def save_task_def make_check_def)



end
